(* ===== verification/Prelude.thy ===== *)
theory Prelude
  imports
    Main
    "HOL-Library.Word"
    "HOL-Library.Char_ord"
    "HOL-Library.List_Lexorder"
    "HOL-Library.Multiset"
    "HOL-Library.Sublist"
begin

unbundle bit_operations_syntax

section \<open>Shared vocabulary of the development\<close>

text \<open>
  Types, library functions of Go and generic lemmas that every component uses.
  A Go \<^verbatim>\<open>string\<close> is a sequence of bytes, and so is a HOL \<^typ>\<open>string\<close>; its order
  (from \<^verbatim>\<open>Char_ord\<close> and \<^verbatim>\<open>List_Lexorder\<close>) is the bytewise lexicographic order that
  \<^verbatim>\<open>strings.Compare\<close> and \<^verbatim>\<open>slices.Sort\<close> use.  A function that can fail returns a sum whose
  left side is the error.

  An error value records the format string and the arguments of the \<^verbatim>\<open>fmt.Errorf\<close> call that
  made it and, for a \<^verbatim>\<open>%w\<close> verb, the wrapped error; the text is never rendered, because no
  branch of the program inspects it.  The two constructors \<^verbatim>\<open>NotFound\<close> and \<^verbatim>\<open>External\<close>
  stand for errors that come from outside the program: those that \<^verbatim>\<open>apierrors.IsNotFound\<close>
  recognises, and all others.
\<close>

type_synonym byte = "8 word"

datatype error =
    Errorf string "string list"
  | Wrapf string "string list" error
  | Joined "error list"
  | NotFound
  | External string

type_synonym 'a result = "error + 'a"

named_theorems go_simps \<open>equations of the Go library functions used by the program\<close>

subsection \<open>Package strings, slices and strconv\<close>

definition TrimSuffix :: "string \<Rightarrow> string \<Rightarrow> string" where
  "TrimSuffix s suf = (if suffix suf s then take (length s - length suf) s else s)"

fun strings_Join :: "string list \<Rightarrow> string \<Rightarrow> string" where
  "strings_Join [] sep = []"
| "strings_Join [s] sep = s"
| "strings_Join (s # t # ts) sep = s @ sep @ strings_Join (t # ts) sep"

definition Contains :: "string \<Rightarrow> string \<Rightarrow> bool" where
  "Contains s sub = sublist sub s"

definition HasPrefix :: "string \<Rightarrow> string \<Rightarrow> bool" where
  "HasPrefix s p = prefix p s"

definition HasSuffix :: "string \<Rightarrow> string \<Rightarrow> bool" where
  "HasSuffix s p = suffix p s"

text \<open>\<^verbatim>\<open>strings.Cut\<close> at a one-byte separator: the text before and after its first occurrence.\<close>

definition Cut :: "string \<Rightarrow> char \<Rightarrow> (string \<times> string) option" where
  "Cut s c = (if c \<in> set s
     then Some (takeWhile (\<lambda>x. x \<noteq> c) s, tl (dropWhile (\<lambda>x. x \<noteq> c) s)) else None)"

text \<open>\<^verbatim>\<open>strings.Split\<close> at a one-byte separator: the rest of the text and the piece read so far.\<close>

fun split_byte :: "char \<Rightarrow> string \<Rightarrow> string \<Rightarrow> string list" where
  "split_byte sep [] acc = [acc]"
| "split_byte sep (c # cs) acc = (if c = sep then acc # split_byte sep cs [] else split_byte sep cs (acc @ [c]))"

text \<open>
  \<^verbatim>\<open>slices.SortFunc\<close> and \<^verbatim>\<open>slices.Sort\<close> are an insertion sort, hence stable, on slices of at
  most twelve elements, the only sizes that occur here; \<^verbatim>\<open>slices.Compact\<close> drops repetitions of
  the preceding element.
\<close>

definition SortFunc :: "('a \<Rightarrow> string) \<Rightarrow> 'a list \<Rightarrow> 'a list" where
  "SortFunc key xs = sort_key key xs"

definition slices_Sort :: "string list \<Rightarrow> string list" where
  "slices_Sort xs = sort xs"

definition slices_Compact :: "string list \<Rightarrow> string list" where
  "slices_Compact xs = remdups_adj xs"

text \<open>The decimal rendering of \<^verbatim>\<open>%d\<close>.\<close>

fun decimal :: "nat \<Rightarrow> string" where
  "decimal n = (if n < 10 then [char_of (48 + n)] else decimal (n div 10) @ [char_of (48 + n mod 10)])"

declare decimal.simps [simp del]

definition itoa :: "int \<Rightarrow> string" where
  "itoa i = (if i < 0 then CHR ''-'' # decimal (nat (- i)) else decimal (nat i))"

definition is_digit :: "char \<Rightarrow> bool" where
  "is_digit c = (48 \<le> (of_char c :: nat) \<and> (of_char c :: nat) \<le> 57)"

subsection \<open>Lemmas on the library functions\<close>

lemma TrimSuffix_append [simp, go_simps]: "TrimSuffix (s @ suf) suf = s"
  by (simp add: TrimSuffix_def suffix_def)

lemma TrimSuffix_id [go_simps]: "\<not> suffix suf s \<Longrightarrow> TrimSuffix s suf = s"
  by (simp add: TrimSuffix_def)

lemma TrimSuffix_char: "TrimSuffix s [c] = (if s \<noteq> [] \<and> last s = c then butlast s else s)"
  by (cases s rule: rev_cases) (auto simp: TrimSuffix_def)

lemma split_byte_ne [simp]: "split_byte sep s acc \<noteq> []"
  by (induction sep s acc rule: split_byte.induct) simp_all

lemma split_byte_free: "sep \<notin> set s \<Longrightarrow> split_byte sep (s @ t) acc = split_byte sep t (acc @ s)"
  by (induction s arbitrary: acc) auto

lemma split_byte_pieces: "l \<in> set (split_byte sep s acc) \<Longrightarrow> sep \<notin> set acc \<Longrightarrow> sep \<notin> set l"
  by (induction sep s acc rule: split_byte.induct) (auto split: if_splits)

lemma join_split_byte: "strings_Join (split_byte sep s acc) [sep] = acc @ s"
proof (induction sep s acc rule: split_byte.induct)
  case (2 sep c cs acc)
  have "strings_Join (x # split_byte sep cs []) [sep] = x @ sep # strings_Join (split_byte sep cs []) [sep]" for x
    by (cases "split_byte sep cs []") simp_all
  with 2 show ?case by simp
qed simp

lemma split_byte_join:
  "list_all (\<lambda>l. sep \<notin> set l) ls \<Longrightarrow> ls \<noteq> [] \<Longrightarrow> split_byte sep (strings_Join ls [sep]) [] = ls"
proof (induction ls)
  case (Cons l ls)
  show ?case
  proof (cases ls)
    case Nil
    with Cons.prems split_byte_free [of sep l "[]" "[]"] show ?thesis by simp
  next
    case (Cons m ms)
    with Cons.IH Cons.prems split_byte_free [of sep l "sep # strings_Join ls [sep]" "[]"] show ?thesis by simp
  qed
qed simp

lemma mset_SortFunc [simp]: "mset (SortFunc key xs) = mset xs"
  by (simp add: SortFunc_def)

lemma set_SortFunc [simp]: "set (SortFunc key xs) = set xs"
  by (simp add: SortFunc_def)

lemma length_SortFunc [simp]: "length (SortFunc key xs) = length xs"
  by (simp add: SortFunc_def)

lemma sorted_SortFunc: "sorted (map key (SortFunc key xs))"
  by (simp add: SortFunc_def)

lemma SortFunc_Nil [simp]: "SortFunc key [] = []"
  by (simp add: SortFunc_def)

text \<open>
  With distinct keys the result depends on the multiset of elements only, so it does not depend on
  the sorting algorithm either.
\<close>

lemma SortFunc_perm:
  assumes "mset xs = mset ys" and "distinct (map key xs)"
  shows "SortFunc key xs = SortFunc key ys"
  unfolding SortFunc_def
  by (rule sort_key_inj_key_eq) (use assms in \<open>auto simp: distinct_map\<close>)

text \<open>Sorting and then compacting a list of strings removes all duplicates.\<close>

lemma distinct_remdups_adj_sorted: "sorted xs \<Longrightarrow> distinct (remdups_adj (xs :: 'a :: linorder list))"
  by (induction xs rule: remdups_adj.induct) auto

lemma Compact_Sort:
  "sorted (slices_Compact (slices_Sort xs))"
  "distinct (slices_Compact (slices_Sort xs))"
  "set (slices_Compact (slices_Sort xs)) = set xs"
  by (simp_all add: slices_Compact_def slices_Sort_def distinct_remdups_adj_sorted)

lemma Compact_Sort_eq_Nil [simp]: "slices_Compact (slices_Sort xs) = [] \<longleftrightarrow> xs = []"
  by (metis Compact_Sort(3) set_empty)

subsection \<open>Decimal numbers\<close>

lemma digit_char:
  "k < 10 \<Longrightarrow> is_digit (char_of (48 + k))" "k < 10 \<Longrightarrow> of_char (char_of (48 + k)) = (48 + k :: nat)"
  by (simp_all add: is_digit_def of_char_of)

lemma is_digit_not: "is_digit c \<Longrightarrow> c \<notin> {CHR ''.'', CHR '':'', CHR ''%'', CHR ''['', CHR '']''}"
  by (auto simp: is_digit_def)

lemma decimal_ne [simp]: "decimal n \<noteq> []"
  by (subst decimal.simps) simp

lemma decimal_digits: "c \<in> set (decimal n) \<Longrightarrow> is_digit c"
proof (induction n rule: decimal.induct)
  case (1 n)
  show ?case
  proof (cases "n < 10")
    case True
    with 1(2) show ?thesis by (simp add: decimal.simps [of n] digit_char)
  next
    case False
    with 1(2) have "c \<in> set (decimal (n div 10)) \<or> c = char_of (48 + n mod 10)"
      by (subst (asm) decimal.simps) auto
    with 1(1) False show ?thesis by (auto simp: digit_char)
  qed
qed

lemma decimal_small: "r < 10 \<Longrightarrow> decimal r = [char_of (48 + r)]"
  by (subst decimal.simps) simp

lemma decimal_snoc: "0 < q \<Longrightarrow> r < 10 \<Longrightarrow> decimal (q * 10 + r) = decimal q @ [char_of (48 + r)]"
  by (subst decimal.simps) simp

text \<open>Decimal numerals read back.\<close>

fun undecimal :: "string \<Rightarrow> nat \<Rightarrow> nat" where
  "undecimal [] acc = acc"
| "undecimal (c # cs) acc = undecimal cs (acc * 10 + (of_char c - 48))"

lemma undecimal_append: "undecimal (s @ t) acc = undecimal t (undecimal s acc)"
  by (induction s arbitrary: acc) simp_all

lemma undecimal_decimal: "undecimal (decimal n) 0 = n"
proof (induction n rule: decimal.induct)
  case (1 n)
  then show ?case
    by (cases "n < 10") (simp_all add: decimal.simps [of n] undecimal_append digit_char)
qed

lemma decimal_inj: "decimal m = decimal n \<longleftrightarrow> m = n"
  by (metis undecimal_decimal)

lemma takeWhile_neq_append: "x \<notin> set xs \<Longrightarrow> takeWhile (\<lambda>y. y \<noteq> x) (xs @ x # ys) = xs"
  by (induction xs) auto

subsection \<open>The longest element that covers\<close>

text \<open>
  A scan that keeps the first element of maximal length among those that cover something.
\<close>

fun longest :: "('r \<Rightarrow> bool) \<Rightarrow> ('r \<Rightarrow> nat) \<Rightarrow> 'r list \<Rightarrow> 'r option \<Rightarrow> 'r option" where
  "longest cov len [] best = best"
| "longest cov len (r # rs) best =
     longest cov len rs
       (if cov r \<and> (case best of None \<Rightarrow> True | Some b \<Rightarrow> len b < len r) then Some r else best)"

lemma longest_sound:
  assumes "longest cov len rs best = Some r"
  shows "(r \<in> set rs \<and> cov r \<or> best = Some r) \<and> (\<forall>b. best = Some b \<longrightarrow> len b \<le> len r) \<and>
    (\<forall>s \<in> set rs. cov s \<longrightarrow> len s \<le> len r)"
  using assms
proof (induction rs arbitrary: best)
  case (Cons s rs)
  then show ?case by (fastforce split: if_splits option.splits)
qed simp

lemma longest_None: "longest cov len rs best = None \<longleftrightarrow> best = None \<and> (\<forall>r \<in> set rs. \<not> cov r)"
  by (induction rs arbitrary: best) (auto split: option.splits)

end
