(* ===== verification/Kube_Types.thy ===== *)
theory Kube_Types
  imports Prelude
begin

section \<open>Kubernetes objects\<close>

text \<open>
  The parts of the Kubernetes API types that the operator writes or reads: metadata, conditions,
  Deployments with their pod templates, Services, ServiceAccounts, ConfigMaps, Roles,
  RoleBindings and NetworkPolicies.  A pointer field is an option, a string map is a partial
  function, and every integer is a mathematical one: the operator compares replica counts and
  generations and never computes with them.  A \<^verbatim>\<open>client.Object\<close> is a value of the sum type \<open>obj\<close>,
  so a Go type assertion is a case distinction.
\<close>

subsection \<open>Metadata and conditions\<close>

type_synonym labels = "string \<rightharpoonup> string"

record owner_ref =
  orKind :: string
  orName :: string
  orController :: bool

record ObjectMeta =
  Name :: string
  Namespace :: string
  Labels :: labels
  Annotations :: labels
  ResourceVersion :: string
  Generation :: int
  OwnerReferences :: "owner_ref list"

definition object_meta :: "string \<Rightarrow> string \<Rightarrow> labels \<Rightarrow> ObjectMeta" where
  "object_meta name namespace lbls =
     \<lparr>Name = name, Namespace = namespace, Labels = lbls, Annotations = Map.empty,
      ResourceVersion = [], Generation = 0, OwnerReferences = []\<rparr>"

text \<open>\<^verbatim>\<open>metav1.Condition\<close>; a zero \<^verbatim>\<open>LastTransitionTime\<close> is \<open>None\<close>.\<close>

record Condition =
  cType :: string
  cStatus :: string
  cReason :: string
  cMessage :: string
  cObservedGeneration :: int
  cLastTransitionTime :: "nat option"

definition ConditionTrue :: string where "ConditionTrue = ''True''"
definition ConditionFalse :: string where "ConditionFalse = ''False''"

text \<open>A \<^verbatim>\<open>metav1.Condition\<close> literal with the four fields the operator sets.\<close>

definition condition :: "string \<Rightarrow> string \<Rightarrow> string \<Rightarrow> string \<Rightarrow> Condition" where
  "condition typ status reason message =
     \<lparr>cType = typ, cStatus = status, cReason = reason, cMessage = message,
      cObservedGeneration = 0, cLastTransitionTime = None\<rparr>"

lemma condition_sel [simp]:
  "cType (condition t s r m) = t" "cStatus (condition t s r m) = s"
  "cReason (condition t s r m) = r" "cMessage (condition t s r m) = m"
  "cObservedGeneration (condition t s r m) = 0" "cLastTransitionTime (condition t s r m) = None"
  by (simp_all add: condition_def)

lemma status_distinct [simp]: "ConditionTrue \<noteq> ConditionFalse" "ConditionFalse \<noteq> ConditionTrue"
  by (simp_all add: ConditionTrue_def ConditionFalse_def)

subsection \<open>Pods\<close>

datatype IntOrString = FromInt int | FromString string

record EnvVar =
  evName :: string
  evValue :: string
  evSecretKeyRef :: "(string \<times> string) option"  \<comment> \<open>\<^verbatim>\<open>ValueFrom.SecretKeyRef\<close>: Secret name and key\<close>

record VolumeMount =
  vmName :: string
  vmMountPath :: string
  vmSubPath :: string
  vmReadOnly :: bool

record TokenProjection =
  tpAudience :: string
  tpExpirationSeconds :: "int option"
  tpPath :: string

datatype VolumeSource =
    ConfigMapVolume string
  | SecretVolume string
  | EmptyDirVolume
  | ProjectedVolume "int option" "TokenProjection list"

record Volume =
  volName :: string
  volSource :: VolumeSource

record ContainerPort =
  cpName :: string
  cpContainerPort :: int
  cpProtocol :: string

record Probe =
  prPath :: string
  prPort :: IntOrString
  prInitialDelaySeconds :: int
  prPeriodSeconds :: int
  prTimeoutSeconds :: int
  prFailureThreshold :: int

record ResourceRequirements =
  rrLimits :: labels
  rrRequests :: labels

record SecurityContext =
  scAllowPrivilegeEscalation :: "bool option"
  scReadOnlyRootFilesystem :: "bool option"
  scCapabilitiesDrop :: "string list"
  scSeccompProfileType :: string

record Container =
  ctName :: string
  ctImage :: string
  ctImagePullPolicy :: string
  ctWorkingDir :: string
  ctCommand :: "string list"
  ctArgs :: "string list"
  ctPorts :: "ContainerPort list"
  ctEnv :: "EnvVar list"
  ctLivenessProbe :: "Probe option"
  ctReadinessProbe :: "Probe option"
  ctResources :: ResourceRequirements
  ctSecurityContext :: "SecurityContext option"
  ctVolumeMounts :: "VolumeMount list"

record PodSpec =
  psAutomountServiceAccountToken :: "bool option"
  psServiceAccountName :: string
  psTerminationGracePeriodSeconds :: "int option"
  psRunAsNonRoot :: "bool option"
  psInitContainers :: "Container list"
  psContainers :: "Container list"
  psVolumes :: "Volume list"

record PodTemplate =
  ptMeta :: ObjectMeta
  ptSpec :: PodSpec

subsection \<open>Operands\<close>

record DeploymentSpec =
  dsReplicas :: "int option"
  dsSelector :: labels
  dsStrategyType :: string
  dsMaxSurge :: "IntOrString option"
  dsMaxUnavailable :: "IntOrString option"
  dsTemplate :: PodTemplate

record DeploymentStatus =
  stObservedGeneration :: int
  stReplicas :: int
  stUpdatedReplicas :: int
  stAvailableReplicas :: int
  stConditions :: "(string \<times> string) list"  \<comment> \<open>type and status of each condition\<close>

definition zero_status :: DeploymentStatus where
  "zero_status = \<lparr>stObservedGeneration = 0, stReplicas = 0, stUpdatedReplicas = 0,
     stAvailableReplicas = 0, stConditions = []\<rparr>"

record Deployment =
  depMeta :: ObjectMeta
  depSpec :: DeploymentSpec
  depStatus :: DeploymentStatus

record ServicePort =
  spName :: string
  spPort :: int
  spTargetPort :: IntOrString
  spProtocol :: string
  spAppProtocol :: "string option"

record Service =
  svcMeta :: ObjectMeta
  svcType :: string
  svcSelector :: labels
  svcPorts :: "ServicePort list"

record ServiceAccount =
  saMeta :: ObjectMeta

record ConfigMap =
  cmMeta :: ObjectMeta
  cmData :: labels

record Role =
  roMeta :: ObjectMeta
  roRules :: "string list"

record RoleBinding =
  rbMeta :: ObjectMeta
  rbRoleRef :: "string \<times> string \<times> string"  \<comment> \<open>APIGroup, Kind, Name\<close>
  rbSubjects :: "(string \<times> string \<times> string) list"  \<comment> \<open>Kind, Name, Namespace\<close>

record NetworkPolicy =
  npMeta :: ObjectMeta
  npPodSelector :: labels
  npPolicyTypes :: "string list"
  npIngress :: "string list"

datatype obj =
    DeploymentObj Deployment
  | ServiceObj Service
  | ServiceAccountObj ServiceAccount
  | ConfigMapObj ConfigMap
  | RoleObj Role
  | RoleBindingObj RoleBinding
  | NetworkPolicyObj NetworkPolicy

fun obj_meta :: "obj \<Rightarrow> ObjectMeta" where
  "obj_meta (DeploymentObj d) = depMeta d"
| "obj_meta (ServiceObj s) = svcMeta s"
| "obj_meta (ServiceAccountObj a) = saMeta a"
| "obj_meta (ConfigMapObj c) = cmMeta c"
| "obj_meta (RoleObj r) = roMeta r"
| "obj_meta (RoleBindingObj r) = rbMeta r"
| "obj_meta (NetworkPolicyObj n) = npMeta n"

text \<open>The \<^verbatim>\<open>TypeMeta\<close> of a rendered object is determined by its Go type.\<close>

fun obj_kind :: "obj \<Rightarrow> string" where
  "obj_kind (DeploymentObj _) = ''Deployment''"
| "obj_kind (ServiceObj _) = ''Service''"
| "obj_kind (ServiceAccountObj _) = ''ServiceAccount''"
| "obj_kind (ConfigMapObj _) = ''ConfigMap''"
| "obj_kind (RoleObj _) = ''Role''"
| "obj_kind (RoleBindingObj _) = ''RoleBinding''"
| "obj_kind (NetworkPolicyObj _) = ''NetworkPolicy''"

fun api_version :: "obj \<Rightarrow> string" where
  "api_version (DeploymentObj _) = ''apps/v1''"
| "api_version (ServiceObj _) = ''v1''"
| "api_version (ServiceAccountObj _) = ''v1''"
| "api_version (ConfigMapObj _) = ''v1''"
| "api_version (RoleObj _) = ''rbac.authorization.k8s.io/v1''"
| "api_version (RoleBindingObj _) = ''rbac.authorization.k8s.io/v1''"
| "api_version (NetworkPolicyObj _) = ''networking.k8s.io/v1''"

text \<open>What identifies an object in the cluster.\<close>

type_synonym obj_key = "string \<times> string \<times> string"

definition obj_key :: "obj \<Rightarrow> obj_key" where
  "obj_key ob = (obj_kind ob, Namespace (obj_meta ob), Name (obj_meta ob))"

definition is_deployment :: "obj \<Rightarrow> bool" where
  "is_deployment ob = (case ob of DeploymentObj _ \<Rightarrow> True | _ \<Rightarrow> False)"

subsection \<open>Label sets and mounts\<close>

text \<open>
  A selector matches a label set that extends it.  A container's mounts are backed when each
  names a volume of the pod.
\<close>

definition selects :: "labels \<Rightarrow> labels \<Rightarrow> bool" where
  "selects sel lbls = (sel \<subseteq>\<^sub>m lbls)"

definition mounts_backed :: "PodSpec \<Rightarrow> bool" where
  "mounts_backed p = list_all (\<lambda>c. list_all (\<lambda>m. vmName m \<in> set (map volName (psVolumes p))) (ctVolumeMounts c))
     (psInitContainers p @ psContainers p)"

text \<open>The Secrets and ConfigMaps that a pod consumes.\<close>

definition volume_secrets :: "Volume \<Rightarrow> string list" where
  "volume_secrets v = (case volSource v of SecretVolume s \<Rightarrow> [s] | _ \<Rightarrow> [])"

definition volume_configmaps :: "Volume \<Rightarrow> string list" where
  "volume_configmaps v = (case volSource v of ConfigMapVolume s \<Rightarrow> [s] | _ \<Rightarrow> [])"

definition env_secrets :: "EnvVar \<Rightarrow> string list" where
  "env_secrets e = (case evSecretKeyRef e of Some (s, _) \<Rightarrow> [s] | None \<Rightarrow> [])"

definition pod_secrets :: "PodSpec \<Rightarrow> string list" where
  "pod_secrets p = concat (map volume_secrets (psVolumes p)) @
     concat (map (\<lambda>c. concat (map env_secrets (ctEnv c))) (psInitContainers p @ psContainers p))"

definition pod_configmaps :: "PodSpec \<Rightarrow> string list" where
  "pod_configmaps p = concat (map volume_configmaps (psVolumes p))"

text \<open>
  The volume that provides a path inside a container: that of the deepest mount at or above it.
\<close>

definition under_mount :: "string \<Rightarrow> VolumeMount \<Rightarrow> bool" where
  "under_mount path m \<longleftrightarrow> path = vmMountPath m \<or> HasPrefix path (vmMountPath m @ ''/'')"

definition mounted_source :: "PodSpec \<Rightarrow> Container \<Rightarrow> string \<Rightarrow> VolumeSource option" where
  "mounted_source p c path =
     (case longest (under_mount path) (\<lambda>m. length (vmMountPath m)) (ctVolumeMounts c) None of
        None \<Rightarrow> None
      | Some m \<Rightarrow> map_of (map (\<lambda>v. (volName v, volSource v)) (psVolumes p)) (vmName m))"

subsection \<open>JSON values\<close>

text \<open>The value tree that \<^verbatim>\<open>encoding/json\<close> sees; object members keep the order of the struct
  fields.\<close>

datatype json =
    JBool bool
  | JNum int
  | JStr string
  | JArr "json list"
  | JObj "(string \<times> json) list"

text \<open>A struct field tagged \<^verbatim>\<open>omitempty\<close> disappears when it holds the zero value.\<close>

definition omitempty :: "string \<Rightarrow> bool \<Rightarrow> json \<Rightarrow> (string \<times> json) list" where
  "omitempty k isZero v = (if isZero then [] else [(k, v)])"

fun json_member :: "string \<Rightarrow> json \<Rightarrow> json option" where
  "json_member k (JObj ms) = map_of ms k"
| "json_member k _ = None"

text \<open>The value at a path of member names.\<close>

fun json_at :: "string list \<Rightarrow> json \<Rightarrow> json option" where
  "json_at [] j = Some j"
| "json_at (k # ks) j = (case json_member k j of None \<Rightarrow> None | Some v \<Rightarrow> json_at ks v)"

end
