(* ===== verification/Service_Monitor.thy ===== *)
theory Service_Monitor
  imports Kube_Types
begin

section \<open>The ServiceMonitor bootstrap\<close>

text \<open>
  \<^verbatim>\<open>internal/servicemonitor/servicemonitor.go\<close>: the validation of the scrape configuration and the
  best-effort creation of the operator's own ServiceMonitor.  The discovery client, the API client
  and the cluster are parameters; an operation on the cluster is a function of the state \<open>'w\<close> of the
  world.  An unstructured object is its metadata and its spec as a JSON tree.
\<close>

subsection \<open>Constants and data\<close>

definition serviceMonitorName :: string where "serviceMonitorName = ''controller-manager-metrics-monitor''"
definition appName :: string where "appName = ''hyperfleet-operator''"
definition metricsServiceName :: string where
  "metricsServiceName = ''hyperfleet-operator-controller-manager-metrics-service''"
definition controlPlane :: string where "controlPlane = ''controller-manager''"
definition smGroup :: string where "smGroup = ''monitoring.coreos.com''"
definition smVersion :: string where "smVersion = ''v1''"
definition smKind :: string where "smKind = ''ServiceMonitor''"

record ScrapeConfig =
  scSecure :: bool
  scServingCertificateConfigured :: bool
  scTLSCASecretName :: string
  scTLSCASecretKey :: string
  scServerName :: string
  scAuthorizationSecretName :: string
  scAuthorizationSecretKey :: string

text \<open>What the bootstrapper reads of the metrics Service, and an unstructured object.\<close>

record service_id =
  siName :: string
  siUID :: string

record unstructured =
  uGVK :: "string \<times> string \<times> string"
  uName :: string
  uNamespace :: string
  uLabels :: "(string \<times> string) list"
  uOwners :: "(string \<times> string \<times> string \<times> string) list"  \<comment> \<open>APIVersion, Kind, Name, UID\<close>
  uSpec :: json

subsection \<open>Validation\<close>

definition required_fields :: "ScrapeConfig \<Rightarrow> (string \<times> string) list" where
  "required_fields c =
     [(''tls ca secret name'', scTLSCASecretName c), (''tls ca secret key'', scTLSCASecretKey c),
      (''tls server name'', scServerName c),
      (''authorization secret name'', scAuthorizationSecretName c),
      (''authorization secret key'', scAuthorizationSecretKey c)]"

definition Validate :: "ScrapeConfig \<Rightarrow> error option" where
  "Validate c =
     (if \<not> scSecure c then None
      else case find (\<lambda>(_, value). value = []) (required_fields c) of
          Some (name, _) \<Rightarrow> Some (Errorf ''secure metrics servicemonitor requires %s'' [name])
        | None \<Rightarrow>
            if \<not> scServingCertificateConfigured c
            then Some (Errorf ''secure metrics servicemonitor requires --metrics-cert-path'' [])
            else None)"

subsection \<open>The object\<close>

definition credential_json :: "string \<Rightarrow> string \<Rightarrow> json" where
  "credential_json name key = JObj [(''name'', JStr name), (''key'', JStr key)]"

definition endpoint_members :: "ScrapeConfig \<Rightarrow> (string \<times> json) list" where
  "endpoint_members c =
     [(''path'', JStr ''/metrics''), (''port'', JStr ''metrics''),
      (''scheme'', JStr (if scSecure c then ''https'' else ''http'')), (''interval'', JStr ''30s'')] @
     (if scSecure c then
        [(''tlsConfig'', JObj [(''serverName'', JStr (scServerName c)),
            (''ca'', JObj [(''secret'', credential_json (scTLSCASecretName c) (scTLSCASecretKey c))])]),
         (''authorization'', JObj [(''type'', JStr ''Bearer''),
            (''credentials'', credential_json (scAuthorizationSecretName c) (scAuthorizationSecretKey c))])]
      else [])"

definition buildServiceMonitor :: "string \<Rightarrow> service_id \<Rightarrow> ScrapeConfig \<Rightarrow> unstructured" where
  "buildServiceMonitor namespace owner c = \<lparr>
     uGVK = (smGroup, smVersion, smKind), uName = serviceMonitorName, uNamespace = namespace,
     uLabels = [(''control-plane'', controlPlane), (''app.kubernetes.io/name'', appName),
                (''app.kubernetes.io/managed-by'', appName)],
     uOwners = [(''v1'', ''Service'', siName owner, siUID owner)],
     uSpec = JObj
       [(''selector'', JObj [(''matchLabels'', JObj
           [(''control-plane'', JStr controlPlane), (''app.kubernetes.io/name'', JStr appName)])]),
        (''endpoints'', JArr [JObj (endpoint_members c)])]\<rparr>"

subsection \<open>Availability\<close>

text \<open>The kinds of a resource list; no list is \<open>None\<close>.\<close>

definition hasServiceMonitorKind :: "string list option \<Rightarrow> bool" where
  "hasServiceMonitorKind kinds = (case kinds of None \<Rightarrow> False | Some ks \<Rightarrow> list_ex (\<lambda>k. k = smKind) ks)"

record 'w sm_env =
  smDiscoveryClient :: "error option"
  smServerResources :: "string \<Rightarrow> 'w \<Rightarrow> string list option result \<times> 'w"
  smNewClient :: "error option"
  smGetService :: "string \<Rightarrow> string \<Rightarrow> 'w \<Rightarrow> service_id result \<times> 'w"
  smApply :: "string \<Rightarrow> unstructured \<Rightarrow> 'w \<Rightarrow> error option \<times> 'w"  \<comment> \<open>first the field manager\<close>
  smAvailabilitySeam :: "('w \<Rightarrow> bool result \<times> 'w) option"

definition serviceMonitorAvailable :: "'w sm_env \<Rightarrow> 'w \<Rightarrow> bool result \<times> 'w" where
  "serviceMonitorAvailable env w =
     (case smDiscoveryClient env of
        Some e \<Rightarrow> (Inl (Wrapf ''create discovery client: %w'' [] e), w)
      | None \<Rightarrow>
          let groupVersion = smGroup @ ''/'' @ smVersion in
          (case smServerResources env groupVersion w of
             (Inl e, w) \<Rightarrow> (if e = NotFound then Inr False
                else Inl (Wrapf ''list server resources for %s: %w'' [groupVersion] e), w)
           | (Inr kinds, w) \<Rightarrow> (Inr (hasServiceMonitorKind kinds), w)))"

subsection \<open>The runnable\<close>

definition NeedLeaderElection :: bool where "NeedLeaderElection = True"

text \<open>The result is the error returned, the objects applied and the world.\<close>

definition Start :: "'w sm_env \<Rightarrow> string \<Rightarrow> ScrapeConfig \<Rightarrow> 'w \<Rightarrow> error option \<times> unstructured list \<times> 'w" where
  "Start env namespace c w =
     (case (case smAvailabilitySeam env of None \<Rightarrow> serviceMonitorAvailable env w | Some f \<Rightarrow> f w) of
        (Inl e, w) \<Rightarrow> (None, [], w)
      | (Inr False, w) \<Rightarrow> (None, [], w)
      | (Inr True, w) \<Rightarrow>
          (case smNewClient env of
             Some e \<Rightarrow> (None, [], w)
           | None \<Rightarrow>
               (case smGetService env namespace metricsServiceName w of
                  (Inl e, w) \<Rightarrow> (None, [], w)
                | (Inr svc, w) \<Rightarrow>
                    let sm = buildServiceMonitor namespace svc c in
                    (case smApply env appName sm w of
                       (Some e, w) \<Rightarrow> (None, [sm], w)
                     | (None, w) \<Rightarrow> (None, [sm], w)))))"

subsection \<open>Properties\<close>

lemma Validate_iff:
  "Validate c = None \<longleftrightarrow> scSecure c \<longrightarrow> scServingCertificateConfigured c \<and> list_all (\<lambda>(_, v). v \<noteq> []) (required_fields c)"
proof -
  have "find (\<lambda>(_, value). value = []) (required_fields c) = None \<longleftrightarrow> list_all (\<lambda>(_, v). v \<noteq> []) (required_fields c)"
    by (auto simp: find_None_iff list_all_iff)
  then show ?thesis by (auto simp: Validate_def split: option.splits prod.splits)
qed

text \<open>The endpoint of a spec.\<close>

definition sm_endpoint :: "unstructured \<Rightarrow> json" where
  "sm_endpoint u = (case json_at [''endpoints''] (uSpec u) of Some (JArr [e]) \<Rightarrow> e | _ \<Rightarrow> JObj [])"

text \<open>
  C38: A validated scrape configuration yields an endpoint that is either plain HTTP without any
  credential, or HTTPS with the configured server name, CA reference and bearer credential, none of them
  empty; in no case does it skip the verification of the certificate.  The selector asks for exactly the two labels of
  the metrics Service, which the object itself carries too.
\<close>

theorem scrape_config_secure:
  assumes "Validate c = None"
  shows "(let e = sm_endpoint (buildServiceMonitor ns owner c) in
    json_at [''scheme''] e = Some (JStr (if scSecure c then ''https'' else ''http'')) \<and>
    json_at [''tlsConfig'', ''insecureSkipVerify''] e = None \<and>
    (json_at [''authorization''] e \<noteq> None \<longleftrightarrow> scSecure c) \<and> (json_at [''tlsConfig''] e \<noteq> None \<longleftrightarrow> scSecure c) \<and>
    (if scSecure c then json_at [''authorization'', ''type''] e = Some (JStr ''Bearer'') \<and>
       list_all (\<lambda>(path, v). json_at path e = Some (JStr v) \<and> v \<noteq> [])
        [([''tlsConfig'', ''serverName''], scServerName c), ([''tlsConfig'', ''ca'', ''secret'', ''name''], scTLSCASecretName c),
         ([''tlsConfig'', ''ca'', ''secret'', ''key''], scTLSCASecretKey c),
         ([''authorization'', ''credentials'', ''name''], scAuthorizationSecretName c),
         ([''authorization'', ''credentials'', ''key''], scAuthorizationSecretKey c)] else True)) \<and>
    (let labels = [(''control-plane'', controlPlane), (''app.kubernetes.io/name'', appName)] in
     json_at [''selector'', ''matchLabels''] (uSpec (buildServiceMonitor ns owner c)) = Some (JObj (map (\<lambda>(k, v). (k, JStr v)) labels)) \<and>
     set labels \<subseteq> set (uLabels (buildServiceMonitor ns owner c)))"
  using assms
  by (simp add: Validate_iff required_fields_def sm_endpoint_def buildServiceMonitor_def endpoint_members_def
      credential_json_def)

definition example_scrape :: ScrapeConfig where
  "example_scrape = \<lparr>scSecure = True, scServingCertificateConfigured = True, scTLSCASecretName = ''ca'', scTLSCASecretKey = ''k'',
     scServerName = ''s'', scAuthorizationSecretName = ''a'', scAuthorizationSecretKey = ''t''\<rparr>"

theorem scrape_config_secure_witness:
  "Validate example_scrape = None \<and>
   json_at [''scheme''] (sm_endpoint (buildServiceMonitor ''n'' \<lparr>siName = ''s'', siUID = ''u''\<rparr> example_scrape)) = Some (JStr ''https'')"
proof -
  have v: "Validate example_scrape = None" by (simp add: Validate_iff required_fields_def example_scrape_def)
  from scrape_config_secure [OF v, of "''n''" "\<lparr>siName = ''s'', siUID = ''u''\<rparr>"] v show ?thesis
    by (simp add: Let_def example_scrape_def)
qed

text \<open>
  C39: The bootstrap never fails the manager and applies at most one object: one exactly if the API
  server advertises the ServiceMonitor kind, a client can be built and the metrics Service can be
  read; it lives in the operator's namespace and is owned by that Service.  A cluster without the
  API is told from one whose discovery fails, and in both nothing is applied.
\<close>

theorem bootstrap_best_effort:
  assumes "smAvailabilitySeam env = None" "Start env ns c w = (err, objs, w')"
  shows "err = None \<and>
    (case serviceMonitorAvailable env w of (available, w1) \<Rightarrow>
       objs = (case smGetService env ns metricsServiceName w1 of
          (Inr svc, _) \<Rightarrow> if available = Inr True \<and> smNewClient env = None then [buildServiceMonitor ns svc c] else []
        | (Inl _, _) \<Rightarrow> [])) \<and>
    list_all (\<lambda>u. uNamespace u = ns \<and> map (\<lambda>(_, k, _, _). k) (uOwners u) = [''Service'']) objs"
proof -
  obtain av w1 where a: "serviceMonitorAvailable env w = (av, w1)" by fastforce
  obtain sv w2 where s: "smGetService env ns metricsServiceName w1 = (sv, w2)" by fastforce
  show ?thesis
  proof (cases "av = Inr True \<and> smNewClient env = None")
    case True
    show ?thesis
    proof (cases sv)
      case (Inr svc)
      obtain e w3 where "smApply env appName (buildServiceMonitor ns svc c) w2 = (e, w3)" by fastforce
      with assms a s True Inr show ?thesis
        by (cases e) (auto simp: Start_def Let_def buildServiceMonitor_def)
    qed (use assms a s True in \<open>simp add: Start_def\<close>)
  next
    case False
    with assms a s show ?thesis
      by (auto simp: Start_def split: sum.splits bool.splits option.splits)
  qed
qed

definition example_sm_env :: "unit sm_env" where
  "example_sm_env = \<lparr>smDiscoveryClient = None, smServerResources = (\<lambda>_ w. (Inr (Some [''PodMonitor'', ''ServiceMonitor'']), w)),
     smNewClient = None, smGetService = (\<lambda>_ n w. (Inr \<lparr>siName = n, siUID = ''u''\<rparr>, w)), smApply = (\<lambda>_ _ w. (Some NotFound, w)),
     smAvailabilitySeam = None\<rparr>"

theorem bootstrap_best_effort_witness:
  "\<exists>u w'. Start example_sm_env ''ns'' example_scrape () = (None, [u], w') \<and> uNamespace u = ''ns''"
proof -
  obtain err objs w' where s: "Start example_sm_env ''ns'' example_scrape () = (err, objs, w')" by (metis surj_pair)
  have "smAvailabilitySeam example_sm_env = None" by (simp add: example_sm_env_def)
  from bootstrap_best_effort [OF this s] have "err = None" "objs = [buildServiceMonitor ''ns'' \<lparr>siName = metricsServiceName, siUID = ''u''\<rparr> example_scrape]"
    by (simp_all add: serviceMonitorAvailable_def example_sm_env_def Let_def hasServiceMonitorKind_def smKind_def)
  with s show ?thesis by (simp add: buildServiceMonitor_def)
qed

end
