(* ===== verification/Go_Net.thy ===== *)
theory Go_Net
  imports Prelude
begin

section \<open>Go's packages net and net/netip\<close>

text \<open>
  The parts of the standard library that decide which addresses the OIDC discovery client may
  dial: textual addresses (\<^verbatim>\<open>netip.ParseAddr\<close>, \<^verbatim>\<open>net.SplitHostPort\<close>, \<^verbatim>\<open>net.ParseCIDR\<close>),
  address slices (\<^verbatim>\<open>net.IP\<close>, four or sixteen bytes), masks and networks.  A \<^verbatim>\<open>nil\<close> slice
  is the empty list, a parse error is \<^const>\<open>None\<close>.  The lemmas relate the byte-wise masking of
  \<^verbatim>\<open>IPNet.Contains\<close> to the comparison of the first bits of two addresses.
\<close>

subsection \<open>Parsing addresses\<close>

datatype netip_Addr =
    Addr4 "byte list"
  | Addr16 "byte list" string  \<comment> \<open>sixteen bytes and a zone\<close>

text \<open>The loop of \<^verbatim>\<open>parseIPv4Fields\<close>: the preceding character, the value and the number of
  digits of the current field, and the fields already read.\<close>

fun parseIPv4Fields :: "string \<Rightarrow> char option \<Rightarrow> nat \<Rightarrow> nat \<Rightarrow> byte list \<Rightarrow> byte list option" where
  "parseIPv4Fields [] prev val digLen fields =
     (if length fields < 3 then None else Some (fields @ [word_of_nat val]))"
| "parseIPv4Fields (c # cs) prev val digLen fields =
     (if is_digit c then
        (if digLen = 1 \<and> val = 0 then None
         else let val' = val * 10 + (of_char c - 48)
              in if val' > 255 then None else parseIPv4Fields cs (Some c) val' (digLen + 1) fields)
      else if c = CHR ''.'' then
        (if prev = None \<or> cs = [] \<or> prev = Some (CHR ''.'') then None
         else if length fields = 3 then None
         else parseIPv4Fields cs (Some c) 0 0 (fields @ [word_of_nat val]))
      else None)"

definition parseIPv4 :: "string \<Rightarrow> netip_Addr option" where
  "parseIPv4 s = map_option Addr4 (parseIPv4Fields s None 0 0 [])"

definition hex_value :: "char \<Rightarrow> nat option" where
  "hex_value c = (let n = of_char c :: nat in
     if 48 \<le> n \<and> n \<le> 57 then Some (n - 48)
     else if 97 \<le> n \<and> n \<le> 102 then Some (n - 97 + 10)
     else if 65 \<le> n \<and> n \<le> 70 then Some (n - 65 + 10)
     else None)"

text \<open>One group of hexadecimal digits: how many there are, their value, and what follows.\<close>

fun parse_hex_group :: "string \<Rightarrow> nat \<Rightarrow> nat \<Rightarrow> (nat \<times> nat \<times> string) option" where
  "parse_hex_group [] off acc = Some (off, acc, [])"
| "parse_hex_group (c # cs) off acc =
     (case hex_value c of
        None \<Rightarrow> Some (off, acc, c # cs)
      | Some v \<Rightarrow>
          if off > 3 then None
          else if acc * 16 + v > 65535 then None
          else parse_hex_group cs (off + 1) (acc * 16 + v))"

text \<open>
  One round of the loop of \<^verbatim>\<open>parseIPv6\<close> over the rest of the text, the bytes read so far
  (their number is the code's \<^verbatim>\<open>i\<close>) and the position of the ellipsis: it fails, breaks out of
  the loop, or goes on.
\<close>

datatype v6_round =
    Fail
  | Break string "byte list" "nat option"
  | Continue string "byte list" "nat option"

definition parseIPv6_round :: "string \<Rightarrow> byte list \<Rightarrow> nat option \<Rightarrow> v6_round" where
  "parseIPv6_round s ip ellipsis =
     (case parse_hex_group s 0 0 of
        None \<Rightarrow> Fail
      | Some (off, acc, rest) \<Rightarrow>
          if off = 0 then Fail
          else if rest \<noteq> [] \<and> hd rest = CHR ''.'' then
            (if ellipsis = None \<and> length ip \<noteq> 12 then Fail
             else if length ip + 4 > 16 then Fail
             else case parseIPv4Fields s None 0 0 [] of
                 None \<Rightarrow> Fail
               | Some fields \<Rightarrow> Break [] (ip @ fields) ellipsis)
          else let ip' = ip @ [word_of_nat (acc div 256), word_of_nat acc] in
            case rest of
              [] \<Rightarrow> Break [] ip' ellipsis
            | c # cs \<Rightarrow>
                if c \<noteq> CHR '':'' then Fail
                else if cs = [] then Fail
                else if hd cs = CHR '':'' then
                  (if ellipsis \<noteq> None then Fail
                   else if tl cs = [] then Break [] ip' (Some (length ip'))
                   else Continue (tl cs) ip' (Some (length ip')))
                else Continue cs ip' ellipsis)"

lemma parseIPv6_round_grows:
  "parseIPv6_round s ip e = Continue s' ip' e' \<Longrightarrow> length ip' = length ip + 2"
  by (auto simp: parseIPv6_round_def Let_def split: option.splits if_splits list.splits)

function parseIPv6_loop ::
  "string \<Rightarrow> byte list \<Rightarrow> nat option \<Rightarrow> (string \<times> byte list \<times> nat option) option" where
  "parseIPv6_loop s ip ellipsis =
     (if 16 \<le> length ip then Some (s, ip, ellipsis)
      else case parseIPv6_round s ip ellipsis of
        Fail \<Rightarrow> None
      | Break s' ip' e' \<Rightarrow> Some (s', ip', e')
      | Continue s' ip' e' \<Rightarrow> parseIPv6_loop s' ip' e')"
  by pat_completeness auto
termination
  by (relation "measure (\<lambda>(s, ip, e). 16 - length ip)") (auto dest: parseIPv6_round_grows)

declare parseIPv6_loop.simps [simp del]

definition parseIPv6_groups :: "string \<Rightarrow> byte list option" where
  "parseIPv6_groups s =
     (let lead = (2 \<le> length s \<and> s ! 0 = CHR '':'' \<and> s ! 1 = CHR '':'');
          body = (if lead then drop 2 s else s)
      in if lead \<and> body = [] then Some (replicate 16 0)
         else case parseIPv6_loop body [] (if lead then Some 0 else None) of
             None \<Rightarrow> None
           | Some (rest, ip, ellipsis) \<Rightarrow>
               if rest \<noteq> [] then None
               else if length ip < 16 then
                 (case ellipsis of
                    None \<Rightarrow> None
                  | Some e \<Rightarrow> Some (take e ip @ replicate (16 - length ip) 0 @ drop e ip))
               else if ellipsis \<noteq> None then None else Some ip)"

definition parseIPv6 :: "string \<Rightarrow> netip_Addr option" where
  "parseIPv6 s =
     (case Cut s (CHR ''%'') of
        None \<Rightarrow> map_option (\<lambda>b. Addr16 b []) (parseIPv6_groups s)
      | Some (addr, zone) \<Rightarrow>
          if zone = [] then None else map_option (\<lambda>b. Addr16 b zone) (parseIPv6_groups addr))"

definition ParseAddr :: "string \<Rightarrow> netip_Addr option" where
  "ParseAddr s =
     (case find (\<lambda>c. c \<in> {CHR ''.'', CHR '':'', CHR ''%''}) s of
        None \<Rightarrow> None
      | Some c \<Rightarrow> if c = CHR ''.'' then parseIPv4 s
                  else if c = CHR '':'' then parseIPv6 s else None)"

definition index_byte :: "string \<Rightarrow> char \<Rightarrow> nat option" where
  "index_byte s c = (if c \<in> set s then Some (length (takeWhile (\<lambda>x. x \<noteq> c) s)) else None)"

definition last_index_byte :: "string \<Rightarrow> char \<Rightarrow> nat option" where
  "last_index_byte s c = map_option (\<lambda>k. length s - 1 - k) (index_byte (rev s) c)"

definition SplitHostPort :: "string \<Rightarrow> (string \<times> string) option" where
  "SplitHostPort hostport =
     (case last_index_byte hostport (CHR '':'') of
        None \<Rightarrow> None
      | Some i \<Rightarrow>
          (case (if hd hostport = CHR ''['' then
                   (case index_byte hostport (CHR '']'') of
                      None \<Rightarrow> None
                    | Some e \<Rightarrow> if e + 1 = i then Some (take (e - 1) (drop 1 hostport), 1, e + 1) else None)
                 else let host = take i hostport in
                   if CHR '':'' \<in> set host then None else Some (host, 0, 0)) of
             None \<Rightarrow> None
           | Some (host, j, k) \<Rightarrow>
               if CHR ''['' \<in> set (drop j hostport) then None
               else if CHR '']'' \<in> set (drop k hostport) then None
               else Some (host, drop (i + 1) hostport)))"

subsection \<open>Address slices\<close>

definition Is4In6 :: "netip_Addr \<Rightarrow> bool" where
  "Is4In6 a = (case a of Addr4 _ \<Rightarrow> False
     | Addr16 b _ \<Rightarrow> take 10 b = replicate 10 0 \<and> b ! 10 = 255 \<and> b ! 11 = 255)"

definition AsSlice :: "netip_Addr \<Rightarrow> byte list" where
  "AsSlice a = (case a of Addr4 b \<Rightarrow> b | Addr16 b _ \<Rightarrow> b)"

definition Zone :: "netip_Addr \<Rightarrow> string" where
  "Zone a = (case a of Addr4 _ \<Rightarrow> [] | Addr16 _ z \<Rightarrow> z)"

definition v4InV6Prefix :: "byte list" where
  "v4InV6Prefix = replicate 10 0 @ [255, 255]"

definition To4 :: "byte list \<Rightarrow> byte list option" where
  "To4 ip = (if length ip = 4 then Some ip
     else if length ip = 16 \<and> take 12 ip = v4InV6Prefix then Some (drop 12 ip) else None)"

definition To16 :: "byte list \<Rightarrow> byte list option" where
  "To16 ip = (if length ip = 4 then Some (v4InV6Prefix @ ip)
     else if length ip = 16 then Some ip else None)"

text \<open>\<^verbatim>\<open>IP.Equal\<close> regards an IPv4 address and its sixteen-byte form as equal.\<close>

definition IP_Equal :: "byte list \<Rightarrow> byte list \<Rightarrow> bool" where
  "IP_Equal a b = (if length a = length b then a = b
     else if length a = 4 \<and> length b = 16 then take 12 b = v4InV6Prefix \<and> a = drop 12 b
     else if length a = 16 \<and> length b = 4 then take 12 a = v4InV6Prefix \<and> drop 12 a = b
     else False)"

definition IsUnspecified :: "byte list \<Rightarrow> bool" where
  "IsUnspecified ip = (IP_Equal ip (v4InV6Prefix @ [0, 0, 0, 0]) \<or> IP_Equal ip (replicate 16 0))"

definition IsLoopback :: "byte list \<Rightarrow> bool" where
  "IsLoopback ip = (case To4 ip of Some p \<Rightarrow> p ! 0 = 127
     | None \<Rightarrow> IP_Equal ip (replicate 15 0 @ [1]))"

definition IsPrivate :: "byte list \<Rightarrow> bool" where
  "IsPrivate ip = (case To4 ip of
       Some p \<Rightarrow> p ! 0 = 10 \<or> (p ! 0 = 172 \<and> p ! 1 AND 240 = 16) \<or> (p ! 0 = 192 \<and> p ! 1 = 168)
     | None \<Rightarrow> length ip = 16 \<and> ip ! 0 AND 254 = 252)"

definition IsMulticast :: "byte list \<Rightarrow> bool" where
  "IsMulticast ip = (case To4 ip of Some p \<Rightarrow> p ! 0 AND 240 = 224
     | None \<Rightarrow> length ip = 16 \<and> ip ! 0 = 255)"

definition IsLinkLocalMulticast :: "byte list \<Rightarrow> bool" where
  "IsLinkLocalMulticast ip = (case To4 ip of
       Some p \<Rightarrow> p ! 0 = 224 \<and> p ! 1 = 0 \<and> p ! 2 = 0
     | None \<Rightarrow> length ip = 16 \<and> ip ! 0 = 255 \<and> ip ! 1 AND 15 = 2)"

definition IsLinkLocalUnicast :: "byte list \<Rightarrow> bool" where
  "IsLinkLocalUnicast ip = (case To4 ip of
       Some p \<Rightarrow> p ! 0 = 169 \<and> p ! 1 = 254
     | None \<Rightarrow> length ip = 16 \<and> ip ! 0 = 254 \<and> ip ! 1 AND 192 = 128)"

subsection \<open>Masks and networks\<close>

record IPNet =
  netIP :: "byte list"
  netMask :: "byte list"

fun mask_bytes :: "nat \<Rightarrow> nat \<Rightarrow> byte list" where
  "mask_bytes 0 n = []"
| "mask_bytes (Suc l) n =
     (if 8 \<le> n then 255 # mask_bytes l (n - 8) else NOT (drop_bit n 255) # mask_bytes l 0)"

definition CIDRMask :: "nat \<Rightarrow> nat \<Rightarrow> byte list" where
  "CIDRMask ones bits = mask_bytes (bits div 8) ones"

text \<open>The inner loop of \<^verbatim>\<open>simpleMaskLength\<close>: shift the byte left while its top bit is set.  Eight
  rounds are enough, the byte is then zero (\<open>leading_ones_done\<close>).\<close>

fun leading_ones :: "nat \<Rightarrow> byte \<Rightarrow> nat \<Rightarrow> nat \<times> byte" where
  "leading_ones 0 v n = (n, v)"
| "leading_ones (Suc fuel) v n =
     (if v AND 128 \<noteq> 0 then leading_ones fuel (push_bit 1 v) (n + 1) else (n, v))"

fun simpleMaskLength :: "byte list \<Rightarrow> nat option" where
  "simpleMaskLength [] = Some 0"
| "simpleMaskLength (v # vs) =
     (if v = 255 then map_option (\<lambda>k. 8 + k) (simpleMaskLength vs)
      else let (n, v') = leading_ones 8 v 0 in
        if v' \<noteq> 0 then None
        else if \<exists>w \<in> set vs. w \<noteq> 0 then None
        else Some n)"

definition Size :: "byte list \<Rightarrow> nat \<times> nat" where
  "Size m = (case simpleMaskLength m of None \<Rightarrow> (0, 0) | Some ones \<Rightarrow> (ones, length m * 8))"

fun dtoi :: "string \<Rightarrow> nat \<Rightarrow> nat option" where
  "dtoi [] n = Some n"
| "dtoi (c # cs) n = (if is_digit c then
     (let n' = n * 10 + (of_char c - 48) in if 16777215 \<le> n' then None else dtoi cs n') else None)"

definition mask_slice :: "byte list \<Rightarrow> byte list \<Rightarrow> byte list" where
  "mask_slice ip m = map2 (AND) ip m"

text \<open>\<^verbatim>\<open>IP.Mask\<close> for the sixteen-byte form that \<^verbatim>\<open>ParseCIDR\<close> passes.\<close>

definition IP_Mask :: "byte list \<Rightarrow> byte list \<Rightarrow> byte list" where
  "IP_Mask ip m =
     (let m' = (if length m = 16 \<and> length ip = 4 \<and> take 12 m = replicate 12 255 then drop 12 m else m);
          ip' = (if length m' = 4 \<and> length ip = 16 \<and> take 12 ip = v4InV6Prefix then drop 12 ip else ip)
      in if length ip' \<noteq> length m' then [] else mask_slice ip' m')"

definition ParseCIDR :: "string \<Rightarrow> IPNet option" where
  "ParseCIDR s =
     (case Cut s (CHR ''/'') of
        None \<Rightarrow> None
      | Some (addr, msk) \<Rightarrow>
          (case ParseAddr addr of
             None \<Rightarrow> None
           | Some a \<Rightarrow>
               if Zone a \<noteq> [] then None
               else if msk = [] then None
               else let bits = 8 * length (AsSlice a) in
                 (case dtoi msk 0 of
                    None \<Rightarrow> None
                  | Some n \<Rightarrow>
                      if bits < n then None
                      else let m = CIDRMask n bits;
                               ip16 = (if length (AsSlice a) = 4 then v4InV6Prefix @ AsSlice a else AsSlice a)
                           in Some \<lparr>netIP = IP_Mask ip16 m, netMask = m\<rparr>)))"

definition networkNumberAndMask :: "IPNet \<Rightarrow> (byte list \<times> byte list) option" where
  "networkNumberAndMask n =
     (case (case To4 (netIP n) of Some p \<Rightarrow> Some p
            | None \<Rightarrow> if length (netIP n) = 16 then Some (netIP n) else None) of
        None \<Rightarrow> None
      | Some ip \<Rightarrow>
          if length (netMask n) = 4 then (if length ip = 4 then Some (ip, netMask n) else None)
          else if length (netMask n) = 16 then
            Some (ip, if length ip = 4 then drop 12 (netMask n) else netMask n)
          else None)"

definition IPNet_Contains :: "IPNet \<Rightarrow> byte list \<Rightarrow> bool" where
  "IPNet_Contains n ip =
     (let ip' = (case To4 ip of Some p \<Rightarrow> p | None \<Rightarrow> ip) in
      case networkNumberAndMask n of
        None \<Rightarrow> ip' = []
      | Some (nn, m) \<Rightarrow> length ip' = length nn \<and> mask_slice nn m = mask_slice ip' m)"

subsection \<open>Parsed addresses have four or sixteen bytes\<close>

lemma parseIPv4Fields_length:
  "parseIPv4Fields s prev val d fs = Some b \<Longrightarrow> length fs \<le> 3 \<Longrightarrow> length b = 4"
  by (induction s prev val d fs rule: parseIPv4Fields.induct) (auto simp: Let_def split: if_splits)

definition v6_state :: "byte list \<Rightarrow> nat option \<Rightarrow> bool" where
  "v6_state ip e \<longleftrightarrow> length ip \<le> 16 \<and> (\<forall>k. e = Some k \<longrightarrow> k \<le> length ip)"

lemma parseIPv6_round_state:
  assumes "even (length ip)" and "v6_state ip e" and "length ip < 16"
  shows "parseIPv6_round s ip e = Break s' ip' e' \<Longrightarrow> v6_state ip' e'"
    and "parseIPv6_round s ip e = Continue s' ip' e' \<Longrightarrow> even (length ip') \<and> v6_state ip' e'"
proof -
  from assms have "length ip \<le> 14" by presburger
  with assms(1,2) show "parseIPv6_round s ip e = Break s' ip' e' \<Longrightarrow> v6_state ip' e'"
    and "parseIPv6_round s ip e = Continue s' ip' e' \<Longrightarrow> even (length ip') \<and> v6_state ip' e'"
    by (fastforce simp: parseIPv6_round_def v6_state_def Let_def dest: parseIPv4Fields_length
        split: option.splits if_splits list.splits)+
qed

lemma parseIPv6_loop_state:
  assumes "parseIPv6_loop s ip e = Some (rest, ip', e')" and "even (length ip)" and "v6_state ip e"
  shows "v6_state ip' e'"
  using assms
proof (induction s ip e rule: parseIPv6_loop.induct)
  case (1 s ip e)
  from "1.prems" "1.IH" show ?case
    by (subst (asm) parseIPv6_loop.simps)
       (auto split: if_splits v6_round.splits dest: parseIPv6_round_state)
qed

lemma parseIPv6_groups_length: "parseIPv6_groups s = Some b \<Longrightarrow> length b = 16"
  by (auto simp: parseIPv6_groups_def Let_def v6_state_def split: if_splits option.splits
      dest!: parseIPv6_loop_state)

lemma ParseAddr_length:
  "ParseAddr s = Some a \<Longrightarrow> (case a of Addr4 b \<Rightarrow> length b = 4 | Addr16 b z \<Rightarrow> length b = 16)"
  by (auto split: option.splits if_splits
      simp: ParseAddr_def parseIPv4_def parseIPv6_def parseIPv4Fields_length parseIPv6_groups_length)

subsection \<open>Masks compare the first bits of two addresses\<close>

lemma byte_255: "(255 :: byte) = mask 8"
  by (simp add: mask_eq_exp_minus_1)

lemma byte_eq_iff: "(x :: byte) = y \<longleftrightarrow> (\<forall>i < 8. bit x i = bit y i)"
  by (auto intro: bit_word_eqI)

lemma byte_and_255 [simp]: "(x :: byte) AND 255 = x"
  by (simp add: byte_255 byte_eq_iff bit_simps)

definition byte_bits :: "byte \<Rightarrow> bool list" where
  "byte_bits b = [bit b 7, bit b 6, bit b 5, bit b 4, bit b 3, bit b 2, bit b 1, bit b 0]"

definition addr_bits :: "byte list \<Rightarrow> bool list" where
  "addr_bits ip = concat (map byte_bits ip)"

lemma length_byte_bits [simp]: "length (byte_bits b) = 8"
  by (simp add: byte_bits_def)

lemma length_addr_bits [simp]: "length (addr_bits ip) = 8 * length ip"
  by (induction ip) (simp_all add: addr_bits_def)

lemma byte_eq_bits: "(x :: byte) = y \<longleftrightarrow> byte_bits x = byte_bits y"
proof
  assume "byte_bits x = byte_bits y"
  then have "bit x i = bit y i" if "i < 8" for i
    using that by (auto simp: byte_bits_def less_Suc_eq numeral_eq_Suc)
  then show "x = y" by (simp add: byte_eq_iff)
qed simp

lemma top_mask_bit: "n \<le> 8 \<Longrightarrow> i < 8 \<Longrightarrow> bit (NOT (drop_bit n 255) :: byte) i \<longleftrightarrow> 8 - n \<le> i"
  unfolding byte_255 by (auto simp: bit_simps)

lemma all_less_8: "(\<forall>i < 8. P i) \<longleftrightarrow> P 0 \<and> P 1 \<and> P 2 \<and> P 3 \<and> P 4 \<and> P 5 \<and> P 6 \<and> P (7 :: nat)"
  by (simp add: numeral_eq_Suc All_less_Suc conj_ac)

lemma byte_top_bits:
  assumes "n \<le> 8"
  shows "x AND NOT (drop_bit n 255) = (y :: byte) AND NOT (drop_bit n 255) \<longleftrightarrow>
    take n (byte_bits x) = take n (byte_bits y)" (is "?l = ?r")
proof -
  have "?l \<longleftrightarrow> (\<forall>i < 8. 8 - n \<le> i \<longrightarrow> bit x i = bit y i)"
    unfolding byte_eq_iff using top_mask_bit [OF assms] by (auto simp: bit_and_iff)
  also have "\<dots> \<longleftrightarrow> ?r"
  proof -
    have "n \<in> {0, 1, 2, 3, 4, 5, 6, 7, 8}" using assms by auto
    then show ?thesis
      unfolding all_less_8 by (elim insertE emptyE) (auto simp: byte_bits_def)
  qed
  finally show ?thesis .
qed

lemma byte_and_neg256 [simp]: "(x :: byte) AND - 256 = 0"
proof -
  have "(- 256 :: byte) = 0" by simp
  then show ?thesis by (simp only: and_zero_eq)
qed

lemma mask_bytes_0: "map2 (AND) xs (mask_bytes (length xs) 0) = replicate (length xs) 0"
  by (induction xs) auto

lemma length_mask_bytes [simp]: "length (mask_bytes l n) = l"
  by (induction l n rule: mask_bytes.induct) auto

text \<open>
  Two addresses agree under a CIDR mask exactly when their first bits agree.
\<close>

lemma mask_slice_iff_prefix:
  "length xs = length ys \<Longrightarrow>
   mask_slice xs (mask_bytes (length ys) n) = mask_slice ys (mask_bytes (length ys) n) \<longleftrightarrow>
   take n (addr_bits xs) = take n (addr_bits ys)"
proof (induction xs ys arbitrary: n rule: list_induct2)
  case Nil
  then show ?case by simp
next
  case (Cons x xs y ys)
  show ?case
  proof (cases "8 \<le> n")
    case True
    with Cons show ?thesis
      by (auto simp: mask_slice_def addr_bits_def byte_eq_bits [of x y] append_eq_append_conv)
  next
    case False
    moreover have "map2 (AND) xs (mask_bytes (length ys) 0) = map2 (AND) ys (mask_bytes (length ys) 0)"
      using Cons.hyps mask_bytes_0 [of xs] mask_bytes_0 [of ys] by simp
    ultimately show ?thesis
      using byte_top_bits [of n x y] by (simp add: mask_slice_def addr_bits_def)
  qed
qed

lemma and_128_iff: "v AND 128 \<noteq> 0 \<longleftrightarrow> bit (v :: byte) 7"
proof -
  have "(128 :: byte) = push_bit 7 1" by (simp add: push_bit_eq_mult)
  then show ?thesis by (simp only: bit_iff_and_push_bit_not_eq_0)
qed

lemma leading_ones_top:
  "f \<le> 8 \<Longrightarrow> \<forall>i < 8 - f. \<not> bit v i \<Longrightarrow> \<not> bit (snd (leading_ones f v n)) 7"
proof (induction f v n rule: leading_ones.induct)
  case (1 v n)
  then show ?case by simp
next
  case (2 f v n)
  show ?case
  proof (cases "v AND 128 \<noteq> 0")
    case True
    have "\<forall>i < 8 - f. \<not> bit (push_bit 1 v) i"
      using "2.prems" unfolding bit_push_bit_iff by auto
    with 2 True show ?thesis by (simp del: push_bit_numeral)
  next
    case False
    then show ?thesis using and_128_iff [of v] by simp
  qed
qed

text \<open>Eight rounds are enough: the byte that is left has its top bit clear.\<close>

lemma leading_ones_done: "\<not> bit (snd (leading_ones 8 v n)) 7"
  by (rule leading_ones_top) auto

lemma leading_ones_numeral:
  "leading_ones (numeral k) v n =
     (if v AND 128 \<noteq> 0 then leading_ones (pred_numeral k) (push_bit 1 v) (n + 1) else (n, v))"
  by (simp add: numeral_eq_Suc)

lemma leading_ones_mask:
  assumes "n < 8"
  shows "leading_ones 8 (NOT (drop_bit n 255)) 0 = (n, 0)"
proof -
  from assms have "n \<in> {0, 1, 2, 3, 4, 5, 6, 7}" by auto
  then show ?thesis by (elim insertE emptyE) (simp_all add: leading_ones_numeral)
qed

lemma mask_bytes_zero_set: "w \<in> set (mask_bytes l 0) \<Longrightarrow> w = 0"
  by (induction l) auto

lemma top_mask_not_255: "n < 8 \<Longrightarrow> NOT (drop_bit n 255) \<noteq> (255 :: byte)"
proof -
  assume "n < 8"
  then have "\<not> bit (NOT (drop_bit n 255) :: byte) 0" using top_mask_bit [of n 0] by simp
  moreover have "bit (255 :: byte) 0" by simp
  ultimately show ?thesis by metis
qed

lemma simpleMaskLength_mask: "n \<le> 8 * l \<Longrightarrow> simpleMaskLength (mask_bytes l n) = Some n"
proof (induction l arbitrary: n)
  case (Suc l)
  show ?case
  proof (cases "8 \<le> n")
    case True
    with Suc show ?thesis by simp
  next
    case False
    with top_mask_not_255 [of n] leading_ones_mask [of n] show ?thesis
      by (auto dest: mask_bytes_zero_set)
  qed
qed simp

text \<open>\<^verbatim>\<open>Mask.Size\<close> recovers the prefix length a mask was made from.\<close>

lemma Size_CIDRMask: "8 dvd bits \<Longrightarrow> ones \<le> bits \<Longrightarrow> Size (CIDRMask ones bits) = (ones, bits)"
  by (auto simp: Size_def CIDRMask_def simpleMaskLength_mask)

subsection \<open>Containment in a network\<close>

lemma To4_length: "To4 ip = Some p \<Longrightarrow> length p = 4"
  by (auto simp: To4_def split: if_splits)

lemma To4_of_4 [simp]: "length ip = 4 \<Longrightarrow> To4 ip = Some ip"
  by (simp add: To4_def)

lemma v4InV6Prefix_length [simp]: "length v4InV6Prefix = 12"
  by (simp add: v4InV6Prefix_def)

lemma take_eq_mono: "take n xs = take n ys \<Longrightarrow> m \<le> n \<Longrightarrow> take m xs = take m ys"
  by (metis min.absorb1 take_take)

lemma addr_bits_append: "addr_bits (xs @ ys) = addr_bits xs @ addr_bits ys"
  by (simp add: addr_bits_def)

lemma addr_bits_inj: "length xs = length ys \<Longrightarrow> addr_bits xs = addr_bits ys \<Longrightarrow> xs = ys"
  by (induction xs ys rule: list_induct2) (auto simp: addr_bits_def byte_eq_bits)

lemma take_addr_bits: "take (8 * k) (addr_bits xs) = addr_bits (take k xs)"
proof (induction xs arbitrary: k)
  case (Cons x xs)
  then show ?case by (cases k) (auto simp: addr_bits_def)
qed (simp add: addr_bits_def)

lemma IPNet_Contains_v4:
  assumes "length (netIP n) = 4" "netMask n = CIDRMask k 32" "To4 ip = Some p"
  shows "IPNet_Contains n ip \<longleftrightarrow> take k (addr_bits p) = take k (addr_bits (netIP n))"
  using assms mask_slice_iff_prefix [of "netIP n" p k] To4_length [of ip p]
  by (auto simp: IPNet_Contains_def networkNumberAndMask_def CIDRMask_def)

lemma IPNet_Contains_v6:
  assumes "length (netIP n) = 16" "netMask n = CIDRMask k 128" "To4 ip = None" "length ip = 16"
    and "To4 (netIP n) \<noteq> None \<Longrightarrow> 96 \<le> k"
  shows "IPNet_Contains n ip \<longleftrightarrow> take k (addr_bits ip) = take k (addr_bits (netIP n))"
proof (cases "To4 (netIP n)")
  case None
  with assms mask_slice_iff_prefix [of "netIP n" ip k] show ?thesis
    by (auto simp: IPNet_Contains_def networkNumberAndMask_def CIDRMask_def)
next
  case (Some p)
  then have pre: "take 12 (netIP n) = v4InV6Prefix"
    using assms(1) by (auto simp: To4_def split: if_splits)
  have "\<not> IPNet_Contains n ip"
    using assms Some To4_length [OF Some]
    by (auto simp: IPNet_Contains_def networkNumberAndMask_def CIDRMask_def)
  moreover have "take k (addr_bits ip) \<noteq> take k (addr_bits (netIP n))"
  proof
    assume "take k (addr_bits ip) = take k (addr_bits (netIP n))"
    then have "take (8 * 12) (addr_bits ip) = take (8 * 12) (addr_bits (netIP n))"
      using assms(5) Some by (auto elim: take_eq_mono)
    then have "take 12 ip = take 12 (netIP n)"
      unfolding take_addr_bits by (rule addr_bits_inj [rotated]) (use assms in simp)
    with pre assms(3,4) show False by (simp add: To4_def)
  qed
  ultimately show ?thesis by simp
qed

subsection \<open>Evaluation of literals\<close>

named_theorems addr_eval \<open>equations that evaluate address and CIDR literals\<close>

lemma replicate_numeral_unfold [addr_eval]: "replicate (numeral k) x = x # replicate (pred_numeral k) x"
  by (simp add: numeral_eq_Suc)

lemma mask_bytes_numeral [addr_eval]:
  "mask_bytes (numeral k) n =
     (if 8 \<le> n then 255 # mask_bytes (pred_numeral k) (n - 8)
      else NOT (drop_bit n 255) # mask_bytes (pred_numeral k) 0)"
  by (simp add: numeral_eq_Suc)

lemma v4InV6Prefix_list [addr_eval]: "v4InV6Prefix = [0, 0, 0, 0, 0, 0, 0, 0, 0, 0, 255, 255]"
  by (simp add: v4InV6Prefix_def replicate_numeral_unfold)

lemmas [addr_eval] =
  ParseCIDR_def Cut_def ParseAddr_def parseIPv4_def parseIPv6_def parseIPv6_groups_def
  parseIPv6_loop.simps parseIPv6_round_def hex_value_def is_digit_def Zone_def AsSlice_def
  CIDRMask_def IP_Mask_def Let_def mask_slice_def

subsection \<open>Dotted addresses and host:port pairs parse back\<close>

lemma parse_octet:
  assumes "n < 256"
  shows "\<exists>p k. is_digit p \<and> parseIPv4Fields (decimal n @ rest) prev 0 0 fs = parseIPv4Fields rest (Some p) n k fs"
proof -
  define q r where "q = n div 10" and "r = n mod 10"
  have n: "n = q * 10 + r" "r < 10" by (auto simp: q_def r_def)
  define q2 r2 where "q2 = q div 10" and "r2 = q mod 10"
  have q: "q = q2 * 10 + r2" "r2 < 10" "q2 < 10" using assms by (auto simp: q2_def r2_def q_def)
  consider "q = 0" | "q2 = 0" "0 < q" | "0 < q2" "0 < q" using q by linarith
  then show ?thesis
  proof cases
    case 1
    then show ?thesis using n
      by (intro exI [of _ "char_of (48 + r)"] exI [of _ "Suc 0"]) (simp add: decimal_small digit_char)
  next
    case 2
    then have "decimal n = [char_of (48 + q), char_of (48 + r)]" "q < 10"
      using n q by (auto simp: decimal_snoc decimal_small)
    with 2 n assms show ?thesis
      by (intro exI [of _ "char_of (48 + r)"] exI [of _ "Suc (Suc 0)"]) (simp add: digit_char Let_def)
  next
    case 3
    have "decimal n = decimal q @ [char_of (48 + r)]" "decimal q = [char_of (48 + q2), char_of (48 + r2)]"
      unfolding n(1) by (rule decimal_snoc) (use 3 n q in \<open>simp_all add: decimal_snoc decimal_small\<close>)
    then have "decimal n = [char_of (48 + q2), char_of (48 + r2), char_of (48 + r)]" by simp
    with 3 n q assms show ?thesis
      by (intro exI [of _ "char_of (48 + r)"] exI [of _ "Suc (Suc (Suc 0))"]) (simp add: digit_char Let_def)
  qed
qed

definition dotted :: "byte \<Rightarrow> byte \<Rightarrow> byte \<Rightarrow> byte \<Rightarrow> string" where
  "dotted a b c d = decimal (unat a) @ ''.'' @ decimal (unat b) @ ''.'' @ decimal (unat c) @ ''.'' @ decimal (unat d)"

lemma unat_byte [simp]: "unat (a :: byte) < 256"
  by (rule order_less_le_trans [OF unsigned_less]) simp

lemma parse_octet_dot:
  "parseIPv4Fields (decimal (unat (a :: byte)) @ CHR ''.'' # rest) prev 0 0 fs =
   (if length fs = 3 \<or> rest = [] then None else parseIPv4Fields rest (Some (CHR ''.'')) 0 0 (fs @ [a]))"
proof -
  obtain p k where "is_digit p" "parseIPv4Fields (decimal (unat a) @ CHR ''.'' # rest) prev 0 0 fs =
      parseIPv4Fields (CHR ''.'' # rest) (Some p) (unat a) k fs"
    using parse_octet [OF unat_byte, of a "CHR ''.'' # rest" prev fs] by blast
  moreover from this have "p \<noteq> CHR ''.''" by (auto simp: is_digit_def)
  moreover have "\<not> is_digit (CHR ''.'')" by (simp add: is_digit_def)
  ultimately show ?thesis by auto
qed

lemma parse_octet_end:
  "length fs = 3 \<Longrightarrow> parseIPv4Fields (decimal (unat (a :: byte))) prev 0 0 fs = Some (fs @ [a])"
  using parse_octet [of "unat a" "[]" prev fs] by auto

lemma find_append_none: "(\<And>x. x \<in> set xs \<Longrightarrow> \<not> P x) \<Longrightarrow> find P (xs @ y # ys) = (if P y then Some y else find P ys)"
  by (induction xs) auto

lemma ParseAddr_dotted: "ParseAddr (dotted a b c d) = Some (Addr4 [a, b, c, d])"
proof -
  have "find (\<lambda>c. c \<in> {CHR ''.'', CHR '':'', CHR ''%''}) (dotted a b c d) = Some (CHR ''.'')"
    unfolding dotted_def append_Cons append_Nil
    by (subst find_append_none) (auto dest!: decimal_digits simp: is_digit_def)
  moreover have "parseIPv4Fields (dotted a b c d) None 0 0 [] = Some [a, b, c, d]"
    using parse_octet_dot by (simp add: dotted_def parse_octet_end)
  ultimately show ?thesis by (simp add: ParseAddr_def parseIPv4_def)
qed

lemma dotted_chars: "x \<in> set (dotted a b c d) \<Longrightarrow> is_digit x \<or> x = CHR ''.''"
  by (auto simp: dotted_def dest: decimal_digits)

lemma SplitHostPort_plain:
  assumes "{CHR '':'', CHR ''['', CHR '']''} \<inter> set host = {}" "{CHR '':'', CHR ''['', CHR '']''} \<inter> set port = {}"
    "host \<noteq> []"
  shows "SplitHostPort (host @ CHR '':'' # port) = Some (host, port)"
proof -
  have "last_index_byte (host @ CHR '':'' # port) (CHR '':'') = Some (length host)"
    using assms takeWhile_neq_append [of "CHR '':''" "rev port" "rev host"]
    by (auto simp: last_index_byte_def index_byte_def)
  moreover have "hd (host @ CHR '':'' # port) \<noteq> CHR ''[''"
    using assms by (cases host) auto
  ultimately show ?thesis
    using assms by (simp add: SplitHostPort_def)
qed

lemma list16: "length xs = 16 \<Longrightarrow> \<exists>a b c d e f g h i j k l m n p q. xs = [a,b,c,d,e,f,g,h,i,j,k,l,m,n,p,q]"
  by (auto simp: length_Suc_conv numeral_eq_Suc)

lemma Is4In6_iff: "length ip = 16 \<Longrightarrow> Is4In6 (Addr16 ip z) \<longleftrightarrow> To4 ip \<noteq> None"
  by (frule list16) (auto simp: Is4In6_def To4_def v4InV6Prefix_list replicate_numeral_unfold)

end
