(* ===== verification/Discovery_Policy.thy ===== *)
theory Discovery_Policy
  imports Go_Net
begin

section \<open>The dial policy of OIDC discovery\<close>

text \<open>
  \<^verbatim>\<open>internal/controller/hyperfleetconfig_rollout.go\<close>, lines 99 to 278: the table of IANA
  special-purpose ranges, the selection of the most specific one, the decision whether an
  address is a forbidden target, and the dialer hook that applies it to a resolved address.
  A panic of the package initialisation (\<^verbatim>\<open>mustCIDR\<close>) is the left side of a result;
  \<open>discovery_table_parses\<close> shows that it never happens.
\<close>

subsection \<open>The table\<close>

record discovery_range =
  drNetwork :: IPNet
  drGloballyReachable :: bool

definition mustCIDR :: "string \<Rightarrow> IPNet result" where
  "mustCIDR s = (case ParseCIDR s of
       None \<Rightarrow> Inl (Errorf ''reserved discovery CIDR %q: %v'' [s])
     | Some n \<Rightarrow> Inr n)"

definition specialPurposeRange :: "string \<Rightarrow> bool \<Rightarrow> discovery_range result" where
  "specialPurposeRange cidr globallyReachable =
     (case mustCIDR cidr of
        Inl e \<Rightarrow> Inl e
      | Inr n \<Rightarrow> Inr \<lparr>drNetwork = n, drGloballyReachable = globallyReachable\<rparr>)"

definition discovery_table :: "discovery_range result list" where
  "discovery_table =
    [specialPurposeRange ''0.0.0.0/8'' False,
     specialPurposeRange ''0.0.0.0/32'' False,
     specialPurposeRange ''10.0.0.0/8'' False,
     specialPurposeRange ''100.64.0.0/10'' False,
     specialPurposeRange ''127.0.0.0/8'' False,
     specialPurposeRange ''169.254.0.0/16'' False,
     specialPurposeRange ''172.16.0.0/12'' False,
     specialPurposeRange ''192.0.0.0/24'' False,
     specialPurposeRange ''192.0.0.0/29'' False,
     specialPurposeRange ''192.0.0.8/32'' False,
     specialPurposeRange ''192.0.0.9/32'' True,
     specialPurposeRange ''192.0.0.10/32'' True,
     specialPurposeRange ''192.0.0.170/32'' False,
     specialPurposeRange ''192.0.0.171/32'' False,
     specialPurposeRange ''192.0.2.0/24'' False,
     specialPurposeRange ''192.31.196.0/24'' True,
     specialPurposeRange ''192.52.193.0/24'' True,
     specialPurposeRange ''192.88.99.0/24'' False,
     specialPurposeRange ''192.88.99.2/32'' False,
     specialPurposeRange ''192.168.0.0/16'' False,
     specialPurposeRange ''192.175.48.0/24'' True,
     specialPurposeRange ''198.18.0.0/15'' False,
     specialPurposeRange ''198.51.100.0/24'' False,
     specialPurposeRange ''203.0.113.0/24'' False,
     specialPurposeRange ''240.0.0.0/4'' False,
     specialPurposeRange ''255.255.255.255/32'' False,
     specialPurposeRange ''::1/128'' False,
     specialPurposeRange ''::/128'' False,
     specialPurposeRange ''::ffff:0:0/96'' False,
     specialPurposeRange ''64:ff9b::/96'' True,
     specialPurposeRange ''64:ff9b:1::/48'' False,
     specialPurposeRange ''100::/64'' False,
     specialPurposeRange ''100:0:0:1::/64'' False,
     specialPurposeRange ''2001::/23'' False,
     specialPurposeRange ''2001::/32'' False,
     specialPurposeRange ''2001:1::1/128'' True,
     specialPurposeRange ''2001:1::2/128'' True,
     specialPurposeRange ''2001:1::3/128'' True,
     specialPurposeRange ''2001:2::/48'' False,
     specialPurposeRange ''2001:3::/32'' True,
     specialPurposeRange ''2001:4:112::/48'' True,
     specialPurposeRange ''2001:10::/28'' False,
     specialPurposeRange ''2001:20::/28'' True,
     specialPurposeRange ''2001:30::/28'' True,
     specialPurposeRange ''2001:db8::/32'' False,
     specialPurposeRange ''2002::/16'' False,
     specialPurposeRange ''2620:4f:8000::/48'' True,
     specialPurposeRange ''3fff::/20'' False,
     specialPurposeRange ''5f00::/16'' False,
     specialPurposeRange ''fc00::/7'' False,
     specialPurposeRange ''fe80::/10'' False]"

definition specialPurposeDiscoveryRanges :: "discovery_range list" where
  "specialPurposeDiscoveryRanges = concat (map (\<lambda>r. case r of Inl _ \<Rightarrow> [] | Inr x \<Rightarrow> [x]) discovery_table)"

definition wellKnownNAT64Prefix :: "IPNet result" where
  "wellKnownNAT64Prefix = mustCIDR ''64:ff9b::/96''"

definition nat64_contains :: "byte list \<Rightarrow> bool" where
  "nat64_contains ip = (case wellKnownNAT64Prefix of Inl _ \<Rightarrow> False | Inr n \<Rightarrow> IPNet_Contains n ip)"

subsection \<open>Longest-prefix selection\<close>

text \<open>One round of the loop: the prefix length of the best record so far (\<open>- 1\<close> before any), its
  value and whether there is one.\<close>

definition range_step ::
  "bool \<Rightarrow> byte list \<Rightarrow> discovery_range \<Rightarrow> int \<times> bool \<times> bool \<Rightarrow> int \<times> bool \<times> bool" where
  "range_step ipv4 ip r st =
     (let (mostSpecificBits, globallyReachable, found) = st;
          (ones, bits) = Size (netMask (drNetwork r))
      in if ipv4 \<noteq> (bits = 32) then st
         else if \<not> IPNet_Contains (drNetwork r) ip then st
         else if int ones \<le> mostSpecificBits then st
         else (int ones, drGloballyReachable r, True))"

definition specialPurposeGloballyReachable :: "byte list \<Rightarrow> bool \<times> bool" where
  "specialPurposeGloballyReachable ip =
     snd (fold (range_step (To4 ip \<noteq> None) ip) specialPurposeDiscoveryRanges (- 1, False, False))"

subsection \<open>The decision\<close>

text \<open>\<^verbatim>\<open>ip.To16()\<close>, with \<^verbatim>\<open>nil\<close> as the empty slice.\<close>

definition To16_slice :: "byte list \<Rightarrow> byte list" where
  "To16_slice ip = (case To16 ip of None \<Rightarrow> [] | Some s \<Rightarrow> s)"

lemma nat64_prefix: "wellKnownNAT64Prefix = Inr \<lparr>netIP = [0, 100, 255, 155, 0, 0, 0, 0, 0, 0, 0, 0, 0, 0, 0, 0],
    netMask = [255, 255, 255, 255, 255, 255, 255, 255, 255, 255, 255, 255, 0, 0, 0, 0]\<rparr>"
  by (simp add: wellKnownNAT64Prefix_def mustCIDR_def addr_eval)

lemma nat64_contains_Nil [simp]: "\<not> nat64_contains []"
  by (simp add: nat64_contains_def nat64_prefix IPNet_Contains_def networkNumberAndMask_def To4_def addr_eval)

function isDisallowedDiscoveryTarget :: "byte list \<Rightarrow> bool" where
  "isDisallowedDiscoveryTarget ip =
     (if To4 ip = None \<and> nat64_contains (To16_slice ip)
      then isDisallowedDiscoveryTarget (drop 12 (To16_slice ip))
      else case specialPurposeGloballyReachable ip of
        (globallyReachable, found) \<Rightarrow>
          if found then \<not> globallyReachable
          else if IsLoopback ip \<or> IsPrivate ip \<or> IsLinkLocalUnicast ip \<or>
                  IsLinkLocalMulticast ip \<or> IsUnspecified ip \<or> IsMulticast ip then True
          else False)"
  by pat_completeness auto
termination
  by (relation "measure length") (auto simp: To16_slice_def To16_def split: if_splits)

declare isDisallowedDiscoveryTarget.simps [simp del]

text \<open>
  The texts of the two refusals: an IPv4-mapped address is printed in its canonical form, while
  a disallowed one is a plain byte slice, whose \<^verbatim>\<open>%s\<close> is the bytes themselves.
\<close>

definition mapped_String :: "netip_Addr \<Rightarrow> string" where
  "mapped_String a = ''::ffff:'' @ strings_Join (map (\<lambda>b. decimal (unat b)) (drop 12 (AsSlice a))) ''.'' @
     (if Zone a = [] then [] else CHR ''%'' # Zone a)"

definition raw_bytes :: "byte list \<Rightarrow> string" where
  "raw_bytes ip = map (\<lambda>b. char_of (unat b)) ip"

definition blockDiscoveryDial :: "string \<Rightarrow> error option" where
  "blockDiscoveryDial address =
     (case SplitHostPort address of
        None \<Rightarrow> Some (Errorf ''parse dial address %q: %w'' [address])
      | Some (host, _) \<Rightarrow>
          (case ParseAddr host of
             None \<Rightarrow> Some (Errorf ''refusing to dial non-IP discovery address %q'' [host])
           | Some addr \<Rightarrow>
               if Is4In6 addr then
                 Some (Errorf ''refusing OIDC discovery dial to IPv4-mapped address %s'' [mapped_String addr])
               else if isDisallowedDiscoveryTarget (AsSlice addr) then
                 Some (Errorf ''refusing OIDC discovery dial to disallowed address %s'' [raw_bytes (AsSlice addr)])
               else None))"

subsection \<open>The table is well formed\<close>

text \<open>No literal of the table panics, and each record is a network of one family.\<close>

lemma ranges_eq: "specialPurposeDiscoveryRanges = [
    \<lparr>drNetwork = \<lparr>netIP = [0, 0, 0, 0], netMask = CIDRMask 8 32\<rparr>, drGloballyReachable = False\<rparr>,
    \<lparr>drNetwork = \<lparr>netIP = [0, 0, 0, 0], netMask = CIDRMask 32 32\<rparr>, drGloballyReachable = False\<rparr>,
    \<lparr>drNetwork = \<lparr>netIP = [10, 0, 0, 0], netMask = CIDRMask 8 32\<rparr>, drGloballyReachable = False\<rparr>,
    \<lparr>drNetwork = \<lparr>netIP = [100, 64, 0, 0], netMask = CIDRMask 10 32\<rparr>, drGloballyReachable = False\<rparr>,
    \<lparr>drNetwork = \<lparr>netIP = [127, 0, 0, 0], netMask = CIDRMask 8 32\<rparr>, drGloballyReachable = False\<rparr>,
    \<lparr>drNetwork = \<lparr>netIP = [169, 254, 0, 0], netMask = CIDRMask 16 32\<rparr>, drGloballyReachable = False\<rparr>,
    \<lparr>drNetwork = \<lparr>netIP = [172, 16, 0, 0], netMask = CIDRMask 12 32\<rparr>, drGloballyReachable = False\<rparr>,
    \<lparr>drNetwork = \<lparr>netIP = [192, 0, 0, 0], netMask = CIDRMask 24 32\<rparr>, drGloballyReachable = False\<rparr>,
    \<lparr>drNetwork = \<lparr>netIP = [192, 0, 0, 0], netMask = CIDRMask 29 32\<rparr>, drGloballyReachable = False\<rparr>,
    \<lparr>drNetwork = \<lparr>netIP = [192, 0, 0, 8], netMask = CIDRMask 32 32\<rparr>, drGloballyReachable = False\<rparr>,
    \<lparr>drNetwork = \<lparr>netIP = [192, 0, 0, 9], netMask = CIDRMask 32 32\<rparr>, drGloballyReachable = True\<rparr>,
    \<lparr>drNetwork = \<lparr>netIP = [192, 0, 0, 10], netMask = CIDRMask 32 32\<rparr>, drGloballyReachable = True\<rparr>,
    \<lparr>drNetwork = \<lparr>netIP = [192, 0, 0, 170], netMask = CIDRMask 32 32\<rparr>, drGloballyReachable = False\<rparr>,
    \<lparr>drNetwork = \<lparr>netIP = [192, 0, 0, 171], netMask = CIDRMask 32 32\<rparr>, drGloballyReachable = False\<rparr>,
    \<lparr>drNetwork = \<lparr>netIP = [192, 0, 2, 0], netMask = CIDRMask 24 32\<rparr>, drGloballyReachable = False\<rparr>,
    \<lparr>drNetwork = \<lparr>netIP = [192, 31, 196, 0], netMask = CIDRMask 24 32\<rparr>, drGloballyReachable = True\<rparr>,
    \<lparr>drNetwork = \<lparr>netIP = [192, 52, 193, 0], netMask = CIDRMask 24 32\<rparr>, drGloballyReachable = True\<rparr>,
    \<lparr>drNetwork = \<lparr>netIP = [192, 88, 99, 0], netMask = CIDRMask 24 32\<rparr>, drGloballyReachable = False\<rparr>,
    \<lparr>drNetwork = \<lparr>netIP = [192, 88, 99, 2], netMask = CIDRMask 32 32\<rparr>, drGloballyReachable = False\<rparr>,
    \<lparr>drNetwork = \<lparr>netIP = [192, 168, 0, 0], netMask = CIDRMask 16 32\<rparr>, drGloballyReachable = False\<rparr>,
    \<lparr>drNetwork = \<lparr>netIP = [192, 175, 48, 0], netMask = CIDRMask 24 32\<rparr>, drGloballyReachable = True\<rparr>,
    \<lparr>drNetwork = \<lparr>netIP = [198, 18, 0, 0], netMask = CIDRMask 15 32\<rparr>, drGloballyReachable = False\<rparr>,
    \<lparr>drNetwork = \<lparr>netIP = [198, 51, 100, 0], netMask = CIDRMask 24 32\<rparr>, drGloballyReachable = False\<rparr>,
    \<lparr>drNetwork = \<lparr>netIP = [203, 0, 113, 0], netMask = CIDRMask 24 32\<rparr>, drGloballyReachable = False\<rparr>,
    \<lparr>drNetwork = \<lparr>netIP = [240, 0, 0, 0], netMask = CIDRMask 4 32\<rparr>, drGloballyReachable = False\<rparr>,
    \<lparr>drNetwork = \<lparr>netIP = [255, 255, 255, 255], netMask = CIDRMask 32 32\<rparr>, drGloballyReachable = False\<rparr>,
    \<lparr>drNetwork = \<lparr>netIP = [0, 0, 0, 0, 0, 0, 0, 0, 0, 0, 0, 0, 0, 0, 0, 1], netMask = CIDRMask 128 128\<rparr>, drGloballyReachable = False\<rparr>,
    \<lparr>drNetwork = \<lparr>netIP = [0, 0, 0, 0, 0, 0, 0, 0, 0, 0, 0, 0, 0, 0, 0, 0], netMask = CIDRMask 128 128\<rparr>, drGloballyReachable = False\<rparr>,
    \<lparr>drNetwork = \<lparr>netIP = [0, 0, 0, 0, 0, 0, 0, 0, 0, 0, 255, 255, 0, 0, 0, 0], netMask = CIDRMask 96 128\<rparr>, drGloballyReachable = False\<rparr>,
    \<lparr>drNetwork = \<lparr>netIP = [0, 100, 255, 155, 0, 0, 0, 0, 0, 0, 0, 0, 0, 0, 0, 0], netMask = CIDRMask 96 128\<rparr>, drGloballyReachable = True\<rparr>,
    \<lparr>drNetwork = \<lparr>netIP = [0, 100, 255, 155, 0, 1, 0, 0, 0, 0, 0, 0, 0, 0, 0, 0], netMask = CIDRMask 48 128\<rparr>, drGloballyReachable = False\<rparr>,
    \<lparr>drNetwork = \<lparr>netIP = [1, 0, 0, 0, 0, 0, 0, 0, 0, 0, 0, 0, 0, 0, 0, 0], netMask = CIDRMask 64 128\<rparr>, drGloballyReachable = False\<rparr>,
    \<lparr>drNetwork = \<lparr>netIP = [1, 0, 0, 0, 0, 0, 0, 1, 0, 0, 0, 0, 0, 0, 0, 0], netMask = CIDRMask 64 128\<rparr>, drGloballyReachable = False\<rparr>,
    \<lparr>drNetwork = \<lparr>netIP = [32, 1, 0, 0, 0, 0, 0, 0, 0, 0, 0, 0, 0, 0, 0, 0], netMask = CIDRMask 23 128\<rparr>, drGloballyReachable = False\<rparr>,
    \<lparr>drNetwork = \<lparr>netIP = [32, 1, 0, 0, 0, 0, 0, 0, 0, 0, 0, 0, 0, 0, 0, 0], netMask = CIDRMask 32 128\<rparr>, drGloballyReachable = False\<rparr>,
    \<lparr>drNetwork = \<lparr>netIP = [32, 1, 0, 1, 0, 0, 0, 0, 0, 0, 0, 0, 0, 0, 0, 1], netMask = CIDRMask 128 128\<rparr>, drGloballyReachable = True\<rparr>,
    \<lparr>drNetwork = \<lparr>netIP = [32, 1, 0, 1, 0, 0, 0, 0, 0, 0, 0, 0, 0, 0, 0, 2], netMask = CIDRMask 128 128\<rparr>, drGloballyReachable = True\<rparr>,
    \<lparr>drNetwork = \<lparr>netIP = [32, 1, 0, 1, 0, 0, 0, 0, 0, 0, 0, 0, 0, 0, 0, 3], netMask = CIDRMask 128 128\<rparr>, drGloballyReachable = True\<rparr>,
    \<lparr>drNetwork = \<lparr>netIP = [32, 1, 0, 2, 0, 0, 0, 0, 0, 0, 0, 0, 0, 0, 0, 0], netMask = CIDRMask 48 128\<rparr>, drGloballyReachable = False\<rparr>,
    \<lparr>drNetwork = \<lparr>netIP = [32, 1, 0, 3, 0, 0, 0, 0, 0, 0, 0, 0, 0, 0, 0, 0], netMask = CIDRMask 32 128\<rparr>, drGloballyReachable = True\<rparr>,
    \<lparr>drNetwork = \<lparr>netIP = [32, 1, 0, 4, 1, 18, 0, 0, 0, 0, 0, 0, 0, 0, 0, 0], netMask = CIDRMask 48 128\<rparr>, drGloballyReachable = True\<rparr>,
    \<lparr>drNetwork = \<lparr>netIP = [32, 1, 0, 16, 0, 0, 0, 0, 0, 0, 0, 0, 0, 0, 0, 0], netMask = CIDRMask 28 128\<rparr>, drGloballyReachable = False\<rparr>,
    \<lparr>drNetwork = \<lparr>netIP = [32, 1, 0, 32, 0, 0, 0, 0, 0, 0, 0, 0, 0, 0, 0, 0], netMask = CIDRMask 28 128\<rparr>, drGloballyReachable = True\<rparr>,
    \<lparr>drNetwork = \<lparr>netIP = [32, 1, 0, 48, 0, 0, 0, 0, 0, 0, 0, 0, 0, 0, 0, 0], netMask = CIDRMask 28 128\<rparr>, drGloballyReachable = True\<rparr>,
    \<lparr>drNetwork = \<lparr>netIP = [32, 1, 13, 184, 0, 0, 0, 0, 0, 0, 0, 0, 0, 0, 0, 0], netMask = CIDRMask 32 128\<rparr>, drGloballyReachable = False\<rparr>,
    \<lparr>drNetwork = \<lparr>netIP = [32, 2, 0, 0, 0, 0, 0, 0, 0, 0, 0, 0, 0, 0, 0, 0], netMask = CIDRMask 16 128\<rparr>, drGloballyReachable = False\<rparr>,
    \<lparr>drNetwork = \<lparr>netIP = [38, 32, 0, 79, 128, 0, 0, 0, 0, 0, 0, 0, 0, 0, 0, 0], netMask = CIDRMask 48 128\<rparr>, drGloballyReachable = True\<rparr>,
    \<lparr>drNetwork = \<lparr>netIP = [63, 255, 0, 0, 0, 0, 0, 0, 0, 0, 0, 0, 0, 0, 0, 0], netMask = CIDRMask 20 128\<rparr>, drGloballyReachable = False\<rparr>,
    \<lparr>drNetwork = \<lparr>netIP = [95, 0, 0, 0, 0, 0, 0, 0, 0, 0, 0, 0, 0, 0, 0, 0], netMask = CIDRMask 16 128\<rparr>, drGloballyReachable = False\<rparr>,
    \<lparr>drNetwork = \<lparr>netIP = [252, 0, 0, 0, 0, 0, 0, 0, 0, 0, 0, 0, 0, 0, 0, 0], netMask = CIDRMask 7 128\<rparr>, drGloballyReachable = False\<rparr>,
    \<lparr>drNetwork = \<lparr>netIP = [254, 128, 0, 0, 0, 0, 0, 0, 0, 0, 0, 0, 0, 0, 0, 0], netMask = CIDRMask 10 128\<rparr>, drGloballyReachable = False\<rparr>]"
  by (simp add: specialPurposeDiscoveryRanges_def discovery_table_def specialPurposeRange_def mustCIDR_def addr_eval)

lemma table_ok: "list_all (\<lambda>r. \<not> isl r) discovery_table"
  by (simp add: discovery_table_def specialPurposeRange_def mustCIDR_def addr_eval)

text \<open>The family, prefix length and block of a record, read off its network.\<close>

definition prefix_len :: "discovery_range \<Rightarrow> nat" where
  "prefix_len r = fst (Size (netMask (drNetwork r)))"

definition same_family :: "byte list \<Rightarrow> discovery_range \<Rightarrow> bool" where
  "same_family ip r \<longleftrightarrow> (To4 ip \<noteq> None) = (snd (Size (netMask (drNetwork r))) = 32)"

definition record_covers :: "discovery_range \<Rightarrow> byte list \<Rightarrow> bool" where
  "record_covers r ip \<longleftrightarrow> (length ip = 4 \<or> length ip = 16) \<and> same_family ip r \<and> IPNet_Contains (drNetwork r) ip"

definition wf_record :: "discovery_range \<Rightarrow> bool" where
  "wf_record r \<longleftrightarrow> (let n = drNetwork r; (k, bits) = Size (netMask n) in
     (bits = 32 \<or> bits = 128) \<and> k \<le> bits \<and> netMask n = CIDRMask k bits \<and> 8 * length (netIP n) = bits \<and>
     (bits = 128 \<longrightarrow> To4 (netIP n) \<noteq> None \<longrightarrow> 96 \<le> k))"

lemma table_wf: "r \<in> set specialPurposeDiscoveryRanges \<Longrightarrow> wf_record r"
proof -
  have "list_all wf_record specialPurposeDiscoveryRanges"
    by (simp add: ranges_eq wf_record_def Size_CIDRMask To4_def v4InV6Prefix_list)
  then show "r \<in> set specialPurposeDiscoveryRanges \<Longrightarrow> wf_record r" by (simp add: list_all_iff)
qed

text \<open>The bits of an address that its records are compared with.\<close>

definition family_bits :: "byte list \<Rightarrow> bool list" where
  "family_bits ip = addr_bits (case To4 ip of Some p \<Rightarrow> p | None \<Rightarrow> ip)"

lemma record_covers_iff_prefix:
  assumes "wf_record r" "length ip = 4 \<or> length ip = 16" "same_family ip r"
  shows "IPNet_Contains (drNetwork r) ip \<longleftrightarrow>
    take (prefix_len r) (family_bits ip) = take (prefix_len r) (addr_bits (netIP (drNetwork r)))"
proof (cases "To4 ip")
  case (Some p)
  with assms show ?thesis
    by (intro trans [OF IPNet_Contains_v4 [OF _ _ Some]])
       (auto simp: wf_record_def prefix_len_def family_bits_def same_family_def Let_def split: prod.splits)
next
  case None
  with assms show ?thesis
    by (intro trans [OF IPNet_Contains_v6])
       (auto simp: wf_record_def prefix_len_def family_bits_def same_family_def Let_def
         split: prod.splits)
qed

subsection \<open>Tables of nested blocks\<close>

text \<open>
  The law of such a table: of two blocks that share an address, the one with the longer prefix
  lies inside the other.  Then the selected record is the narrowest block around the address.
\<close>

locale prefix_table =
  fixes wf :: "'r \<Rightarrow> bool" and covers :: "'r \<Rightarrow> 'a \<Rightarrow> bool" and plen :: "'r \<Rightarrow> nat"
  assumes nested: "wf r \<Longrightarrow> wf s \<Longrightarrow> covers r a \<Longrightarrow> covers s a \<Longrightarrow> plen r \<le> plen s \<Longrightarrow>
    covers s b \<Longrightarrow> covers r b"
begin

lemma longest_narrowest:
  assumes "longest (\<lambda>r. covers r a) plen rs None = Some r" and "\<And>s. s \<in> set rs \<Longrightarrow> wf s"
  shows "r \<in> set rs" and "covers r a"
    and "s \<in> set rs \<Longrightarrow> covers s a \<Longrightarrow> covers r b \<Longrightarrow> covers s b"
proof -
  from longest_sound [OF assms(1)] show r: "r \<in> set rs" "covers r a" by auto
  assume s: "s \<in> set rs" "covers s a" "covers r b"
  with longest_sound [OF assms(1)] have "plen s \<le> plen r" by auto
  with s r assms(2) show "covers s b" by (blast intro: nested)
qed

lemma longest_unique_block:
  assumes "longest (\<lambda>r. covers r a) plen rs None = Some r" and "\<And>s. s \<in> set rs \<Longrightarrow> wf s"
    and "s \<in> set rs" "covers s a" "plen r = plen s"
  shows "covers r b \<longleftrightarrow> covers s b"
  using longest_narrowest [OF assms(1,2)] assms by (metis nested order_refl)

end

interpretation iana: prefix_table wf_record record_covers prefix_len
proof unfold_locales
  fix r s a b
  assume wf: "wf_record r" "wf_record s" and c: "record_covers r a" "record_covers s a" "record_covers s b"
    and le: "prefix_len r \<le> prefix_len s"
  from c have fam: "same_family b r" by (auto simp: record_covers_def same_family_def)
  have "take (prefix_len s) (family_bits a) = take (prefix_len s) (family_bits b)"
    using c wf(2) by (auto simp: record_covers_def record_covers_iff_prefix)
  then have "take (prefix_len r) (family_bits a) = take (prefix_len r) (family_bits b)"
    using le by (rule take_eq_mono)
  with c wf fam show "record_covers r b" by (auto simp: record_covers_def record_covers_iff_prefix)
qed

subsection \<open>The loop selects the longest prefix\<close>

definition best_state :: "discovery_range option \<Rightarrow> int \<times> bool \<times> bool" where
  "best_state b = (case b of None \<Rightarrow> (- 1, False, False)
     | Some r \<Rightarrow> (int (prefix_len r), drGloballyReachable r, True))"

lemma range_step_longest:
  assumes "length ip = 4 \<or> length ip = 16"
  shows "fold (range_step (To4 ip \<noteq> None) ip) rs (best_state b) =
    best_state (longest (\<lambda>r. record_covers r ip) prefix_len rs b)"
proof (induction rs arbitrary: b)
  case (Cons r rs)
  have "range_step (To4 ip \<noteq> None) ip r (best_state b) =
    best_state (if record_covers r ip \<and> (case b of None \<Rightarrow> True | Some b \<Rightarrow> prefix_len b < prefix_len r)
      then Some r else b)"
    using assms by (auto simp: range_step_def best_state_def record_covers_def same_family_def prefix_len_def
        split: option.splits prod.splits)
  with Cons show ?case by simp
qed simp

lemma reachable_longest:
  assumes "length ip = 4 \<or> length ip = 16"
  shows "specialPurposeGloballyReachable ip =
    (case longest (\<lambda>r. record_covers r ip) prefix_len specialPurposeDiscoveryRanges None of
       None \<Rightarrow> (False, False) | Some r \<Rightarrow> (drGloballyReachable r, True))"
  using range_step_longest [OF assms, of specialPurposeDiscoveryRanges None]
  by (simp add: specialPurposeGloballyReachable_def best_state_def split: option.splits)

text \<open>
  C3: The reachability of an address comes from the most specific record: either no record of
  the special-purpose table covers it, and the scan reports that nothing was found, or the scan
  returns the flag of a covering record whose block lies inside every other record that covers
  the address.
\<close>

theorem reachable_is_longest_prefix_match:
  assumes "length ip = 4 \<or> length ip = 16"
  shows "(specialPurposeGloballyReachable ip = (False, False) \<and>
           (\<nexists>r. r \<in> set specialPurposeDiscoveryRanges \<and> record_covers r ip)) \<or>
         (\<exists>r. r \<in> set specialPurposeDiscoveryRanges \<and> record_covers r ip \<and>
           specialPurposeGloballyReachable ip = (drGloballyReachable r, True) \<and>
           {s \<in> set specialPurposeDiscoveryRanges. record_covers s ip} \<subseteq>
             {s. {b. record_covers r b} \<subseteq> {b. record_covers s b}})"
proof (cases "longest (\<lambda>r. record_covers r ip) prefix_len specialPurposeDiscoveryRanges None")
  case None
  then have "\<forall>r \<in> set specialPurposeDiscoveryRanges. \<not> record_covers r ip"
    by (simp add: longest_None)
  moreover have "specialPurposeGloballyReachable ip = (False, False)"
    by (simp add: reachable_longest [OF assms] None)
  ultimately show ?thesis by blast
next
  case (Some r)
  have "specialPurposeGloballyReachable ip = (drGloballyReachable r, True)"
    by (simp add: reachable_longest [OF assms] Some)
  with iana.longest_narrowest [OF Some table_wf] show ?thesis by blast
qed

lemma disallowed_v4_unfold:
  "length ip = 4 \<Longrightarrow> isDisallowedDiscoveryTarget ip =
     (case specialPurposeGloballyReachable ip of (g, f) \<Rightarrow>
       if f then \<not> g else IsLoopback ip \<or> IsPrivate ip \<or> IsLinkLocalUnicast ip \<or>
                  IsLinkLocalMulticast ip \<or> IsUnspecified ip \<or> IsMulticast ip)"
  by (subst isDisallowedDiscoveryTarget.simps) (auto split: prod.splits)



lemma length_CIDRMask [simp]: "length (CIDRMask k b) = b div 8"
  by (simp add: CIDRMask_def)

lemma step_v6: "k \<le> 128 \<Longrightarrow> range_step True ip \<lparr>drNetwork = \<lparr>netIP = nip, netMask = CIDRMask k 128\<rparr>, drGloballyReachable = g\<rparr> st = st"
  by (simp add: range_step_def Size_CIDRMask split: prod.splits)

lemma step_v4: "k \<le> 32 \<Longrightarrow> range_step True [a,b,c,d]
     \<lparr>drNetwork = \<lparr>netIP = [w,x,y,z], netMask = CIDRMask k 32\<rparr>, drGloballyReachable = g\<rparr> (m, gr, f) =
    (if mask_slice [w,x,y,z] (CIDRMask k 32) = mask_slice [a,b,c,d] (CIDRMask k 32) \<and> m < int k
     then (int k, g, True) else (m, gr, f))"
  by (auto simp: range_step_def Size_CIDRMask IPNet_Contains_def networkNumberAndMask_def)

lemma step_miss: "k \<le> 32 \<Longrightarrow> mask_slice [w,x,y,z] (mask_bytes 4 k) \<noteq> mask_slice [a,b,c,d] (mask_bytes 4 k) \<Longrightarrow> range_step True [a,b,c,d]
     \<lparr>drNetwork = \<lparr>netIP = [w,x,y,z], netMask = CIDRMask k 32\<rparr>, drGloballyReachable = g\<rparr> (m, gr, f) = (m, gr, f)"
  by (simp only: step_v4) (simp add: CIDRMask_def)
lemma step_lower: "k \<le> 32 \<Longrightarrow> int k \<le> m \<Longrightarrow> range_step True [a,b,c,d]
     \<lparr>drNetwork = \<lparr>netIP = [w,x,y,z], netMask = CIDRMask k 32\<rparr>, drGloballyReachable = g\<rparr> (m, gr, f) = (m, gr, f)"
  by (simp add: step_v4)
lemma step_hit: "k \<le> 32 \<Longrightarrow> m < int k \<Longrightarrow> mask_slice [w,x,y,z] (mask_bytes 4 k) = mask_slice [a,b,c,d] (mask_bytes 4 k) \<Longrightarrow> range_step True [a,b,c,d]
     \<lparr>drNetwork = \<lparr>netIP = [w,x,y,z], netMask = CIDRMask k 32\<rparr>, drGloballyReachable = g\<rparr> (m, gr, f) = (int k, g, True)"
  by (simp only: step_v4) (simp add: CIDRMask_def)

definition forbidden_v4 :: "byte \<Rightarrow> byte \<Rightarrow> byte \<Rightarrow> byte \<Rightarrow> bool" where
  "forbidden_v4 a b c d \<longleftrightarrow>
     a = 0 \<or> a = 10 \<or> a = 127 \<or> (a = 100 \<and> b AND 192 = 64) \<or> (a = 169 \<and> b = 254) \<or>
     (a = 172 \<and> b AND 240 = 16) \<or> (a = 192 \<and> b = 0 \<and> c = 0 \<and> d \<noteq> 9 \<and> d \<noteq> 10) \<or>
     (a = 192 \<and> b = 0 \<and> c = 2) \<or> (a = 192 \<and> b = 88 \<and> c = 99) \<or> (a = 192 \<and> b = 168) \<or>
     (a = 198 \<and> b AND 254 = 18) \<or> (a = 198 \<and> b = 51 \<and> c = 100) \<or> (a = 203 \<and> b = 0 \<and> c = 113) \<or>
     a AND 240 = 224 \<or> a AND 240 = 240"

lemma neg_masks: "(- 64 :: byte) = 192" "(- 16 :: byte) = 240" "(- 2 :: byte) = 254" "(- 8 :: byte) = 248" by simp_all

lemmas scan_simps = specialPurposeGloballyReachable_def ranges_eq step_v6 step_miss step_lower step_hit
  mask_slice_def mask_bytes_numeral neg_masks


abbreviation scan :: "byte \<Rightarrow> byte \<Rightarrow> byte \<Rightarrow> byte \<Rightarrow> bool \<times> bool" where
  "scan a b c d \<equiv> snd (fold (range_step True [a,b,c,d]) specialPurposeDiscoveryRanges (- 1, False, False))"

lemma scan_0: "scan 0 b c d = (False, True)"
  by (cases "b = 0 \<and> c = 0 \<and> d = 0") (simp_all add: scan_simps)
lemma scan_10: "scan 10 b c d = (False, True)"
  by (simp add: scan_simps)
lemma scan_127: "scan 127 b c d = (False, True)"
  by (simp add: scan_simps)
lemma scan_100: "scan 100 b c d = (False, b AND 192 = 64)"
  by (cases "b AND 192 = 64") (simp_all add: scan_simps)
lemma scan_169: "scan 169 b c d = (False, b = 254)"
  by (cases "b = 254") (simp_all add: scan_simps)
lemma scan_172: "scan 172 b c d = (False, b AND 240 = 16)"
  by (cases "b AND 240 = 16") (simp_all add: scan_simps)
lemma scan_198: "scan 198 b c d = (False, b AND 254 = 18 \<or> (b = 51 \<and> c = 100))"
  by (cases "b AND 254 = 18"; cases "b = 51 \<and> c = 100") (simp_all add: scan_simps)
lemma scan_203: "scan 203 b c d = (False, b = 0 \<and> c = 113)"
  by (cases "b = 0 \<and> c = 113") (simp_all add: scan_simps)
lemma scan_other: "\<lbrakk>a \<noteq> 0; a \<noteq> 10; a \<noteq> 100; a \<noteq> 127; a \<noteq> 169; a \<noteq> 172; a \<noteq> 192; a \<noteq> 198; a \<noteq> 203\<rbrakk> \<Longrightarrow>
   scan a b c d = (False, a AND 240 = 240)"
  by (cases "a AND 240 = 240"; cases "a = 255 \<and> b = 255 \<and> c = 255 \<and> d = 255") (simp_all add: scan_simps)
lemma scan_192_0_0: "scan 192 0 0 d = (d = 9 \<or> d = 10, True)"
  by (cases "d = 8"; cases "d = 9"; cases "d = 10"; cases "d = 170"; cases "d = 171"; cases "d AND 248 = 0")
    (simp_all add: scan_simps)
lemma scan_192_0: "c \<noteq> 0 \<Longrightarrow> scan 192 0 c d = (False, c = 2)"
  by (cases "c = 2") (simp_all add: scan_simps)
lemma scan_192_88: "scan 192 88 c d = (False, c = 99)"
  by (cases "c = 99"; cases "d = 2") (simp_all add: scan_simps)
lemma scan_192: "b \<noteq> 0 \<Longrightarrow> b \<noteq> 88 \<Longrightarrow> snd (scan 192 b c d) \<longrightarrow> fst (scan 192 b c d) = (b \<noteq> 168)"
  by (cases "b = 31 \<and> c = 196"; cases "b = 52 \<and> c = 193"; cases "b = 168"; cases "b = 175 \<and> c = 48")
     (simp_all add: scan_simps)

lemma v4_classes:
  "IsLoopback [a, b, c, d] \<longleftrightarrow> a = 127"
  "IsPrivate [a, b, c, d] \<longleftrightarrow> a = 10 \<or> (a = 172 \<and> b AND 240 = 16) \<or> (a = 192 \<and> b = 168)"
  "IsLinkLocalUnicast [a, b, c, d] \<longleftrightarrow> a = 169 \<and> b = 254"
  "IsLinkLocalMulticast [a, b, c, d] \<longleftrightarrow> a = 224 \<and> b = 0 \<and> c = 0"
  "IsUnspecified [a, b, c, d] \<longleftrightarrow> a = 0 \<and> b = 0 \<and> c = 0 \<and> d = 0"
  "IsMulticast [a, b, c, d] \<longleftrightarrow> a AND 240 = 224"
  by (auto simp: IsLoopback_def IsPrivate_def IsLinkLocalUnicast_def IsLinkLocalMulticast_def
      IsUnspecified_def IsMulticast_def IP_Equal_def v4InV6Prefix_list replicate_numeral_unfold)

text \<open>
  For every IPv4 address the decision of the whole table and of the fallback classes is the
  closed form \<^const>\<open>forbidden_v4\<close>: this-network, private, shared, loopback,
  link-local, IETF protocol (less its two anycast addresses), documentation, 6to4 relay,
  benchmarking, multicast and reserved addresses are refused, all others accepted.
\<close>

lemma disallowed_v4_closed_form:
  "isDisallowedDiscoveryTarget [a, b, c, d] = forbidden_v4 a b c d"
proof -
  note [simp] = disallowed_v4_unfold specialPurposeGloballyReachable_def
  consider "a = 0" | "a = 10" | "a = 100" | "a = 127" | "a = 169" | "a = 172" | "a = 192" | "a = 198" | "a = 203"
    | (other) "a \<noteq> 0" "a \<noteq> 10" "a \<noteq> 100" "a \<noteq> 127" "a \<noteq> 169" "a \<noteq> 172" "a \<noteq> 192" "a \<noteq> 198" "a \<noteq> 203"
    by blast
  then show ?thesis
  proof cases
    case other
    then show ?thesis by (auto simp: scan_other forbidden_v4_def v4_classes)
  next
    assume a: "a = 192"
    show ?thesis
    proof (cases "b = 0 \<or> b = 88")
      case True
      then show ?thesis
        by (cases "c = 0")
          (auto simp: a scan_192_0_0 scan_192_0 scan_192_88 forbidden_v4_def v4_classes)
    next
      case False
      with scan_192 [of b c d] show ?thesis
        by (auto simp: a forbidden_v4_def v4_classes split: prod.splits)
    qed
  qed (auto simp: scan_0 scan_10 scan_100 scan_127 scan_169 scan_172 scan_198 scan_203
      forbidden_v4_def v4_classes)
qed

text \<open>
  An address of the well-known NAT64 prefix is judged by the IPv4 address that it embeds, so
  the translation prefix does not open a way to a private IPv4 target.
\<close>

lemma nat64_embeds:
  "isDisallowedDiscoveryTarget ([0, 100, 255, 155, 0, 0, 0, 0, 0, 0, 0, 0] @ [a, b, c, d]) =
   isDisallowedDiscoveryTarget [a, b, c, d]"
  by (subst isDisallowedDiscoveryTarget.simps)
     (simp add: To4_def To16_slice_def To16_def v4InV6Prefix_list nat64_contains_def nat64_prefix
       IPNet_Contains_def networkNumberAndMask_def mask_slice_def)

lemma v6_true_record:
  assumes "r \<in> set specialPurposeDiscoveryRanges" "drGloballyReachable r" "IPNet_Contains (drNetwork r) ip"
    "length ip = 16" "To4 ip = None" 
  shows "ip ! 0 = 32 \<and> ip ! 1 = 1 \<and> ip ! 2 = 0 \<or> ip ! 0 = 38 \<or> nat64_contains ip"
proof -
  obtain a b c d e f g h i j k l m n p q where ip: "ip = [a,b,c,d,e,f,g,h,i,j,k,l,m,n,p,q]"
    using list16 [OF assms(4)] by auto
  have "list_all (\<lambda>r. drGloballyReachable r \<longrightarrow> IPNet_Contains (drNetwork r) ip \<longrightarrow> 
    ip ! 0 = 32 \<and> ip ! 1 = 1 \<and> ip ! 2 = 0 \<or> ip ! 0 = 38 \<or> nat64_contains ip) specialPurposeDiscoveryRanges"
    using assms(5)
    by (simp add: ranges_eq ip IPNet_Contains_def networkNumberAndMask_def CIDRMask_def mask_slice_def mask_bytes_numeral
       To4_def v4InV6Prefix_list nat64_contains_def nat64_prefix)
  with assms show ?thesis by (auto simp: list_all_iff)
qed

lemma disallowed_v6_unfold:
  "length ip = 16 \<Longrightarrow> To4 ip = None \<Longrightarrow> \<not> nat64_contains ip \<Longrightarrow> isDisallowedDiscoveryTarget ip =
     (case specialPurposeGloballyReachable ip of (g, f) \<Rightarrow>
       if f then \<not> g else IsLoopback ip \<or> IsPrivate ip \<or> IsLinkLocalUnicast ip \<or>
                  IsLinkLocalMulticast ip \<or> IsUnspecified ip \<or> IsMulticast ip)"
  by (subst isDisallowedDiscoveryTarget.simps) (auto simp: To16_slice_def To16_def split: prod.splits)

text \<open>An IPv6 address outside the blocks of the reachable records is refused as soon as some record
  covers it or one of the classes of the standard library holds.\<close>

lemma disallowed_v6I:
  assumes "length ip = 16" "To4 ip = None" "\<not> nat64_contains ip"
    and "\<not> (ip ! 0 = 32 \<and> ip ! 1 = 1 \<and> ip ! 2 = 0)" "ip ! 0 \<noteq> 38"
    and "(\<exists>r \<in> set specialPurposeDiscoveryRanges. record_covers r ip) \<or> IsLoopback ip \<or> IsPrivate ip \<or>
      IsLinkLocalUnicast ip \<or> IsLinkLocalMulticast ip \<or> IsUnspecified ip \<or> IsMulticast ip"
  shows "isDisallowedDiscoveryTarget ip"
proof (cases "longest (\<lambda>r. record_covers r ip) prefix_len specialPurposeDiscoveryRanges None")
  case None
  then have "specialPurposeGloballyReachable ip = (False, False)"
    using assms(1) by (simp add: reachable_longest)
  moreover have "\<forall>r \<in> set specialPurposeDiscoveryRanges. \<not> record_covers r ip"
    using None by (simp add: longest_None)
  ultimately show ?thesis
    using assms by (auto simp: disallowed_v6_unfold)
next
  case (Some r)
  from longest_sound [OF Some] have "r \<in> set specialPurposeDiscoveryRanges" "record_covers r ip" by auto
  with v6_true_record [of r ip] assms have "\<not> drGloballyReachable r" by (auto simp: record_covers_def)
  with Some assms show ?thesis by (simp add: disallowed_v6_unfold reachable_longest)
qed

definition internal_v6 :: "byte list \<Rightarrow> bool" where
  "internal_v6 ip \<longleftrightarrow> ip = replicate 16 0 \<or> ip = replicate 15 0 @ [1] \<or> ip ! 0 AND 254 = 252 \<or>
     (ip ! 0 = 254 \<and> ip ! 1 AND 192 = 128) \<or> ip ! 0 = 255 \<or> (ip ! 0 = 32 \<and> ip ! 1 = 2)"

lemma sixto4_covered:
  assumes "length ip = 16" "ip ! 0 = 32" "ip ! 1 = 2" "To4 ip = None"
  shows "\<exists>r \<in> set specialPurposeDiscoveryRanges. record_covers r ip"
proof -
  obtain a b c d e f g h i j k l m n p q where ip: "ip = [a,b,c,d,e,f,g,h,i,j,k,l,m,n,p,q]"
    using list16 [OF assms(1)] by auto
  let ?r = "\<lparr>drNetwork = \<lparr>netIP = [32, 2, 0, 0, 0, 0, 0, 0, 0, 0, 0, 0, 0, 0, 0, 0], netMask = CIDRMask 16 128\<rparr>, drGloballyReachable = False\<rparr>"
  have "?r \<in> set specialPurposeDiscoveryRanges" by (simp add: ranges_eq)
  moreover have "record_covers ?r ip"
    using assms by (simp add: ip record_covers_def same_family_def Size_CIDRMask)
      (simp add: IPNet_Contains_def networkNumberAndMask_def CIDRMask_def mask_slice_def mask_bytes_numeral
       To4_def v4InV6Prefix_list)
  ultimately show ?thesis by blast
qed

text \<open>
  No internal IPv6 address is an acceptable target: the unspecified and the loopback
  address, unique-local, link-local and multicast addresses and the whole 6to4 block are all
  disallowed.
\<close>

lemma internal_v6_disallowed:
  assumes "length ip = 16" "internal_v6 ip"
  shows "isDisallowedDiscoveryTarget ip"
proof -
  obtain a b c d e f g h i j k l m n p q where ip: "ip = [a,b,c,d,e,f,g,h,i,j,k,l,m,n,p,q]"
    using list16 [OF assms(1)] by auto
  have v4: "To4 ip = None" and nat: "\<not> nat64_contains ip"
    and "\<not> (ip ! 0 = 32 \<and> ip ! 1 = 1 \<and> ip ! 2 = 0)" "ip ! 0 \<noteq> 38"
    using assms(2) by (auto simp: ip internal_v6_def To4_def v4InV6Prefix_list nat64_contains_def nat64_prefix
      IPNet_Contains_def networkNumberAndMask_def mask_slice_def replicate_numeral_unfold)
  moreover have "(ip ! 0 = 32 \<and> ip ! 1 = 2) \<or> IsLoopback ip \<or> IsPrivate ip \<or>
      IsLinkLocalUnicast ip \<or> IsLinkLocalMulticast ip \<or> IsUnspecified ip \<or> IsMulticast ip"
    using assms v4 by (auto simp: internal_v6_def IsLoopback_def IsPrivate_def IsLinkLocalUnicast_def
        IsUnspecified_def IsMulticast_def IP_Equal_def)
  ultimately show ?thesis
    using sixto4_covered [OF assms(1)] assms(1) by (intro disallowed_v6I) auto
qed

subsection \<open>What the dialer lets pass\<close>

text \<open>
  C1: The dialer hook, given the text of an IPv4 address and a port, lets the connection pass
  exactly when the address is not forbidden.
\<close>

theorem dial_v4_iff:
  assumes "{CHR '':'', CHR ''['', CHR '']''} \<inter> set port = {}"
  shows "blockDiscoveryDial (dotted a b c d @ '':'' @ port) = None \<longleftrightarrow> \<not> forbidden_v4 a b c d"
proof -
  have "{CHR '':'', CHR ''['', CHR '']''} \<inter> set (dotted a b c d) = {}"
    using dotted_chars [of _ a b c d] by (fastforce simp: is_digit_def)
  moreover have "dotted a b c d \<noteq> []" by (simp add: dotted_def)
  ultimately have "SplitHostPort (dotted a b c d @ CHR '':'' # port) = Some (dotted a b c d, port)"
    using assms by (intro SplitHostPort_plain)
  then show ?thesis
    by (simp add: blockDiscoveryDial_def ParseAddr_dotted Is4In6_def AsSlice_def disallowed_v4_closed_form)
qed

text \<open>
  C2: Whatever text reaches the dialer hook, a connection it lets pass goes to a literal IP
  address: an IPv4 address that is not forbidden, or an IPv6 address that is not IPv4-mapped,
  not internal, and not the NAT64 form of a forbidden IPv4 address.
\<close>

theorem dial_allowed_target:
  assumes "blockDiscoveryDial address = None"
  shows "\<exists>host port. SplitHostPort address = Some (host, port) \<and>
    ((\<exists>a b c d. ParseAddr host = Some (Addr4 [a, b, c, d]) \<and> \<not> forbidden_v4 a b c d) \<or>
     (\<exists>ip z. ParseAddr host = Some (Addr16 ip z) \<and> length ip = 16 \<and> To4 ip = None \<and> \<not> internal_v6 ip \<and>
        ip \<notin> {[0, 100, 255, 155, 0, 0, 0, 0, 0, 0, 0, 0, a, b, c, d] |a b c d. forbidden_v4 a b c d}))"
proof -
  from assms obtain host port a where h: "SplitHostPort address = Some (host, port)" "ParseAddr host = Some a"
    and a: "\<not> Is4In6 a" "\<not> isDisallowedDiscoveryTarget (AsSlice a)"
    by (auto simp: blockDiscoveryDial_def split: option.splits if_splits)
  show ?thesis
  proof (cases a)
    case (Addr4 b)
    with ParseAddr_length h have "length b = 4" by fastforce
    then obtain b0 b1 b2 b3 where "b = [b0, b1, b2, b3]"
      by (auto simp: length_Suc_conv numeral_eq_Suc)
    with h a Addr4 show ?thesis by (auto simp: AsSlice_def disallowed_v4_closed_form)
  next
    case (Addr16 ip z)
    with ParseAddr_length h have l: "length ip = 16" by fastforce
    with a Addr16 have "To4 ip = None" "\<not> internal_v6 ip"
      using internal_v6_disallowed by (auto simp: Is4In6_iff AsSlice_def)
    moreover have "ip \<notin> {[0, 100, 255, 155, 0, 0, 0, 0, 0, 0, 0, 0, a, b, c, d] |a b c d. forbidden_v4 a b c d}"
      using a(2) Addr16 nat64_embeds by (auto simp: AsSlice_def disallowed_v4_closed_form)
    ultimately show ?thesis using h Addr16 l by blast
  qed
qed

theorem reachable_is_longest_prefix_match_witness:
  "specialPurposeGloballyReachable [192, 0, 0, 9] = (True, True) \<and>
   (\<exists>r. r \<in> set specialPurposeDiscoveryRanges \<and> record_covers r [192, 0, 0, 9] \<and> drGloballyReachable r)"
proof -
  have v: "specialPurposeGloballyReachable [192, 0, 0, 9] = (True, True)"
    by (simp add: specialPurposeGloballyReachable_def scan_192_0_0)
  with reachable_is_longest_prefix_match [of "[192, 0, 0, 9]"] show ?thesis by auto
qed

theorem dial_v4_iff_witness:
  "blockDiscoveryDial (dotted 169 254 169 254 @ '':'' @ ''80'') \<noteq> None \<and>
   blockDiscoveryDial (dotted 8 8 8 8 @ '':'' @ ''443'') = None"
  using dial_v4_iff [of "''80''" 169 254 169 254] dial_v4_iff [of "''443''" 8 8 8 8]
  by (simp add: forbidden_v4_def)

theorem dial_allowed_target_witness:
  "\<exists>host port. SplitHostPort ''[2606:4700::1111]:443'' = Some (host, port) \<and>
    (\<exists>ip z. ParseAddr host = Some (Addr16 ip z) \<and> To4 ip = None \<and> \<not> internal_v6 ip)"
proof -
  have split: "SplitHostPort ''[2606:4700::1111]:443'' = Some (''2606:4700::1111'', ''443'')"
    by (simp add: SplitHostPort_def last_index_byte_def index_byte_def)
  have parse: "ParseAddr ''2606:4700::1111'' = Some (Addr16 [38, 6, 71, 0, 0, 0, 0, 0, 0, 0, 0, 0, 0, 0, 17, 17] [])"
    by (simp add: addr_eval)
  let ?ip = "[38, 6, 71, 0, 0, 0, 0, 0, 0, 0, 0, 0, 0, 0, 17, 17] :: byte list"
  have "list_all (\<lambda>r. \<not> record_covers r ?ip) specialPurposeDiscoveryRanges"
    by (simp add: ranges_eq record_covers_def same_family_def IPNet_Contains_def networkNumberAndMask_def
        Size_CIDRMask addr_eval To4_def)
  then have "longest (\<lambda>r. record_covers r ?ip) prefix_len specialPurposeDiscoveryRanges None = None"
    unfolding longest_None list_all_iff by blast
  then have "specialPurposeGloballyReachable ?ip = (False, False)"
    by (simp add: reachable_longest)
  then have "\<not> isDisallowedDiscoveryTarget ?ip"
    by (subst disallowed_v6_unfold) (simp_all add: nat64_contains_def nat64_prefix IPNet_Contains_def networkNumberAndMask_def
        IsLoopback_def IsPrivate_def IsLinkLocalUnicast_def IsLinkLocalMulticast_def IsUnspecified_def IsMulticast_def
        IP_Equal_def To4_def addr_eval)
  then have "blockDiscoveryDial ''[2606:4700::1111]:443'' = None"
    by (simp add: blockDiscoveryDial_def split parse Is4In6_def AsSlice_def replicate_numeral_unfold)
  from dial_allowed_target [OF this] split parse show ?thesis by auto
qed

end
