(* ===== verification/Api_Types.thy ===== *)
theory Api_Types
  imports Kube_Types
begin

section \<open>The HyperFleetConfig resource\<close>

text \<open>
  \<^verbatim>\<open>api/v1alpha1/hyperfleetconfig_types.go\<close>: the spec and status of the singleton custom
  resource and its published condition and reason vocabulary.  The rules that the markers on the
  types put into the CRD are in \<^verbatim>\<open>Admission\<close>.
\<close>

subsection \<open>Constants\<close>

definition SingletonName :: string where "SingletonName = ''cluster''"

definition BundleCloudCAPI :: string where "BundleCloudCAPI = ''cloud-capi''"
definition BundleOnPremAgent :: string where "BundleOnPremAgent = ''onprem-agent''"

definition AllBundleTypes :: "string list" where
  "AllBundleTypes = [BundleCloudCAPI, BundleOnPremAgent]"

definition AllSizingProfiles :: "string list" where
  "AllSizingProfiles = [''small'', ''medium'', ''large'']"

definition ConditionAvailable :: string where "ConditionAvailable = ''Available''"
definition ConditionProgressing :: string where "ConditionProgressing = ''Progressing''"
definition ConditionDegraded :: string where "ConditionDegraded = ''Degraded''"

definition ReasonDeploymentAvailable :: string where "ReasonDeploymentAvailable = ''DeploymentAvailable''"
definition ReasonDeploymentUnavailable :: string where "ReasonDeploymentUnavailable = ''DeploymentUnavailable''"
definition ReasonDeploymentNotReady :: string where "ReasonDeploymentNotReady = ''DeploymentNotReady''"
definition ReasonRolloutInProgress :: string where "ReasonRolloutInProgress = ''RolloutInProgress''"
definition ReasonRolloutComplete :: string where "ReasonRolloutComplete = ''RolloutComplete''"
definition ReasonAsExpected :: string where "ReasonAsExpected = ''AsExpected''"
definition ReasonReferencedSecretMissing :: string where "ReasonReferencedSecretMissing = ''ReferencedSecretMissing''"
definition ReasonReconcileError :: string where "ReasonReconcileError = ''ReconcileError''"

lemmas condition_types = ConditionAvailable_def ConditionProgressing_def ConditionDegraded_def

lemmas condition_reasons =
  ReasonDeploymentAvailable_def ReasonDeploymentUnavailable_def ReasonDeploymentNotReady_def
  ReasonRolloutInProgress_def ReasonRolloutComplete_def ReasonAsExpected_def
  ReasonReferencedSecretMissing_def ReasonReconcileError_def

lemma condition_types_distinct [simp]:
  "ConditionAvailable \<noteq> ConditionProgressing" "ConditionProgressing \<noteq> ConditionAvailable"
  "ConditionAvailable \<noteq> ConditionDegraded" "ConditionDegraded \<noteq> ConditionAvailable"
  "ConditionProgressing \<noteq> ConditionDegraded" "ConditionDegraded \<noteq> ConditionProgressing"
  by (simp_all add: condition_types)

subsection \<open>Spec and status\<close>

record SecretRef =
  srName :: string

record DatabaseSpec =
  dbSecretRef :: SecretRef

record AuthSpec =
  Enabled :: "bool option"
  Issuer :: string
  Audience :: string
  JWKCertSecretRef :: "SecretRef option"

record TLSSpec =
  tlsSecretRef :: SecretRef

record APISpec =
  Database :: DatabaseSpec
  Auth :: AuthSpec
  TLS :: "TLSSpec option"
  Profile :: string

record HyperFleetConfigSpec =
  Bundle :: string
  API :: APISpec

record ComponentConditions =
  ccName :: string
  ccConditions :: "Condition list"

record HyperFleetConfigStatus =
  ObservedGeneration :: int
  Conditions :: "Condition list"
  Components :: "ComponentConditions list"

record HyperFleetConfig =
  crName :: string
  crGeneration :: int
  Spec :: HyperFleetConfigSpec
  Status :: HyperFleetConfigStatus

subsection \<open>JSON form of the spec\<close>

definition secret_ref_json :: "SecretRef \<Rightarrow> json" where
  "secret_ref_json r = JObj [(''name'', JStr (srName r))]"

definition auth_json :: "AuthSpec \<Rightarrow> json" where
  "auth_json a = JObj
     ((case Enabled a of None \<Rightarrow> [] | Some b \<Rightarrow> [(''enabled'', JBool b)]) @
      omitempty ''issuer'' (Issuer a = []) (JStr (Issuer a)) @
      omitempty ''audience'' (Audience a = []) (JStr (Audience a)) @
      (case JWKCertSecretRef a of None \<Rightarrow> [] | Some r \<Rightarrow> [(''jwkCertSecretRef'', secret_ref_json r)]))"

definition api_spec_json :: "APISpec \<Rightarrow> json" where
  "api_spec_json s = JObj
     ([(''database'', JObj [(''secretRef'', secret_ref_json (dbSecretRef (Database s)))]),
       (''auth'', auth_json (Auth s))] @
      (case TLS s of None \<Rightarrow> [] | Some t \<Rightarrow> [(''tls'', JObj [(''secretRef'', secret_ref_json (tlsSecretRef t))])]) @
      omitempty ''profile'' (Profile s = []) (JStr (Profile s)))"

definition spec_json :: "HyperFleetConfigSpec \<Rightarrow> json" where
  "spec_json s = JObj [(''bundle'', JStr (Bundle s)), (''api'', api_spec_json (API s))]"

text \<open>The JSON form loses nothing of the spec.\<close>

lemma secret_ref_json_inj: "secret_ref_json r = secret_ref_json s \<longleftrightarrow> r = s"
  by (cases r; cases s) (simp add: secret_ref_json_def)

lemma auth_json_inj: "auth_json a = auth_json b \<longleftrightarrow> a = b"
  by (cases a; cases b)
     (auto simp: auth_json_def omitempty_def secret_ref_json_inj split: option.splits if_splits)

lemma DatabaseSpec_inj: "dbSecretRef d = dbSecretRef e \<longleftrightarrow> d = e" for d e :: DatabaseSpec
  by (cases d; cases e) simp

lemma TLSSpec_inj: "tlsSecretRef t = tlsSecretRef u \<longleftrightarrow> t = u" for t u :: TLSSpec
  by (cases t; cases u) simp

lemma api_spec_json_inj: "api_spec_json a = api_spec_json b \<longleftrightarrow> a = b"
  by (cases a; cases b)
     (auto simp: DatabaseSpec_inj TLSSpec_inj api_spec_json_def omitempty_def secret_ref_json_inj auth_json_inj split: option.splits if_splits)

lemma spec_json_inj: "spec_json a = spec_json b \<longleftrightarrow> a = b"
  by (cases a; cases b) (auto simp: spec_json_def api_spec_json_inj)

subsection \<open>An example\<close>

text \<open>A resource on which the witnesses of the development evaluate.\<close>

definition example_config :: "bool option \<Rightarrow> SecretRef option \<Rightarrow> TLSSpec option \<Rightarrow> HyperFleetConfig" where
  "example_config enabled jwks tls =
     \<lparr>crName = SingletonName, crGeneration = 1,
      Spec = \<lparr>Bundle = BundleCloudCAPI,
        API = \<lparr>Database = \<lparr>dbSecretRef = \<lparr>srName = ''pg''\<rparr>\<rparr>,
          Auth = \<lparr>Enabled = enabled, Issuer = ''https://idp'', Audience = ''hf'', JWKCertSecretRef = jwks\<rparr>,
          TLS = tls, Profile = ''small''\<rparr>\<rparr>,
      Status = \<lparr>ObservedGeneration = 0, Conditions = [], Components = []\<rparr>\<rparr>"

lemma example_config_sel [simp]:
  "crName (example_config e j t) = ''cluster''" "crGeneration (example_config e j t) = 1"
  "Bundle (Spec (example_config e j t)) = BundleCloudCAPI"
  "srName (dbSecretRef (Database (API (Spec (example_config e j t))))) = ''pg''"
  "Enabled (Auth (API (Spec (example_config e j t)))) = e"
  "Issuer (Auth (API (Spec (example_config e j t)))) = ''https://idp''"
  "Audience (Auth (API (Spec (example_config e j t)))) = ''hf''"
  "JWKCertSecretRef (Auth (API (Spec (example_config e j t)))) = j"
  "TLS (API (Spec (example_config e j t))) = t"
  "Status (example_config e j t) = \<lparr>ObservedGeneration = 0, Conditions = [], Components = []\<rparr>"
  by (simp_all add: example_config_def SingletonName_def)

end
