(* ===== verification/Component_Contract.thy ===== *)
theory Component_Contract
  imports Api_Types
begin

section \<open>The component contract\<close>

text \<open>
  The types that the controller and a bundle component exchange
  (\<^verbatim>\<open>internal/component/rollout.go\<close>), the health of a Deployment that every component reports,
  and the contract of \<^verbatim>\<open>bundle.Component\<close> (\<^verbatim>\<open>internal/bundle/bundle.go\<close>) as a locale: the
  controller's lemmas are proved from its laws, and \<open>Component_API\<close>, \<open>Component_Sentinel\<close> and
  \<open>Bundle\<close> discharge them for the code's components.
\<close>

subsection \<open>Rollout targets and referenced Secrets\<close>

record ConfigEntry =
  ConfigMapName :: string
  ConfigFileKey :: string

record RolloutTarget =
  ConfigEntries :: "ConfigEntry list"
  DeploymentName :: string

record SecretReference =
  Role :: string
  SecretName :: string

subsection \<open>Looking objects up by type and name\<close>

text \<open>The loop with a type assertion, a name test and an early exit: the first match.\<close>

fun find_deployment :: "obj list \<Rightarrow> string \<Rightarrow> Deployment option" where
  "find_deployment [] name = None"
| "find_deployment (ob # obs) name =
     (case ob of
        DeploymentObj d \<Rightarrow> if Name (depMeta d) = name then Some d else find_deployment obs name
      | _ \<Rightarrow> find_deployment obs name)"

fun find_configmap :: "obj list \<Rightarrow> string \<Rightarrow> ConfigMap option" where
  "find_configmap [] name = None"
| "find_configmap (ob # obs) name =
     (case ob of
        ConfigMapObj c \<Rightarrow> if Name (cmMeta c) = name then Some c else find_configmap obs name
      | _ \<Rightarrow> find_configmap obs name)"

lemma find_deployment_Some:
  "find_deployment obs name = Some d \<Longrightarrow> DeploymentObj d \<in> set obs \<and> Name (depMeta d) = name"
  by (induction obs) (auto split: obj.splits if_splits)

lemma find_deployment_None:
  "find_deployment obs name = None \<longleftrightarrow> (\<forall>d. DeploymentObj d \<in> set obs \<longrightarrow> Name (depMeta d) \<noteq> name)"
  by (induction obs) (auto split: obj.splits)

lemma find_configmap_Some:
  "find_configmap obs name = Some c \<Longrightarrow> ConfigMapObj c \<in> set obs \<and> Name (cmMeta c) = name"
  by (induction obs) (auto split: obj.splits if_splits)

text \<open>When the keys of the objects are distinct there is at most one match.\<close>

lemma find_deployment_unique:
  assumes "distinct (map obj_key obs)" "DeploymentObj d \<in> set obs"
    and "\<And>ob. ob \<in> set obs \<Longrightarrow> Namespace (obj_meta ob) = ns"
  shows "find_deployment obs (Name (depMeta d)) = Some d"
proof (cases "find_deployment obs (Name (depMeta d))")
  case None
  with assms(2) show ?thesis by (auto simp: find_deployment_None)
next
  case (Some e)
  then have e: "DeploymentObj e \<in> set obs" "Name (depMeta e) = Name (depMeta d)"
    by (auto dest: find_deployment_Some)
  with assms(3) [OF assms(2)] assms(3) [OF e(1)]
  have "obj_key (DeploymentObj e) = obj_key (DeploymentObj d)"
    by (simp add: obj_key_def)
  with assms(1,2) e(1) Some show ?thesis by (auto simp: distinct_map inj_on_def)
qed

subsection \<open>The health of a Deployment\<close>

text \<open>
  What both components report, without the wording: whether enough replicas are available, and
  whether the latest template is fully rolled out.
\<close>

definition desired_replicas :: "Deployment \<Rightarrow> int" where
  "desired_replicas d = (case dsReplicas (depSpec d) of Some n \<Rightarrow> n | None \<Rightarrow> 1)"

definition available_health :: "Deployment option \<Rightarrow> string \<times> string" where
  "available_health od = (case od of
       None \<Rightarrow> (ConditionFalse, ReasonDeploymentUnavailable)
     | Some d \<Rightarrow>
         if desired_replicas d = 0 then (ConditionTrue, ReasonDeploymentAvailable)
         else if stAvailableReplicas (depStatus d) = 0 then (ConditionFalse, ReasonDeploymentUnavailable)
         else if stAvailableReplicas (depStatus d) < desired_replicas d then (ConditionFalse, ReasonDeploymentNotReady)
         else (ConditionTrue, ReasonDeploymentAvailable))"

definition rolled_out :: "Deployment \<Rightarrow> bool" where
  "rolled_out d \<longleftrightarrow> Generation (depMeta d) \<le> stObservedGeneration (depStatus d) \<and>
     desired_replicas d \<le> stUpdatedReplicas (depStatus d) \<and>
     stReplicas (depStatus d) = stUpdatedReplicas (depStatus d) \<and>
     stUpdatedReplicas (depStatus d) \<le> stAvailableReplicas (depStatus d)"

definition progressing_health :: "Deployment option \<Rightarrow> string \<times> string" where
  "progressing_health od = (case od of
       None \<Rightarrow> (ConditionTrue, ReasonRolloutInProgress)
     | Some d \<Rightarrow> if rolled_out d then (ConditionFalse, ReasonRolloutComplete)
                 else (ConditionTrue, ReasonRolloutInProgress))"

lemma available_health_True:
  "fst (available_health (Some d)) = ConditionTrue \<longleftrightarrow>
     desired_replicas d = 0 \<or> (stAvailableReplicas (depStatus d) \<noteq> 0 \<and>
       desired_replicas d \<le> stAvailableReplicas (depStatus d))"
  by (auto simp: available_health_def)

text \<open>A rollout that is complete leaves an available Deployment, unless no replica was asked for
  and none exists or the counts are negative, which the API server never reports.\<close>

lemma rolled_out_available:
  assumes "rolled_out d" "0 \<le> desired_replicas d"
  shows "fst (available_health (Some d)) = ConditionTrue"
  using assms by (auto simp: available_health_True rolled_out_def)

subsection \<open>Conditions by type\<close>

definition has_condition :: "string \<Rightarrow> string \<times> string \<Rightarrow> Condition \<Rightarrow> bool" where
  "has_condition typ sr c \<longleftrightarrow> cType c = typ \<and> (cStatus c, cReason c) = sr"

subsection \<open>The contract\<close>

text \<open>
  \<open>pods\<close> is the pod of the target Deployment.  The laws: rendered objects live in the operator's
  namespace under distinct keys, none is a bare template with annotations of its own; the rollout
  target names the only Deployment, and ConfigMaps that exist with the hashed key; the pod
  consumes only hashed ConfigMaps and declared Secrets, selects itself, and mounts declared
  volumes; the conditions are the health of the target Deployment.
\<close>

locale component =
  fixes name :: "'c \<Rightarrow> string"
    and ns :: "'c \<Rightarrow> string"
    and render :: "'c \<Rightarrow> HyperFleetConfig \<Rightarrow> obj list result"
    and conditions :: "'c \<Rightarrow> obj list \<Rightarrow> Condition list"
    and rollout :: "'c \<Rightarrow> RolloutTarget"
    and secrets :: "'c \<Rightarrow> HyperFleetConfig \<Rightarrow> SecretReference list"
  assumes in_namespace: "render c cr = Inr obs \<Longrightarrow> ob \<in> set obs \<Longrightarrow> Namespace (obj_meta ob) = ns c"
    and keys_distinct: "render c cr = Inr obs \<Longrightarrow> distinct (map obj_key obs)"
    and one_deployment: "render c cr = Inr obs \<Longrightarrow>
      \<exists>d. filter is_deployment obs = [DeploymentObj d] \<and> Name (depMeta d) = DeploymentName (rollout c) \<and>
        Annotations (ptMeta (dsTemplate (depSpec d))) = Map.empty"
    and configs_rendered: "render c cr = Inr obs \<Longrightarrow> e \<in> set (ConfigEntries (rollout c)) \<Longrightarrow>
      \<exists>m v. find_configmap obs (ConfigMapName e) = Some m \<and> cmData m (ConfigFileKey e) = Some v"
    and configmaps_hashed: "render c cr = Inr obs \<Longrightarrow> DeploymentObj d \<in> set obs \<Longrightarrow>
      set (pod_configmaps (ptSpec (dsTemplate (depSpec d)))) = ConfigMapName ` set (ConfigEntries (rollout c))"
    and secrets_declared: "render c cr = Inr obs \<Longrightarrow> DeploymentObj d \<in> set obs \<Longrightarrow>
      set (pod_secrets (ptSpec (dsTemplate (depSpec d)))) = SecretName ` set (secrets c cr)"
    and roles_distinct: "distinct (map Role (secrets c cr))"
    and pod_wf: "render c cr = Inr obs \<Longrightarrow> DeploymentObj d \<in> set obs \<Longrightarrow>
      selects (dsSelector (depSpec d)) (Labels (ptMeta (dsTemplate (depSpec d)))) \<and>
      mounts_backed (ptSpec (dsTemplate (depSpec d)))"
    and health: "\<exists>a p. conditions c obs = [a, p] \<and>
      has_condition ConditionAvailable (available_health (find_deployment obs (DeploymentName (rollout c)))) a \<and>
      has_condition ConditionProgressing (progressing_health (find_deployment obs (DeploymentName (rollout c)))) p"
begin

lemma the_deployment:
  assumes "render c cr = Inr obs"
  obtains d where "find_deployment obs (DeploymentName (rollout c)) = Some d" "DeploymentObj d \<in> set obs"
    "\<And>e. DeploymentObj e \<in> set obs \<Longrightarrow> e = d" "Name (depMeta d) = DeploymentName (rollout c)"
    "Annotations (ptMeta (dsTemplate (depSpec d))) = Map.empty"
proof -
  from one_deployment [OF assms] obtain d where
    d: "filter is_deployment obs = [DeploymentObj d]" "Name (depMeta d) = DeploymentName (rollout c)"
      "Annotations (ptMeta (dsTemplate (depSpec d))) = Map.empty" by blast
  have mem: "DeploymentObj e \<in> set obs \<longleftrightarrow> e = d" for e
  proof -
    have "DeploymentObj e \<in> set obs \<longleftrightarrow> DeploymentObj e \<in> set (filter is_deployment obs)"
      by (simp add: is_deployment_def)
    then show ?thesis by (simp add: d(1))
  qed
  then have "find_deployment obs (DeploymentName (rollout c)) = Some d"
    using find_deployment_unique [OF keys_distinct [OF assms], of d "ns c"] in_namespace [OF assms] d(2) by auto
  with that d mem show thesis by blast
qed

lemma condition_types: "map cType (conditions c obs) = [ConditionAvailable, ConditionProgressing]"
  using health [of c obs] by (auto simp: has_condition_def)

end

end
