(* ===== verification/Sha256.thy ===== *)
theory Sha256
  imports Prelude
begin

section \<open>SHA-256 and hexadecimal digests\<close>

text \<open>
  \<^verbatim>\<open>crypto/sha256\<close> (FIPS 180-4) over 32-bit words that wrap around, and
  \<^verbatim>\<open>hex.EncodeToString\<close>.  The rest of the development uses only that a digest has 64
  hexadecimal digits and that it is a function of the message; that it is injective is false and
  nowhere assumed.
\<close>

type_synonym u32 = "32 word"

text \<open>The round constants and the initial state, in decimal.\<close>

definition sha_K :: "u32 list" where
  "sha_K =
    [1116352408, 1899447441, 3049323471, 3921009573, 961987163, 1508970993, 2453635748,
     2870763221, 3624381080, 310598401, 607225278, 1426881987, 1925078388, 2162078206,
     2614888103, 3248222580, 3835390401, 4022224774, 264347078, 604807628, 770255983,
     1249150122, 1555081692, 1996064986, 2554220882, 2821834349, 2952996808, 3210313671,
     3336571891, 3584528711, 113926993, 338241895, 666307205, 773529912, 1294757372,
     1396182291, 1695183700, 1986661051, 2177026350, 2456956037, 2730485921, 2820302411,
     3259730800, 3345764771, 3516065817, 3600352804, 4094571909, 275423344, 430227734,
     506948616, 659060556, 883997877, 958139571, 1322822218, 1537002063, 1747873779,
     1955562222, 2024104815, 2227730452, 2361852424, 2428436474, 2756734187, 3204031479,
     3329325298]"

definition sha_init :: "u32 list" where
  "sha_init = [1779033703, 3144134277, 1013904242, 2773480762, 1359893119, 2600822924, 528734635,
     1541459225]"

definition rotr :: "nat \<Rightarrow> u32 \<Rightarrow> u32" where
  "rotr n x = drop_bit n x OR push_bit (32 - n) x"

definition sha_ch :: "u32 \<Rightarrow> u32 \<Rightarrow> u32 \<Rightarrow> u32" where
  "sha_ch x y z = (x AND y) XOR (NOT x AND z)"

definition sha_maj :: "u32 \<Rightarrow> u32 \<Rightarrow> u32 \<Rightarrow> u32" where
  "sha_maj x y z = (x AND y) XOR (x AND z) XOR (y AND z)"

definition big_sigma0 :: "u32 \<Rightarrow> u32" where
  "big_sigma0 x = rotr 2 x XOR rotr 13 x XOR rotr 22 x"

definition big_sigma1 :: "u32 \<Rightarrow> u32" where
  "big_sigma1 x = rotr 6 x XOR rotr 11 x XOR rotr 25 x"

definition small_sigma0 :: "u32 \<Rightarrow> u32" where
  "small_sigma0 x = rotr 7 x XOR rotr 18 x XOR drop_bit 3 x"

definition small_sigma1 :: "u32 \<Rightarrow> u32" where
  "small_sigma1 x = rotr 17 x XOR rotr 19 x XOR drop_bit 10 x"

text \<open>The message schedule, extended by \<open>n\<close> words.\<close>

fun sha_schedule :: "nat \<Rightarrow> u32 list \<Rightarrow> u32 list" where
  "sha_schedule 0 ws = ws"
| "sha_schedule (Suc n) ws =
     (let t = length ws
      in sha_schedule n (ws @ [small_sigma1 (ws ! (t - 2)) + ws ! (t - 7) +
           small_sigma0 (ws ! (t - 15)) + ws ! (t - 16)]))"

text \<open>One round on the eight working variables.\<close>

fun sha_round :: "u32 \<times> u32 \<Rightarrow> u32 list \<Rightarrow> u32 list" where
  "sha_round (k, w) [a, b, c, d, e, f, g, h] =
     (let t1 = h + big_sigma1 e + sha_ch e f g + k + w;
          t2 = big_sigma0 a + sha_maj a b c
      in [t1 + t2, a, b, c, d + t1, e, f, g])"
| "sha_round _ st = st"

definition be_word :: "byte list \<Rightarrow> u32" where
  "be_word bs = fold (\<lambda>b acc. push_bit 8 acc OR ucast b) bs 0"

definition sha_block :: "u32 list \<Rightarrow> byte list \<Rightarrow> u32 list" where
  "sha_block st blk =
     map2 (+) st (fold sha_round
       (zip sha_K (sha_schedule 48 (map (\<lambda>i. be_word (take 4 (drop (4 * i) blk))) [0..<16]))) st)"

text \<open>Padding to a multiple of 64 bytes, with the bit length in the last eight.\<close>

definition be_bytes :: "nat \<Rightarrow> nat \<Rightarrow> byte list" where
  "be_bytes n v = map (\<lambda>i. word_of_nat (v div 256 ^ (n - 1 - i))) [0..<n]"

definition sha_pad :: "byte list \<Rightarrow> byte list" where
  "sha_pad m = m @ 0x80 # replicate ((119 - length m mod 64) mod 64) 0 @ be_bytes 8 (8 * length m)"

definition sha_blocks :: "byte list \<Rightarrow> byte list list" where
  "sha_blocks m = map (\<lambda>i. take 64 (drop (64 * i) m)) [0..<length m div 64]"

definition string_bytes :: "string \<Rightarrow> byte list" where
  "string_bytes s = map of_char s"

definition sha256_words :: "string \<Rightarrow> u32 list" where
  "sha256_words s = fold (\<lambda>blk st. sha_block st blk) (sha_blocks (sha_pad (string_bytes s))) sha_init"

definition sha256_Sum :: "string \<Rightarrow> byte list" where
  "sha256_Sum s = concat (map (\<lambda>w. be_bytes 4 (unat w)) (sha256_words s))"

definition hex_digit :: "nat \<Rightarrow> char" where
  "hex_digit n = (if n < 10 then char_of (48 + n) else char_of (87 + n))"

definition EncodeToString :: "byte list \<Rightarrow> string" where
  "EncodeToString bs = concat (map (\<lambda>b. [hex_digit (unat b div 16), hex_digit (unat b mod 16)]) bs)"

definition hex_sha256 :: "string \<Rightarrow> string" where
  "hex_sha256 s = EncodeToString (sha256_Sum s)"

subsection \<open>The shape of a digest\<close>

lemma length_sha_round [simp]: "length st = 8 \<Longrightarrow> length (sha_round kw st) = 8"
  by (cases "(kw, st)" rule: sha_round.cases) (auto simp: Let_def)

lemma length_fold_round: "length st = 8 \<Longrightarrow> length (fold sha_round kws st) = 8"
  by (induction kws arbitrary: st) simp_all

lemma length_sha_block: "length st = 8 \<Longrightarrow> length (sha_block st blk) = 8"
  by (simp add: sha_block_def length_fold_round)

lemma length_sha256_words: "length (sha256_words s) = 8"
proof -
  have "length st = 8 \<Longrightarrow> length (fold (\<lambda>blk st. sha_block st blk) bs st) = 8" for bs st
    by (induction bs arbitrary: st) (simp_all add: length_sha_block)
  then show ?thesis by (simp add: sha256_words_def sha_init_def)
qed

lemma length_be_bytes [simp]: "length (be_bytes n v) = n"
  by (simp add: be_bytes_def)

lemma length_concat_const: "(\<And>x. x \<in> set xs \<Longrightarrow> length (f x) = n) \<Longrightarrow> length (concat (map f xs)) = n * length xs"
  by (induction xs) simp_all

lemma length_hex_sha256 [simp]: "length (hex_sha256 s) = 64"
  by (simp add: hex_sha256_def EncodeToString_def sha256_Sum_def length_concat_const [of _ _ 2]
      length_concat_const [of _ _ 4] length_sha256_words)

lemma pad_aligned: "length (sha_pad m) mod 64 = 0"
proof -
  define q r where "q = length m div 64" and "r = length m mod 64"
  have m: "length m = q * 64 + r" "r < 64" by (simp_all add: q_def r_def)
  have "(119 - r) mod 64 = (if r \<le> 55 then 55 - r else 119 - r)"
  proof (cases "r \<le> 55")
    case True
    then have "119 - r = 55 - r + 64" by simp
    then have "(119 - r) mod 64 = (55 - r) mod 64" by (simp only: mod_add_self2)
    with True show ?thesis by simp
  qed (use m(2) in simp)
  then have "length (sha_pad m) = (if r \<le> 55 then q + 1 else q + 2) * 64"
    using m by (simp add: sha_pad_def flip: r_def)
  then show ?thesis by simp
qed

end
