(* ===== verification/Config_Hash.thy ===== *)
theory Config_Hash
  imports Component_Contract Sha256
begin

section \<open>The content-hash rollout\<close>

text \<open>
  \<^verbatim>\<open>internal/controller/hyperfleetconfig_rollout.go\<close>, lines 416 to 524: reading the resource
  version of each referenced Secret, the hash over the rendered configuration and those
  versions, and the annotation that carries it to the pod template.  The cluster is a parameter:
  a read is a function of the state \<open>'w\<close> of the outside world, which it may change.
\<close>

subsection \<open>Secret entries\<close>

record hashEntry =
  heId :: string
  hePresent :: bool
  heValue :: string

definition absent_entry :: "string \<Rightarrow> hashEntry" where
  "absent_entry i = \<lparr>heId = i, hePresent = False, heValue = []\<rparr>"

definition present_entry :: "string \<Rightarrow> string \<Rightarrow> hashEntry" where
  "present_entry i v = \<lparr>heId = i, hePresent = True, heValue = v\<rparr>"

fun resolveSecretEntries ::
  "(string \<Rightarrow> string \<Rightarrow> 'w \<Rightarrow> string result \<times> 'w) \<Rightarrow> string \<Rightarrow> SecretReference list \<Rightarrow> 'w \<Rightarrow>
     hashEntry list result \<times> 'w" where
  "resolveSecretEntries get operatorNamespace [] w = (Inr [], w)"
| "resolveSecretEntries get operatorNamespace (ref # refs) w =
     (case get operatorNamespace (SecretName ref) w of
        (Inl e, w) \<Rightarrow>
          if e = NotFound then
            (case resolveSecretEntries get operatorNamespace refs w of
               (Inl e, w) \<Rightarrow> (Inl e, w)
             | (Inr es, w) \<Rightarrow> (Inr (absent_entry (Role ref) # es), w))
          else (Inl (Wrapf ''get secret %q: %w'' [SecretName ref] e), w)
      | (Inr resourceVersion, w) \<Rightarrow>
          (case resolveSecretEntries get operatorNamespace refs w of
             (Inl e, w) \<Rightarrow> (Inl e, w)
           | (Inr es, w) \<Rightarrow> (Inr (present_entry (Role ref) resourceVersion # es), w)))"

subsection \<open>The hash\<close>

text \<open>The bytes that \<^verbatim>\<open>computeConfigHash\<close> writes to the digest: every field is preceded by its
  length and followed by a NUL byte, and a tag byte precedes the value of an entry.\<close>

definition writeField :: "string \<Rightarrow> string" where
  "writeField b = decimal (length b) @ '':'' @ b @ [CHR 0x00]"

definition write_entry :: "hashEntry \<Rightarrow> string" where
  "write_entry e = writeField (heId e) @
     (if hePresent e then CHR 0x01 # writeField (heValue e) else [CHR 0x00])"

definition config_preimage :: "string \<Rightarrow> hashEntry list \<Rightarrow> string" where
  "config_preimage configYAML entries =
     writeField configYAML @ concat (map write_entry (SortFunc heId entries))"

definition computeConfigHash :: "string \<Rightarrow> hashEntry list \<Rightarrow> string" where
  "computeConfigHash configYAML entries = hex_sha256 (config_preimage configYAML entries)"

subsection \<open>The stamp\<close>

definition configHashAnnotation :: string where
  "configHashAnnotation = ''hyperfleet.redhat.com/config-hash''"

text \<open>\<^verbatim>\<open>cm.Data[key]\<close> of an absent key is the empty string; an entry whose ConfigMap is not among
  the objects contributes nothing.\<close>

definition map_index :: "labels \<Rightarrow> string \<Rightarrow> string" where
  "map_index m k = (case m k of None \<Rightarrow> [] | Some v \<Rightarrow> v)"

definition config_documents :: "obj list \<Rightarrow> RolloutTarget \<Rightarrow> string list" where
  "config_documents obs target = concat (map (\<lambda>e. case find_configmap obs (ConfigMapName e) of
       None \<Rightarrow> []
     | Some cm \<Rightarrow> [map_index (cmData cm) (ConfigFileKey e)]) (ConfigEntries target))"

definition stamp_annotation :: "string \<Rightarrow> string \<Rightarrow> obj \<Rightarrow> obj" where
  "stamp_annotation deployment hash ob = (case ob of
       DeploymentObj d \<Rightarrow>
         if Name (depMeta d) \<noteq> deployment then ob
         else DeploymentObj (d\<lparr>depSpec := depSpec d\<lparr>dsTemplate := dsTemplate (depSpec d)
                \<lparr>ptMeta := ptMeta (dsTemplate (depSpec d))\<lparr>Annotations :=
                   (Annotations (ptMeta (dsTemplate (depSpec d))))(configHashAnnotation \<mapsto> hash)\<rparr>\<rparr>\<rparr>\<rparr>)
     | _ \<Rightarrow> ob)"

definition stampConfigHash :: "obj list \<Rightarrow> RolloutTarget \<Rightarrow> hashEntry list \<Rightarrow> obj list \<times> string" where
  "stampConfigHash obs target entries =
     (let configYAML = strings_Join (config_documents obs target) [CHR 0x00];
          hash = computeConfigHash configYAML entries
      in (map (stamp_annotation (DeploymentName target) hash) obs, hash))"

subsection \<open>Prefix codes\<close>

text \<open>
  An encoding whose words can be read off the front of any text.  Then the encoding of a list is
  read back word by word.
\<close>

locale prefix_code =
  fixes wf :: "'a \<Rightarrow> bool" and enc :: "'a \<Rightarrow> string"
  assumes front: "wf a \<Longrightarrow> wf b \<Longrightarrow> enc a @ r = enc b @ s \<Longrightarrow> a = b \<and> r = s"
    and nonempty: "wf a \<Longrightarrow> enc a \<noteq> []"
begin

lemma concat_inj:
  "list_all wf xs \<Longrightarrow> list_all wf ys \<Longrightarrow> concat (map enc xs) = concat (map enc ys) \<longleftrightarrow> xs = ys"
proof (induction xs arbitrary: ys)
  case Nil
  then show ?case by (cases ys) (use nonempty in auto)
next
  case (Cons x xs)
  show ?case
  proof (cases ys)
    case Nil
    with Cons.prems nonempty show ?thesis by auto
  next
    case (Cons y ys')
    with Cons.prems Cons.IH [of ys'] front [of x y "concat (map enc xs)" "concat (map enc ys')"]
    show ?thesis by auto
  qed
qed

end

lemma decimal_colon_front:
  assumes "decimal m @ CHR '':'' # r = decimal n @ CHR '':'' # s"
  shows "decimal m = decimal n \<and> r = s"
proof -
  have "CHR '':'' \<notin> set (decimal k)" for k
    by (auto dest: decimal_digits simp: is_digit_def)
  then have tw: "takeWhile (\<lambda>c. c \<noteq> CHR '':'') (decimal k @ CHR '':'' # t) = decimal k" for k t
    by (simp add: takeWhile_neq_append)
  from assms tw [of m r] tw [of n s] show ?thesis by simp
qed

lemma writeField_front: "writeField a @ r = writeField b @ s \<Longrightarrow> a = b \<and> r = s"
proof -
  assume eq: "writeField a @ r = writeField b @ s"
  then have "decimal (length a) = decimal (length b) \<and> a @ CHR 0x00 # r = b @ CHR 0x00 # s"
    by (intro decimal_colon_front) (simp add: writeField_def)
  moreover from this have "length a = length b" by (simp add: decimal_inj)
  ultimately show "a = b \<and> r = s" by auto
qed

text \<open>Entries as \<open>resolveSecretEntries\<close> builds them: an absent one carries no value.\<close>

definition wf_entry :: "hashEntry \<Rightarrow> bool" where
  "wf_entry e \<longleftrightarrow> hePresent e \<or> heValue e = []"

interpretation field_code: prefix_code "\<lambda>_. True" writeField
  by unfold_locales (blast dest: writeField_front, simp add: writeField_def)

interpretation entry_code: prefix_code wf_entry write_entry
proof
  fix a b :: hashEntry and r s
  assume wf: "wf_entry a" "wf_entry b" and eq: "write_entry a @ r = write_entry b @ s"
  let ?t = "\<lambda>e r. (if hePresent e then CHR 0x01 # writeField (heValue e) else [CHR 0x00]) @ r"
  have "writeField (heId a) @ ?t a r = writeField (heId b) @ ?t b s"
    using eq by (simp add: write_entry_def split: if_splits)
  then have i: "heId a = heId b" and t: "?t a r = ?t b s"
    by (blast dest: writeField_front)+
  from t have p: "hePresent a = hePresent b" by (auto split: if_splits)
  show "a = b \<and> r = s"
  proof (cases "hePresent a")
    case True
    with t p have "heValue a = heValue b \<and> r = s" by (auto dest: writeField_front)
    with i p show ?thesis by (cases a; cases b) simp
  next
    case False
    with t p wf i show ?thesis by (cases a; cases b) (simp add: wf_entry_def)
  qed
qed (simp add: write_entry_def writeField_def)

lemma config_preimage_eq:
  assumes "list_all wf_entry es" "list_all wf_entry es'"
  shows "config_preimage y es = config_preimage y' es' \<longleftrightarrow>
    y = y' \<and> SortFunc heId es = SortFunc heId es'"
proof
  assume "config_preimage y es = config_preimage y' es'"
  then have "y = y' \<and> concat (map write_entry (SortFunc heId es)) = concat (map write_entry (SortFunc heId es'))"
    unfolding config_preimage_def by (rule writeField_front)
  moreover have "list_all wf_entry (SortFunc heId es)" "list_all wf_entry (SortFunc heId es')"
    using assms by (simp_all add: list_all_iff)
  ultimately show "y = y' \<and> SortFunc heId es = SortFunc heId es'"
    by (simp add: entry_code.concat_inj)
qed (simp add: config_preimage_def)

lemma SortFunc_eq_iff:
  assumes "distinct (map key xs)"
  shows "SortFunc key xs = SortFunc key ys \<longleftrightarrow> mset xs = mset ys"
  using assms SortFunc_perm [of xs ys key] by (metis mset_SortFunc)

text \<open>
  C15: The rollout hash is taken over an unambiguous text: for entries with distinct ids, two inputs
  have the same preimage exactly when the configurations are equal and the entries are the same up
  to order.  In particular no field boundary can shift, an absent Secret differs from every
  present one, and the order in which components list their Secrets does not matter.
\<close>

theorem config_preimage_faithful:
  assumes "list_all wf_entry es" "list_all wf_entry es'" "distinct (map heId es)"
  shows "config_preimage y es = config_preimage y' es' \<longleftrightarrow> y = y' \<and> mset es = mset es'"
  using config_preimage_eq [OF assms(1,2)] SortFunc_eq_iff [OF assms(3)] by simp

theorem config_preimage_faithful_witness:
  "config_preimage ''a: 1'' [present_entry ''db'' ''7'', absent_entry ''tls''] =
     config_preimage ''a: 1'' [absent_entry ''tls'', present_entry ''db'' ''7''] \<and>
   config_preimage ''a: 1'' [present_entry ''db'' ''7'', absent_entry ''tls''] \<noteq>
     config_preimage ''a: 1'' [present_entry ''db'' ''7'', present_entry ''tls'' []]"
proof -
  let ?es = "[present_entry ''db'' ''7'', absent_entry ''tls'']"
  have wf: "list_all wf_entry ?es" "distinct (map heId ?es)"
    by (simp_all add: wf_entry_def present_entry_def absent_entry_def)
  from config_preimage_faithful [OF wf(1) _ wf(2), of "[absent_entry ''tls'', present_entry ''db'' ''7'']"]
    config_preimage_faithful [OF wf(1) _ wf(2), of "[present_entry ''db'' ''7'', present_entry ''tls'' []]"]
  show ?thesis
    by (auto simp: wf_entry_def present_entry_def absent_entry_def)
qed

subsection \<open>Reading the entries\<close>

text \<open>The entries carry the roles in order, and are well formed.\<close>

lemma resolveSecretEntries_roles:
  "resolveSecretEntries get n refs w = (Inr es, w') \<Longrightarrow> map heId es = map Role refs"
  by (induction refs arbitrary: w es)
     (auto simp: absent_entry_def present_entry_def split: prod.splits sum.splits if_splits)

lemma resolveSecretEntries_wf:
  "resolveSecretEntries get n refs w = (Inr es, w') \<Longrightarrow> list_all wf_entry es"
  by (induction refs arbitrary: w es)
     (auto simp: absent_entry_def present_entry_def wf_entry_def split: prod.splits sum.splits if_splits)

subsection \<open>Stamping\<close>

lemma obj_key_stamp [simp]: "obj_key (stamp_annotation n h ob) = obj_key ob"
  by (simp add: obj_key_def stamp_annotation_def split: obj.splits)

lemma obj_meta_stamp [simp]: "obj_meta (stamp_annotation n h ob) = obj_meta ob"
  by (simp add: stamp_annotation_def split: obj.splits)

lemma is_deployment_stamp [simp]: "is_deployment (stamp_annotation n h ob) = is_deployment ob"
  by (simp add: is_deployment_def stamp_annotation_def split: obj.splits)

lemma stamp_other: "\<not> is_deployment ob \<Longrightarrow> stamp_annotation n h ob = ob"
  by (simp add: is_deployment_def stamp_annotation_def split: obj.splits)

text \<open>The text that separates the documents cannot be mistaken for a part of one.\<close>

lemma strings_Join_Cons: "xs \<noteq> [] \<Longrightarrow> strings_Join (x # xs) sep = x @ sep @ strings_Join xs sep"
  by (cases xs) simp_all

lemma strings_Join_inj:
  assumes "length xs = length ys" "list_all (\<lambda>x. c \<notin> set x) xs" "list_all (\<lambda>x. c \<notin> set x) ys"
    and "strings_Join xs [c] = strings_Join ys [c]"
  shows "xs = ys"
  using assms
proof (induction xs ys rule: list_induct2)
  case (Cons x xs y ys)
  show ?case
  proof (cases "xs = []")
    case True
    with Cons show ?thesis by simp
  next
    case False
    with Cons have "ys \<noteq> []" by auto
    with False Cons.prems have eq: "x @ c # strings_Join xs [c] = y @ c # strings_Join ys [c]"
      by (simp add: strings_Join_Cons)
    then have "takeWhile (\<lambda>d. d \<noteq> c) (x @ c # strings_Join xs [c]) =
        takeWhile (\<lambda>d. d \<noteq> c) (y @ c # strings_Join ys [c])" by simp
    with Cons.prems have "x = y" by (simp add: takeWhile_neq_append)
    with eq Cons show ?thesis by simp
  qed
qed simp

context component
begin

lemma documents_complete:
  assumes "render c cr = Inr obs"
  shows "length (config_documents obs (rollout c)) = length (ConfigEntries (rollout c))"
    and "e \<in> set (ConfigEntries (rollout c)) \<Longrightarrow>
      \<exists>m. find_configmap obs (ConfigMapName e) = Some m \<and>
        cmData m (ConfigFileKey e) = Some (map_index (cmData m) (ConfigFileKey e))"
proof -
  have "es \<subseteq> set (ConfigEntries (rollout c)) \<Longrightarrow> es = set l \<Longrightarrow> length (concat (map (\<lambda>e. case find_configmap obs (ConfigMapName e) of
       None \<Rightarrow> []
     | Some cm \<Rightarrow> [map_index (cmData cm) (ConfigFileKey e)]) l)) = length l" for l es
    by (induction l arbitrary: es) (use configs_rendered [OF assms] in fastforce)+
  then show "length (config_documents obs (rollout c)) = length (ConfigEntries (rollout c))"
    by (simp add: config_documents_def)
  show "e \<in> set (ConfigEntries (rollout c)) \<Longrightarrow>
      \<exists>m. find_configmap obs (ConfigMapName e) = Some m \<and>
        cmData m (ConfigFileKey e) = Some (map_index (cmData m) (ConfigFileKey e))"
    using configs_rendered [OF assms] by (fastforce simp: map_index_def)
qed

lemma stamp_exact:
  assumes "render c cr = Inr obs" "stampConfigHash obs (rollout c) es = (obs', h)"
  shows "map obj_key obs' = map obj_key obs"
    and "filter (\<lambda>ob. \<not> is_deployment ob) obs' = filter (\<lambda>ob. \<not> is_deployment ob) obs"
    and "\<exists>d. filter is_deployment obs' = [DeploymentObj d] \<and> Name (depMeta d) = DeploymentName (rollout c) \<and>
      Annotations (ptMeta (dsTemplate (depSpec d))) = [configHashAnnotation \<mapsto> h]"
proof -
  have obs': "obs' = map (stamp_annotation (DeploymentName (rollout c)) h) obs"
    using assms(2) by (auto simp: stampConfigHash_def Let_def)
  then show "map obj_key obs' = map obj_key obs" by simp
  show "filter (\<lambda>ob. \<not> is_deployment ob) obs' = filter (\<lambda>ob. \<not> is_deployment ob) obs"
    unfolding obs' by (induction obs) (simp_all add: stamp_other)
  obtain d where d: "filter is_deployment obs = [DeploymentObj d]"
      "Name (depMeta d) = DeploymentName (rollout c)" "Annotations (ptMeta (dsTemplate (depSpec d))) = Map.empty"
    using one_deployment [OF assms(1)] by blast
  have "filter is_deployment obs' = map (stamp_annotation (DeploymentName (rollout c)) h) (filter is_deployment obs)"
    unfolding obs' by (simp add: filter_map comp_def)
  with d show "\<exists>d. filter is_deployment obs' = [DeploymentObj d] \<and> Name (depMeta d) = DeploymentName (rollout c) \<and>
      Annotations (ptMeta (dsTemplate (depSpec d))) = [configHashAnnotation \<mapsto> h]"
    by (simp add: stamp_annotation_def)
qed

text \<open>Equal preimages mean equal configuration documents and equal Secret versions.\<close>

lemma preimage_sensitive:
  assumes r: "render c cr = Inr obs" "render c cr' = Inr obs'"
    and nul: "list_all (\<lambda>x. CHR 0x00 \<notin> set x) (config_documents obs (rollout c))"
      "list_all (\<lambda>x. CHR 0x00 \<notin> set x) (config_documents obs' (rollout c))"
    and es: "resolveSecretEntries get n (secrets c cr) w = (Inr es, w1)"
      "resolveSecretEntries get' n' (secrets c cr') w' = (Inr es', w1')"
    and eq: "config_preimage (strings_Join (config_documents obs (rollout c)) [CHR 0x00]) es =
      config_preimage (strings_Join (config_documents obs' (rollout c)) [CHR 0x00]) es'"
  shows "config_documents obs (rollout c) = config_documents obs' (rollout c) \<and> mset es = mset es'"
proof -
  have d: "distinct (map heId es)"
    using roles_distinct [of c cr] resolveSecretEntries_roles [OF es(1)] by simp
  from eq have "strings_Join (config_documents obs (rollout c)) [CHR 0x00] =
      strings_Join (config_documents obs' (rollout c)) [CHR 0x00]" and m: "mset es = mset es'"
    using config_preimage_eq [OF resolveSecretEntries_wf [OF es(1)] resolveSecretEntries_wf [OF es(2)]]
      SortFunc_eq_iff [OF d] by auto
  then have "config_documents obs (rollout c) = config_documents obs' (rollout c)"
    using documents_complete(1) [OF r(1)] documents_complete(1) [OF r(2)] nul
    by (intro strings_Join_inj [where c = "CHR 0x00"]) auto
  with m show ?thesis by simp
qed

end

end
