(* ===== verification/Component_API.thy ===== *)
theory Component_API
  imports Config_Hash
begin

section \<open>The API component\<close>

text \<open>
  \<^verbatim>\<open>internal/component/api/{config,api,render}.go\<close>: the rendered \<^verbatim>\<open>config.yaml\<close> as a JSON tree, the
  six operands, the referenced Secrets, the rollout target and the conditions.  The YAML
  marshaller is third-party code and a parameter \<open>yaml\<close> of the definitions, which may fail.
\<close>

subsection \<open>Constants\<close>

definition DefaultImage :: string where
  "DefaultImage = ''quay.io/redhat-services-prod/hyperfleet-tenant/hyperfleet/hyperfleet-api:0.4.0''"

definition api_RelatedImageEnv :: string where "api_RelatedImageEnv = ''RELATED_IMAGE_HYPERFLEET_API''"
definition api_ResourceName :: string where "api_ResourceName = ''hyperfleet-api''"
definition api_ConfigMapName :: string where "api_ConfigMapName = ''hyperfleet-api-config''"
definition api_ConfigFileKey :: string where "api_ConfigFileKey = ''config.yaml''"
definition api_ComponentName :: string where "api_ComponentName = ''api''"
definition managedByOperator :: string where "managedByOperator = ''hyperfleet-operator''"
definition partOfHyperfleet :: string where "partOfHyperfleet = ''hyperfleet''"
definition portNameHTTP :: string where "portNameHTTP = ''http''"
definition portNameHTTPS :: string where "portNameHTTPS = ''https''"
definition portNameHealth :: string where "portNameHealth = ''health''"
definition portNameMetrics :: string where "portNameMetrics = ''metrics''"
definition api_portHTTP :: int where "api_portHTTP = 8000"
definition portHealth :: int where "portHealth = 8080"
definition portMetrics :: int where "portMetrics = 9090"
definition configMountPath :: string where "configMountPath = ''/etc/hyperfleet''"
definition configFilePath :: string where "configFilePath = ''/etc/hyperfleet/config.yaml''"
definition configVolume :: string where "configVolume = ''config''"
definition tmpVolume :: string where "tmpVolume = ''tmp''"
definition migrationContainerName :: string where "migrationContainerName = ''db-migrate''"
definition labelName :: string where "labelName = ''app.kubernetes.io/name''"
definition labelInstance :: string where "labelInstance = ''app.kubernetes.io/instance''"
definition labelComponent :: string where "labelComponent = ''app.kubernetes.io/component''"
definition labelPartOf :: string where "labelPartOf = ''app.kubernetes.io/part-of''"
definition labelManagedBy :: string where "labelManagedBy = ''app.kubernetes.io/managed-by''"

definition SecretKeyDBHost :: string where "SecretKeyDBHost = ''db.host''"
definition SecretKeyDBPort :: string where "SecretKeyDBPort = ''db.port''"
definition SecretKeyDBName :: string where "SecretKeyDBName = ''db.name''"
definition SecretKeyDBUser :: string where "SecretKeyDBUser = ''db.user''"
definition SecretKeyDBPassword :: string where "SecretKeyDBPassword = ''db.password''"
definition SecretKeyJWKS :: string where "SecretKeyJWKS = ''jwks.json''"
definition dbMountPath :: string where "dbMountPath = configMountPath @ ''/db''"
definition dbVolume :: string where "dbVolume = ''db''"
definition dbHostFilePath :: string where "dbHostFilePath = dbMountPath @ ''/'' @ SecretKeyDBHost"
definition dbPortFilePath :: string where "dbPortFilePath = dbMountPath @ ''/'' @ SecretKeyDBPort"
definition dbNameFilePath :: string where "dbNameFilePath = dbMountPath @ ''/'' @ SecretKeyDBName"
definition dbUsernameFilePath :: string where "dbUsernameFilePath = dbMountPath @ ''/'' @ SecretKeyDBUser"
definition dbPasswordFilePath :: string where "dbPasswordFilePath = dbMountPath @ ''/'' @ SecretKeyDBPassword"
definition tlsMountPath :: string where "tlsMountPath = configMountPath @ ''/tls''"
definition tlsCertFilePath :: string where "tlsCertFilePath = tlsMountPath @ ''/tls.crt''"
definition tlsKeyFilePath :: string where "tlsKeyFilePath = tlsMountPath @ ''/tls.key''"
definition tlsVolume :: string where "tlsVolume = ''tls''"
definition jwksMountPath :: string where "jwksMountPath = configMountPath @ ''/jwks''"
definition jwksFilePath :: string where "jwksFilePath = jwksMountPath @ ''/'' @ SecretKeyJWKS"
definition jwksVolume :: string where "jwksVolume = ''jwks''"
definition bindAllHost :: string where "bindAllHost = ''0.0.0.0''"

definition envConfig :: string where "envConfig = ''HYPERFLEET_CONFIG''"
definition envDBHostFile :: string where "envDBHostFile = ''HYPERFLEET_DATABASE_HOST_FILE''"
definition envDBPortFile :: string where "envDBPortFile = ''HYPERFLEET_DATABASE_PORT_FILE''"
definition envDBNameFile :: string where "envDBNameFile = ''HYPERFLEET_DATABASE_NAME_FILE''"
definition envDBUsernameFile :: string where "envDBUsernameFile = ''HYPERFLEET_DATABASE_USERNAME_FILE''"
definition envDBPasswordFile :: string where "envDBPasswordFile = ''HYPERFLEET_DATABASE_PASSWORD_FILE''"

lemmas volume_consts = configVolume_def tmpVolume_def dbVolume_def tlsVolume_def jwksVolume_def
lemmas label_consts = labelName_def labelInstance_def labelComponent_def labelPartOf_def labelManagedBy_def
lemmas path_consts = configMountPath_def configFilePath_def dbMountPath_def tlsMountPath_def jwksMountPath_def
  dbHostFilePath_def dbPortFilePath_def dbNameFilePath_def dbUsernameFilePath_def dbPasswordFilePath_def
  tlsCertFilePath_def tlsKeyFilePath_def jwksFilePath_def
lemmas secret_key_consts = SecretKeyDBHost_def SecretKeyDBPort_def SecretKeyDBName_def SecretKeyDBUser_def
  SecretKeyDBPassword_def SecretKeyJWKS_def

text \<open>The header, whose dash is the three-byte UTF-8 form of U+2014.\<close>

definition api_configHeader :: string where
  "api_configHeader = ''# HyperFleet API configuration '' @ [CHR 0xE2, CHR 0x80, CHR 0x94] @
     '' rendered by hyperfleet-operator from the'' @ [CHR 0x0A] @
     ''# HyperFleetConfig spec (HYPERFLEET-1408). Managed resource: manual edits are'' @ [CHR 0x0A] @
     ''# overwritten on the next reconcile.'' @ [CHR 0x0A]"

subsection \<open>Entities and the configuration file\<close>

record EntityDescriptor =
  edKind :: string
  edPlural :: string
  edParentKind :: string
  edSpecSchemaName :: string
  edOnParentDelete :: string
  edRequiredAdapters :: "string list"
  edNameMinLen :: int
  edNameMaxLen :: int
  edRequireSpecSchema :: bool

definition entity_json :: "EntityDescriptor \<Rightarrow> json" where
  "entity_json e = JObj
     ([(''kind'', JStr (edKind e)), (''plural'', JStr (edPlural e))] @
      omitempty ''parent_kind'' (edParentKind e = []) (JStr (edParentKind e)) @
      omitempty ''spec_schema_name'' (edSpecSchemaName e = []) (JStr (edSpecSchemaName e)) @
      omitempty ''on_parent_delete'' (edOnParentDelete e = []) (JStr (edOnParentDelete e)) @
      omitempty ''required_adapters'' (edRequiredAdapters e = []) (JArr (map JStr (edRequiredAdapters e))) @
      omitempty ''name_min_len'' (edNameMinLen e = 0) (JNum (edNameMinLen e)) @
      omitempty ''name_max_len'' (edNameMaxLen e = 0) (JNum (edNameMaxLen e)) @
      omitempty ''require_spec_schema'' (\<not> edRequireSpecSchema e) (JBool (edRequireSpecSchema e)))"

record api_configInput =
  ciAuthEnabled :: bool
  ciIssuer :: string
  ciAudience :: string
  ciJWKCertURL :: string
  ciJWKCertFile :: string
  ciTLSEnabled :: bool
  ciEntities :: "EntityDescriptor list"

definition endpoint_json :: "int \<Rightarrow> json" where
  "endpoint_json port = JObj [(''host'', JStr bindAllHost), (''port'', JNum port)]"

definition tls_json :: json where
  "tls_json = JObj [(''enabled'', JBool True), (''cert_file'', JStr tlsCertFilePath),
     (''key_file'', JStr tlsKeyFilePath)]"

definition issuer_json :: "api_configInput \<Rightarrow> json" where
  "issuer_json i = JObj
     ([(''issuer_url'', JStr (ciIssuer i))] @
      omitempty ''audience'' (ciAudience i = []) (JStr (ciAudience i)) @
      omitempty ''jwk_cert_url'' (ciJWKCertURL i = []) (JStr (ciJWKCertURL i)) @
      omitempty ''jwk_cert_file'' (ciJWKCertFile i = []) (JStr (ciJWKCertFile i)))"

definition jwt_json :: "api_configInput \<Rightarrow> json" where
  "jwt_json i = JObj ((''enabled'', JBool (ciAuthEnabled i)) #
     (if ciAuthEnabled i then [(''configs'', JArr [issuer_json i])] else []))"

definition api_config_json :: "api_configInput \<Rightarrow> json" where
  "api_config_json i = JObj
     ([(''server'', JObj
         ([(''host'', JStr bindAllHost), (''port'', JNum api_portHTTP)] @
          (if ciTLSEnabled i then [(''tls'', tls_json)] else []) @
          [(''jwt'', jwt_json i)])),
       (''health'', endpoint_json portHealth),
       (''metrics'', endpoint_json portMetrics)] @
      omitempty ''entities'' (ciEntities i = []) (JArr (map entity_json (ciEntities i))))"

definition api_renderConfig :: "(json \<Rightarrow> string result) \<Rightarrow> api_configInput \<Rightarrow> string result" where
  "api_renderConfig yaml i =
     (if ciAuthEnabled i \<and> ciJWKCertURL i = [] \<and> ciJWKCertFile i = []
      then Inl (Errorf ''auth enabled but no JWKS source resolved (neither URL nor file)'' [])
      else case yaml (api_config_json i) of
          Inl e \<Rightarrow> Inl (Wrapf ''marshal api config: %w'' [] e)
        | Inr out \<Rightarrow> Inr (api_configHeader @ out))"

subsection \<open>Helpers on the CR\<close>

definition AuthEnabled :: "HyperFleetConfig \<Rightarrow> bool" where
  "AuthEnabled cr = (case Enabled (Auth (API (Spec cr))) of None \<Rightarrow> True | Some b \<Rightarrow> b)"

definition TLSEnabled :: "HyperFleetConfig \<Rightarrow> bool" where
  "TLSEnabled cr = (TLS (API (Spec cr)) \<noteq> None)"

definition apiScheme :: "HyperFleetConfig \<Rightarrow> string" where
  "apiScheme cr = (if TLSEnabled cr then portNameHTTPS else portNameHTTP)"

definition apiAppProtocol :: "HyperFleetConfig \<Rightarrow> string option" where
  "apiAppProtocol cr = (if TLSEnabled cr then Some portNameHTTPS else None)"

definition APIBaseURL :: "HyperFleetConfig \<Rightarrow> string \<Rightarrow> string" where
  "APIBaseURL cr namespace =
     apiScheme cr @ ''://'' @ api_ResourceName @ ''.'' @ namespace @ ''.svc:'' @ itoa api_portHTTP"

subsection \<open>Operands\<close>

definition api_labels :: "string \<Rightarrow> labels" where
  "api_labels name =
     [labelName \<mapsto> api_ResourceName, labelInstance \<mapsto> name, labelComponent \<mapsto> api_ComponentName,
      labelPartOf \<mapsto> partOfHyperfleet, labelManagedBy \<mapsto> managedByOperator]"

definition api_selectorLabels :: "string \<Rightarrow> labels" where
  "api_selectorLabels name =
     [labelName \<mapsto> api_ResourceName, labelInstance \<mapsto> name, labelComponent \<mapsto> api_ComponentName]"

definition apiContainerResources :: ResourceRequirements where
  "apiContainerResources = \<lparr>
     rrLimits = [''cpu'' \<mapsto> ''500m'', ''memory'' \<mapsto> ''512Mi''],
     rrRequests = [''cpu'' \<mapsto> ''100m'', ''memory'' \<mapsto> ''128Mi'']\<rparr>"

definition apiContainerSecurityContext :: SecurityContext where
  "apiContainerSecurityContext = \<lparr>
     scAllowPrivilegeEscalation = Some False,
     scReadOnlyRootFilesystem = Some True,
     scCapabilitiesDrop = [''ALL''],
     scSeccompProfileType = ''RuntimeDefault''\<rparr>"

definition plain_env :: "string \<Rightarrow> string \<Rightarrow> EnvVar" where
  "plain_env n v = \<lparr>evName = n, evValue = v, evSecretKeyRef = None\<rparr>"

definition api_env :: "EnvVar list" where
  "api_env =
     [plain_env envConfig configFilePath,
      plain_env envDBHostFile dbHostFilePath,
      plain_env envDBPortFile dbPortFilePath,
      plain_env envDBNameFile dbNameFilePath,
      plain_env envDBUsernameFile dbUsernameFilePath,
      plain_env envDBPasswordFile dbPasswordFilePath]"

definition mount :: "string \<Rightarrow> string \<Rightarrow> bool \<Rightarrow> VolumeMount" where
  "mount n path ro = \<lparr>vmName = n, vmMountPath = path, vmSubPath = [], vmReadOnly = ro\<rparr>"

definition volume :: "string \<Rightarrow> VolumeSource \<Rightarrow> Volume" where
  "volume n src = \<lparr>volName = n, volSource = src\<rparr>"

definition api_volumeMounts :: "HyperFleetConfig \<Rightarrow> VolumeMount list" where
  "api_volumeMounts cr =
     [mount configVolume configMountPath True,
      mount dbVolume dbMountPath True,
      mount tmpVolume ''/tmp'' False] @
     (if TLS (API (Spec cr)) \<noteq> None then [mount tlsVolume tlsMountPath True] else []) @
     (if AuthEnabled cr \<and> JWKCertSecretRef (Auth (API (Spec cr))) \<noteq> None
      then [mount jwksVolume jwksMountPath True] else [])"

definition api_volumes :: "HyperFleetConfig \<Rightarrow> Volume list" where
  "api_volumes cr =
     [volume configVolume (ConfigMapVolume api_ConfigMapName),
      volume dbVolume (SecretVolume (srName (dbSecretRef (Database (API (Spec cr)))))),
      volume tmpVolume EmptyDirVolume] @
     (case TLS (API (Spec cr)) of
        None \<Rightarrow> []
      | Some t \<Rightarrow> [volume tlsVolume (SecretVolume (srName (tlsSecretRef t)))]) @
     (case JWKCertSecretRef (Auth (API (Spec cr))) of
        None \<Rightarrow> []
      | Some r \<Rightarrow> if AuthEnabled cr then [volume jwksVolume (SecretVolume (srName r))] else [])"

definition container_port :: "string \<Rightarrow> int \<Rightarrow> ContainerPort" where
  "container_port n p = \<lparr>cpName = n, cpContainerPort = p, cpProtocol = ''TCP''\<rparr>"

definition http_probe :: "string \<Rightarrow> string \<Rightarrow> int \<Rightarrow> int \<Rightarrow> int \<Rightarrow> int \<Rightarrow> Probe" where
  "http_probe path port initial period timeout failures =
     \<lparr>prPath = path, prPort = FromString port, prInitialDelaySeconds = initial,
      prPeriodSeconds = period, prTimeoutSeconds = timeout, prFailureThreshold = failures\<rparr>"

definition api_migration_container :: "HyperFleetConfig \<Rightarrow> string \<Rightarrow> Container" where
  "api_migration_container cr img = \<lparr>
     ctName = migrationContainerName, ctImage = img, ctImagePullPolicy = ''Always'',
     ctWorkingDir = ''/app'', ctCommand = [''/app/hyperfleet-api'', ''migrate''], ctArgs = [],
     ctPorts = [], ctEnv = api_env, ctLivenessProbe = None, ctReadinessProbe = None,
     ctResources = apiContainerResources, ctSecurityContext = Some apiContainerSecurityContext,
     ctVolumeMounts = api_volumeMounts cr\<rparr>"

definition api_container :: "HyperFleetConfig \<Rightarrow> string \<Rightarrow> Container" where
  "api_container cr img = \<lparr>
     ctName = api_ResourceName, ctImage = img, ctImagePullPolicy = ''Always'',
     ctWorkingDir = ''/app'', ctCommand = [], ctArgs = [''serve''],
     ctPorts = [container_port (apiScheme cr) api_portHTTP,
                container_port portNameHealth portHealth,
                container_port portNameMetrics portMetrics],
     ctEnv = api_env,
     ctLivenessProbe = Some (http_probe ''/healthz'' portNameHealth 15 20 5 3),
     ctReadinessProbe = Some (http_probe ''/readyz'' portNameHealth 5 5 3 3),
     ctResources = apiContainerResources, ctSecurityContext = Some apiContainerSecurityContext,
     ctVolumeMounts = api_volumeMounts cr\<rparr>"

definition api_pod :: "HyperFleetConfig \<Rightarrow> string \<Rightarrow> PodSpec" where
  "api_pod cr img = \<lparr>
     psAutomountServiceAccountToken = Some False,
     psServiceAccountName = api_ResourceName,
     psTerminationGracePeriodSeconds = Some 70,
     psRunAsNonRoot = Some True,
     psInitContainers = [api_migration_container cr img],
     psContainers = [api_container cr img],
     psVolumes = api_volumes cr\<rparr>"

definition api_deployment :: "HyperFleetConfig \<Rightarrow> string \<Rightarrow> string \<Rightarrow> Deployment" where
  "api_deployment cr img namespace = \<lparr>
     depMeta = object_meta api_ResourceName namespace (api_labels (crName cr)),
     depSpec = \<lparr>
       dsReplicas = Some 1,
       dsSelector = api_selectorLabels (crName cr),
       dsStrategyType = ''RollingUpdate'',
       dsMaxSurge = Some (FromInt 1),
       dsMaxUnavailable = Some (FromInt 0),
       dsTemplate = \<lparr>ptMeta = object_meta [] [] (api_labels (crName cr)), ptSpec = api_pod cr img\<rparr>\<rparr>,
     depStatus = zero_status\<rparr>"

definition service_port :: "string \<Rightarrow> int \<Rightarrow> string option \<Rightarrow> ServicePort" where
  "service_port n p app = \<lparr>spName = n, spPort = p, spTargetPort = FromString n,
     spProtocol = ''TCP'', spAppProtocol = app\<rparr>"

definition api_service :: "HyperFleetConfig \<Rightarrow> string \<Rightarrow> Service" where
  "api_service cr namespace = \<lparr>
     svcMeta = object_meta api_ResourceName namespace (api_labels (crName cr)),
     svcType = ''ClusterIP'',
     svcSelector = api_selectorLabels (crName cr),
     svcPorts = [service_port (apiScheme cr) api_portHTTP (apiAppProtocol cr),
                 service_port portNameHealth portHealth None,
                 service_port portNameMetrics portMetrics None]\<rparr>"

definition api_serviceAccount :: "HyperFleetConfig \<Rightarrow> string \<Rightarrow> ServiceAccount" where
  "api_serviceAccount cr namespace =
     \<lparr>saMeta = object_meta api_ResourceName namespace (api_labels (crName cr))\<rparr>"

definition api_configMap :: "HyperFleetConfig \<Rightarrow> string \<Rightarrow> string \<Rightarrow> ConfigMap" where
  "api_configMap cr namespace configYAML =
     \<lparr>cmMeta = object_meta api_ConfigMapName namespace (api_labels (crName cr)),
      cmData = [api_ConfigFileKey \<mapsto> configYAML]\<rparr>"

definition api_role :: "HyperFleetConfig \<Rightarrow> string \<Rightarrow> Role" where
  "api_role cr namespace =
     \<lparr>roMeta = object_meta api_ResourceName namespace (api_labels (crName cr)), roRules = []\<rparr>"

definition api_roleBinding :: "HyperFleetConfig \<Rightarrow> string \<Rightarrow> RoleBinding" where
  "api_roleBinding cr namespace =
     \<lparr>rbMeta = object_meta api_ResourceName namespace (api_labels (crName cr)),
      rbRoleRef = (''rbac.authorization.k8s.io'', ''Role'', api_ResourceName),
      rbSubjects = [(''ServiceAccount'', api_ResourceName, namespace)]\<rparr>"

subsection \<open>The component\<close>

record api_Component =
  acImage :: string
  acNamespace :: string
  acEntities :: "EntityDescriptor list"
  acResolvedJWKSURL :: string

definition api_New :: "string \<Rightarrow> string \<Rightarrow> EntityDescriptor list \<Rightarrow> api_Component" where
  "api_New img namespace entities =
     \<lparr>acImage = img, acNamespace = namespace, acEntities = entities, acResolvedJWKSURL = []\<rparr>"

definition api_Name :: "api_Component \<Rightarrow> string" where
  "api_Name c = api_ComponentName"

definition api_Rollout :: "api_Component \<Rightarrow> RolloutTarget" where
  "api_Rollout c = \<lparr>
     ConfigEntries = [\<lparr>ConfigMapName = api_ConfigMapName, ConfigFileKey = api_ConfigFileKey\<rparr>],
     DeploymentName = api_ResourceName\<rparr>"

definition api_ReferencedSecrets :: "api_Component \<Rightarrow> HyperFleetConfig \<Rightarrow> SecretReference list" where
  "api_ReferencedSecrets c cr =
     [\<lparr>Role = ''database'', SecretName = srName (dbSecretRef (Database (API (Spec cr))))\<rparr>] @
     (case TLS (API (Spec cr)) of
        None \<Rightarrow> []
      | Some t \<Rightarrow> [\<lparr>Role = ''tls'', SecretName = srName (tlsSecretRef t)\<rparr>]) @
     (case JWKCertSecretRef (Auth (API (Spec cr))) of
        None \<Rightarrow> []
      | Some r \<Rightarrow> if AuthEnabled cr then [\<lparr>Role = ''jwks'', SecretName = srName r\<rparr>] else [])"

definition resolveJWKSource :: "api_Component \<Rightarrow> HyperFleetConfig \<Rightarrow> string \<times> string" where
  "resolveJWKSource c cr =
     (if \<not> AuthEnabled cr then ([], [])
      else if JWKCertSecretRef (Auth (API (Spec cr))) \<noteq> None then ([], jwksFilePath)
      else (acResolvedJWKSURL c, []))"

definition api_config_of :: "api_Component \<Rightarrow> HyperFleetConfig \<Rightarrow> api_configInput" where
  "api_config_of c cr = (case resolveJWKSource c cr of (jwkURL, jwkFile) \<Rightarrow> \<lparr>
     ciAuthEnabled = AuthEnabled cr,
     ciIssuer = Issuer (Auth (API (Spec cr))),
     ciAudience = Audience (Auth (API (Spec cr))),
     ciJWKCertURL = jwkURL,
     ciJWKCertFile = jwkFile,
     ciTLSEnabled = (TLS (API (Spec cr)) \<noteq> None),
     ciEntities = acEntities c\<rparr>)"

definition api_Render :: "(json \<Rightarrow> string result) \<Rightarrow> api_Component \<Rightarrow> HyperFleetConfig \<Rightarrow> obj list result" where
  "api_Render yaml c cr =
     (let img = (if acImage c = [] then DefaultImage else acImage c)
      in case api_renderConfig yaml (api_config_of c cr) of
           Inl e \<Rightarrow> Inl (Wrapf ''render api config: %w'' [] e)
         | Inr configYAML \<Rightarrow> Inr
             [ServiceAccountObj (api_serviceAccount cr (acNamespace c)),
              RoleObj (api_role cr (acNamespace c)),
              RoleBindingObj (api_roleBinding cr (acNamespace c)),
              ConfigMapObj (api_configMap cr (acNamespace c) configYAML),
              ServiceObj (api_service cr (acNamespace c)),
              DeploymentObj (api_deployment cr img (acNamespace c))])"

subsection \<open>Conditions\<close>

definition api_findDeployment :: "obj list \<Rightarrow> Deployment option" where
  "api_findDeployment applied = find_deployment applied api_ResourceName"

definition api_desiredReplicas :: "Deployment \<Rightarrow> int" where
  "api_desiredReplicas d = (case dsReplicas (depSpec d) of Some n \<Rightarrow> n | None \<Rightarrow> 1)"

definition api_availableCondition :: "Deployment option \<Rightarrow> Condition" where
  "api_availableCondition dep =
     (case dep of
        None \<Rightarrow> condition ConditionAvailable ConditionFalse ReasonDeploymentUnavailable
          ''the API Deployment does not exist''
      | Some d \<Rightarrow>
          let desired = api_desiredReplicas d; available = stAvailableReplicas (depStatus d) in
          if desired = 0 then
            condition ConditionAvailable ConditionTrue ReasonDeploymentAvailable
              ''the API Deployment is scaled to zero''
          else if available = 0 then
            condition ConditionAvailable ConditionFalse ReasonDeploymentUnavailable
              ''the API Deployment has no available replicas''
          else if available < desired then
            condition ConditionAvailable ConditionFalse ReasonDeploymentNotReady
              (''the API Deployment has '' @ itoa available @ ''/'' @ itoa desired @ '' replicas available'')
          else
            condition ConditionAvailable ConditionTrue ReasonDeploymentAvailable
              ''the API Deployment is available'')"

definition api_progressingCondition :: "Deployment option \<Rightarrow> Condition" where
  "api_progressingCondition dep =
     (case dep of
        None \<Rightarrow> condition ConditionProgressing ConditionTrue ReasonRolloutInProgress
          ''the API Deployment does not exist yet''
      | Some d \<Rightarrow>
          let desired = api_desiredReplicas d; st = depStatus d in
          if stObservedGeneration st < Generation (depMeta d) \<or>
             stUpdatedReplicas st < desired \<or>
             stReplicas st \<noteq> stUpdatedReplicas st \<or>
             stAvailableReplicas st < stUpdatedReplicas st
          then condition ConditionProgressing ConditionTrue ReasonRolloutInProgress
            ''the API Deployment rollout has not completed''
          else condition ConditionProgressing ConditionFalse ReasonRolloutComplete
            ''the API Deployment rollout is complete'')"

definition api_Conditions :: "api_Component \<Rightarrow> obj list \<Rightarrow> Condition list" where
  "api_Conditions c applied =
     (let dep = api_findDeployment applied
      in [api_availableCondition dep, api_progressingCondition dep])"

subsection \<open>The contract holds\<close>

lemmas api_consts = api_ResourceName_def api_ConfigMapName_def api_ConfigFileKey_def api_ComponentName_def

text \<open>The objects of a successful rendering.\<close>

lemma api_Render_cases:
  assumes "api_Render yaml c cr = Inr obs"
  obtains y img where "api_renderConfig yaml (api_config_of c cr) = Inr y"
    "obs = [ServiceAccountObj (api_serviceAccount cr (acNamespace c)),
            RoleObj (api_role cr (acNamespace c)),
            RoleBindingObj (api_roleBinding cr (acNamespace c)),
            ConfigMapObj (api_configMap cr (acNamespace c) y),
            ServiceObj (api_service cr (acNamespace c)),
            DeploymentObj (api_deployment cr img (acNamespace c))]"
    "img = (if acImage c = [] then DefaultImage else acImage c)"
  using assms by (auto simp: api_Render_def Let_def split: sum.splits)

lemma object_meta_sel [simp]:
  "Name (object_meta n ns l) = n" "Namespace (object_meta n ns l) = ns" "Labels (object_meta n ns l) = l"
  "Annotations (object_meta n ns l) = Map.empty" "Generation (object_meta n ns l) = 0"
  by (simp_all add: object_meta_def)

lemma api_deployment_sel [simp]:
  "depMeta (api_deployment cr img ns) = object_meta api_ResourceName ns (api_labels (crName cr))"
  "dsSelector (depSpec (api_deployment cr img ns)) = api_selectorLabels (crName cr)"
  "ptMeta (dsTemplate (depSpec (api_deployment cr img ns))) = object_meta [] [] (api_labels (crName cr))"
  "ptSpec (dsTemplate (depSpec (api_deployment cr img ns))) = api_pod cr img"
  by (simp_all add: api_deployment_def)

lemma api_metas [simp]:
  "saMeta (api_serviceAccount cr ns) = object_meta api_ResourceName ns (api_labels (crName cr))"
  "roMeta (api_role cr ns) = object_meta api_ResourceName ns (api_labels (crName cr))"
  "rbMeta (api_roleBinding cr ns) = object_meta api_ResourceName ns (api_labels (crName cr))"
  "cmMeta (api_configMap cr ns y) = object_meta api_ConfigMapName ns (api_labels (crName cr))"
  "cmData (api_configMap cr ns y) = [api_ConfigFileKey \<mapsto> y]"
  "svcMeta (api_service cr ns) = object_meta api_ResourceName ns (api_labels (crName cr))"
  by (simp_all add: api_serviceAccount_def api_role_def api_roleBinding_def api_configMap_def api_service_def)

lemma mount_sel [simp]:
  "vmName (mount n p r) = n" "vmMountPath (mount n p r) = p" "vmReadOnly (mount n p r) = r"
  "volName (volume n s) = n" "volSource (volume n s) = s"
  by (simp_all add: mount_def volume_def)

lemma api_selects: "selects (api_selectorLabels n) (api_labels n)"
  by (simp add: selects_def api_selectorLabels_def api_labels_def map_le_def label_consts)

lemma plain_env_secrets [simp]: "env_secrets (plain_env n v) = []"
  by (simp add: env_secrets_def plain_env_def)

lemma api_pod_sel [simp]:
  "psInitContainers (api_pod cr img) = [api_migration_container cr img]"
  "psContainers (api_pod cr img) = [api_container cr img]"
  "psVolumes (api_pod cr img) = api_volumes cr"
  "ctVolumeMounts (api_container cr img) = api_volumeMounts cr"
  "ctVolumeMounts (api_migration_container cr img) = api_volumeMounts cr"
  "ctEnv (api_container cr img) = api_env" "ctEnv (api_migration_container cr img) = api_env"
  by (simp_all add: api_pod_def api_container_def api_migration_container_def)

lemma api_mounts_backed: "mounts_backed (api_pod cr img)"
  by (auto simp: mounts_backed_def api_volumeMounts_def api_volumes_def split: option.splits)

lemma api_pod_configmaps: "pod_configmaps (api_pod cr img) = [api_ConfigMapName]"
  by (auto simp: pod_configmaps_def volume_configmaps_def api_volumes_def split: option.splits)

lemma api_pod_secrets: "pod_secrets (api_pod cr img) = map SecretName (api_ReferencedSecrets c cr)"
  by (auto simp: pod_secrets_def volume_secrets_def api_volumes_def api_env_def api_ReferencedSecrets_def
      split: option.splits)

lemma api_desired_eq: "api_desiredReplicas d = desired_replicas d"
  by (simp add: api_desiredReplicas_def desired_replicas_def)

lemma api_available_health: "has_condition ConditionAvailable (available_health od) (api_availableCondition od)"
  by (auto simp: has_condition_def api_availableCondition_def available_health_def api_desired_eq Let_def
      split: option.splits)

lemma api_progressing_health: "has_condition ConditionProgressing (progressing_health od) (api_progressingCondition od)"
  by (auto simp: has_condition_def api_progressingCondition_def progressing_health_def rolled_out_def
      api_desired_eq Let_def split: option.splits)

interpretation api: component api_Name acNamespace "api_Render yaml" api_Conditions api_Rollout api_ReferencedSecrets
  for yaml
proof unfold_locales
  fix c cr obs
  assume r: "api_Render yaml c cr = Inr obs"
  from r show "ob \<in> set obs \<Longrightarrow> Namespace (obj_meta ob) = acNamespace c" for ob
    by (rule api_Render_cases) auto
  from r show "distinct (map obj_key obs)"
    by (rule api_Render_cases) (simp add: obj_key_def)
  from r show "\<exists>d. filter is_deployment obs = [DeploymentObj d] \<and>
      Name (depMeta d) = DeploymentName (api_Rollout c) \<and> Annotations (ptMeta (dsTemplate (depSpec d))) = Map.empty"
    by (rule api_Render_cases) (simp add: is_deployment_def api_Rollout_def)
  from r show "e \<in> set (ConfigEntries (api_Rollout c)) \<Longrightarrow>
      \<exists>m v. find_configmap obs (ConfigMapName e) = Some m \<and> cmData m (ConfigFileKey e) = Some v" for e
    by (rule api_Render_cases) (simp add: api_Rollout_def)
  fix d
  assume "DeploymentObj d \<in> set obs"
  with r obtain img where d: "d = api_deployment cr img (acNamespace c)"
    by (auto elim: api_Render_cases)
  show "set (pod_configmaps (ptSpec (dsTemplate (depSpec d)))) = ConfigMapName ` set (ConfigEntries (api_Rollout c))"
    by (simp add: d api_pod_configmaps api_Rollout_def)
  show "set (pod_secrets (ptSpec (dsTemplate (depSpec d)))) = SecretName ` set (api_ReferencedSecrets c cr)"
    by (simp add: d api_pod_secrets [of _ _ c])
  show "selects (dsSelector (depSpec d)) (Labels (ptMeta (dsTemplate (depSpec d)))) \<and>
      mounts_backed (ptSpec (dsTemplate (depSpec d)))"
    by (simp add: d api_selects api_mounts_backed)
next
  show "distinct (map Role (api_ReferencedSecrets c cr))" for c cr
    by (auto simp: api_ReferencedSecrets_def split: option.splits)
  show "\<exists>a p. api_Conditions c obs = [a, p] \<and>
      has_condition ConditionAvailable (available_health (find_deployment obs (DeploymentName (api_Rollout c)))) a \<and>
      has_condition ConditionProgressing (progressing_health (find_deployment obs (DeploymentName (api_Rollout c)))) p" for c obs
    by (simp add: api_Conditions_def Let_def api_findDeployment_def api_Rollout_def api_available_health api_progressing_health)
qed

subsection \<open>Properties\<close>

lemma auth_secret_cases:
  obtains (none) "JWKCertSecretRef (Auth (API (Spec cr))) = None"
  | (off) r where "JWKCertSecretRef (Auth (API (Spec cr))) = Some r" "\<not> AuthEnabled cr"
  | (on) r where "JWKCertSecretRef (Auth (API (Spec cr))) = Some r" "AuthEnabled cr"
  by blast

text \<open>
  Every file path that the rendered pod and configuration mention is provided by the volume it
  is meant to come from, in both containers: the configuration by the rendered ConfigMap, the five
  database files by the database Secret, the TLS certificate and key by the TLS Secret exactly when
  TLS is configured, and the key-set file by the JWKS Secret exactly when authentication is on and
  that Secret is referenced.
\<close>

theorem api_paths_mounted:
  assumes "k \<in> {api_migration_container cr img, api_container cr img}"
  shows "mounted_source (api_pod cr img) k configFilePath = Some (ConfigMapVolume api_ConfigMapName)
    \<and> list_all (\<lambda>e. evName e = envConfig \<or> mounted_source (api_pod cr img) k (evValue e) =
          Some (SecretVolume (srName (dbSecretRef (Database (API (Spec cr))))))) (ctEnv k)
    \<and> (case TLS (API (Spec cr)) of
         None \<Rightarrow> json_at [''server'', ''tls''] (api_config_json (api_config_of c cr)) = None
       | Some t \<Rightarrow> (\<exists>p q. json_at [''server'', ''tls'', ''cert_file''] (api_config_json (api_config_of c cr)) = Some (JStr p)
           \<and> json_at [''server'', ''tls'', ''key_file''] (api_config_json (api_config_of c cr)) = Some (JStr q)
           \<and> mounted_source (api_pod cr img) k p = Some (SecretVolume (srName (tlsSecretRef t)))
           \<and> mounted_source (api_pod cr img) k q = Some (SecretVolume (srName (tlsSecretRef t)))))
    \<and> (case JWKCertSecretRef (Auth (API (Spec cr))) of
         None \<Rightarrow> json_at [''jwk_cert_file''] (issuer_json (api_config_of c cr)) = None
       | Some r \<Rightarrow> if AuthEnabled cr
           then \<exists>p. json_at [''jwk_cert_file''] (issuer_json (api_config_of c cr)) = Some (JStr p)
             \<and> mounted_source (api_pod cr img) k p = Some (SecretVolume (srName r))
           else json_at [''jwk_cert_file''] (issuer_json (api_config_of c cr)) = None)"
proof -
  have m: "ctVolumeMounts k = api_volumeMounts cr" "ctEnv k = api_env" using assms by auto
  have src: "mounted_source (api_pod cr img) k path =
     (case longest (under_mount path) (\<lambda>m. length (vmMountPath m)) (api_volumeMounts cr) None of
        None \<Rightarrow> None
      | Some m \<Rightarrow> map_of (map (\<lambda>v. (volName v, volSource v)) (api_volumes cr)) (vmName m))" for path
    by (simp only: mounted_source_def m api_pod_sel)
  note eval = src api_volumeMounts_def api_volumes_def under_mount_def HasPrefix_def path_consts
    secret_key_consts volume_consts
  have "mounted_source (api_pod cr img) k configFilePath = Some (ConfigMapVolume api_ConfigMapName)"
    by (simp add: eval)
  moreover have "list_all (\<lambda>e. evName e = envConfig \<or> mounted_source (api_pod cr img) k (evValue e) =
          Some (SecretVolume (srName (dbSecretRef (Database (API (Spec cr))))))) (ctEnv k)"
    by (simp add: m api_env_def plain_env_def) (simp add: eval)
  ultimately show ?thesis
    by (auto simp: api_config_json_def tls_json_def api_config_of_def resolveJWKSource_def issuer_json_def
         omitempty_def eval split: option.splits)
qed

theorem api_paths_mounted_witness:
  "mounted_source (api_pod (example_config None None None) ''i'')
     (api_container (example_config None None None) ''i'') configFilePath =
   Some (ConfigMapVolume api_ConfigMapName)"
  by (rule conjunct1 [OF api_paths_mounted]) simp

lemma api_Render_ok:
  "\<not> isl (api_Render yaml c cr) \<longleftrightarrow>
     \<not> isl (yaml (api_config_json (api_config_of c cr))) \<and>
     (AuthEnabled cr \<and> JWKCertSecretRef (Auth (API (Spec cr))) = None \<longrightarrow> acResolvedJWKSURL c \<noteq> [])"
proof -
  have ne: "jwksFilePath \<noteq> []" by (simp add: path_consts)
  have "\<not> isl (api_Render yaml c cr) \<longleftrightarrow> \<not> isl (api_renderConfig yaml (api_config_of c cr))"
    by (simp add: api_Render_def Let_def split: sum.splits)
  also have "\<dots> \<longleftrightarrow> \<not> isl (yaml (api_config_json (api_config_of c cr))) \<and> \<not> (ciAuthEnabled (api_config_of c cr) \<and>
      ciJWKCertURL (api_config_of c cr) = [] \<and> ciJWKCertFile (api_config_of c cr) = [])"
    by (simp add: api_renderConfig_def split: sum.splits)
  also have "(ciAuthEnabled (api_config_of c cr) \<and> ciJWKCertURL (api_config_of c cr) = [] \<and>
      ciJWKCertFile (api_config_of c cr) = []) \<longleftrightarrow>
      AuthEnabled cr \<and> JWKCertSecretRef (Auth (API (Spec cr))) = None \<and> acResolvedJWKSURL c = []"
    using ne by (simp add: api_config_of_def resolveJWKSource_def)
  finally show ?thesis by blast
qed

text \<open>
  C34: Rendering the API succeeds exactly when the YAML marshaller does and, with authentication
  on, a key-set source was resolved; the configuration then names exactly one source: the mounted
  file if the CR references a Secret and the discovered URL otherwise, and no issuer at all when
  authentication is off.
\<close>

theorem api_render_jwks_source:
  "(\<not> isl (api_Render yaml c cr) \<longleftrightarrow>
      \<not> isl (yaml (api_config_json (api_config_of c cr))) \<and>
      (AuthEnabled cr \<and> JWKCertSecretRef (Auth (API (Spec cr))) = None \<longrightarrow> acResolvedJWKSURL c \<noteq> [])) \<and>
   json_at [''server'', ''jwt'', ''enabled''] (api_config_json (api_config_of c cr)) = Some (JBool (AuthEnabled cr)) \<and>
   json_at [''server'', ''jwt'', ''configs''] (api_config_json (api_config_of c cr)) =
     (if AuthEnabled cr then Some (JArr [JObj
        ([(''issuer_url'', JStr (Issuer (Auth (API (Spec cr)))))] @
         omitempty ''audience'' (Audience (Auth (API (Spec cr))) = []) (JStr (Audience (Auth (API (Spec cr))))) @
         (if JWKCertSecretRef (Auth (API (Spec cr))) \<noteq> None then [(''jwk_cert_file'', JStr jwksFilePath)]
          else omitempty ''jwk_cert_url'' (acResolvedJWKSURL c = []) (JStr (acResolvedJWKSURL c))))])
      else None)"
proof (intro conjI)
  have ne: "jwksFilePath \<noteq> []" by (simp add: path_consts)
  show "\<not> isl (api_Render yaml c cr) \<longleftrightarrow>
      \<not> isl (yaml (api_config_json (api_config_of c cr))) \<and>
      (AuthEnabled cr \<and> JWKCertSecretRef (Auth (API (Spec cr))) = None \<longrightarrow> acResolvedJWKSURL c \<noteq> [])"
  by (rule api_Render_ok)
  show "json_at [''server'', ''jwt'', ''enabled''] (api_config_json (api_config_of c cr)) = Some (JBool (AuthEnabled cr))"
    by (simp add: api_config_json_def jwt_json_def api_config_of_def split: prod.splits)
  show "json_at [''server'', ''jwt'', ''configs''] (api_config_json (api_config_of c cr)) =
     (if AuthEnabled cr then Some (JArr [JObj
        ([(''issuer_url'', JStr (Issuer (Auth (API (Spec cr)))))] @
         omitempty ''audience'' (Audience (Auth (API (Spec cr))) = []) (JStr (Audience (Auth (API (Spec cr))))) @
         (if JWKCertSecretRef (Auth (API (Spec cr))) \<noteq> None then [(''jwk_cert_file'', JStr jwksFilePath)]
          else omitempty ''jwk_cert_url'' (acResolvedJWKSURL c = []) (JStr (acResolvedJWKSURL c))))])
      else None)"
    using ne by (simp add: api_config_json_def jwt_json_def issuer_json_def api_config_of_def
        resolveJWKSource_def omitempty_def)
qed

theorem api_render_jwks_source_witness:
  "isl (api_Render (\<lambda>_. Inr ''yaml'') (api_New [] ''ns'' []) (example_config None None None)) \<and>
   \<not> isl (api_Render (\<lambda>_. Inr ''yaml'') (api_New [] ''ns'' []) (example_config (Some False) None None))"
  using api_render_jwks_source [of "\<lambda>_. Inr ''yaml''" "api_New [] ''ns'' []" "example_config None None None"]
    api_render_jwks_source [of "\<lambda>_. Inr ''yaml''" "api_New [] ''ns'' []" "example_config (Some False) None None"]
  by (simp add: AuthEnabled_def api_New_def)

text \<open>
  The API Service reaches the API container: its selector matches the pod labels, and each of
  its ports targets, by name, a declared container port with the same number; the first port is
  named after the scheme of the base URL that the Sentinels use and announces \<^verbatim>\<open>https\<close> exactly when
  TLS is configured; both probes use a declared port.
\<close>

theorem api_service_reaches_pod:
  "selects (svcSelector (api_service cr n)) (Labels (ptMeta (dsTemplate (depSpec (api_deployment cr img n))))) \<and>
   list_all (\<lambda>p. list_ex (\<lambda>q. spTargetPort p = FromString (cpName q) \<and> spPort p = cpContainerPort q \<and>
       spProtocol p = cpProtocol q) (ctPorts (api_container cr img))) (svcPorts (api_service cr n)) \<and>
   spName (hd (svcPorts (api_service cr n))) = apiScheme cr \<and>
   spAppProtocol (hd (svcPorts (api_service cr n))) = (if TLSEnabled cr then Some ''https'' else None) \<and>
   APIBaseURL cr n = spName (hd (svcPorts (api_service cr n))) @ ''://'' @ Name (svcMeta (api_service cr n)) @ ''.'' @
     Namespace (svcMeta (api_service cr n)) @ ''.svc:'' @ itoa (spPort (hd (svcPorts (api_service cr n)))) \<and>
   list_all (\<lambda>pr. case pr of None \<Rightarrow> False
       | Some p \<Rightarrow> prPort p \<in> (FromString \<circ> cpName) ` set (ctPorts (api_container cr img)))
     [ctLivenessProbe (api_container cr img), ctReadinessProbe (api_container cr img)]"
  using api_selects [of "crName cr"]
  by (simp add: api_service_def service_port_def api_container_def container_port_def http_probe_def
      apiAppProtocol_def portNameHTTPS_def APIBaseURL_def)

end
