(* ===== verification/Bundle.thy ===== *)
theory Bundle
  imports Component_Sentinel
begin

section \<open>Bundles\<close>

text \<open>
  \<^verbatim>\<open>internal/bundle/bundle.go\<close>: the \<^verbatim>\<open>Component\<close> interface as a sum of its two implementations,
  the entity sets, the resolution of a bundle to its ordered components, and the two setters that
  the controller uses before it renders.  The components are pointers that the setters update in
  place; nothing else holds them, so a setter returns the updated list.
\<close>

subsection \<open>Components\<close>

datatype bundle_Component =
    APIComponent api_Component
  | SentinelComponent sentinel_Component

fun comp_Name :: "bundle_Component \<Rightarrow> string" where
  "comp_Name (APIComponent c) = api_Name c"
| "comp_Name (SentinelComponent c) = sentinel_Name c"

fun comp_Namespace :: "bundle_Component \<Rightarrow> string" where
  "comp_Namespace (APIComponent c) = acNamespace c"
| "comp_Namespace (SentinelComponent c) = seNamespace c"

fun comp_Render :: "(json \<Rightarrow> string result) \<Rightarrow> bundle_Component \<Rightarrow> HyperFleetConfig \<Rightarrow> obj list result" where
  "comp_Render yaml (APIComponent c) cr = api_Render yaml c cr"
| "comp_Render yaml (SentinelComponent c) cr = sentinel_Render yaml c cr"

fun comp_Conditions :: "bundle_Component \<Rightarrow> obj list \<Rightarrow> Condition list" where
  "comp_Conditions (APIComponent c) applied = api_Conditions c applied"
| "comp_Conditions (SentinelComponent c) applied = sentinel_Conditions c applied"

fun comp_Rollout :: "bundle_Component \<Rightarrow> RolloutTarget" where
  "comp_Rollout (APIComponent c) = api_Rollout c"
| "comp_Rollout (SentinelComponent c) = sentinel_Rollout c"

fun comp_ReferencedSecrets :: "bundle_Component \<Rightarrow> HyperFleetConfig \<Rightarrow> SecretReference list" where
  "comp_ReferencedSecrets (APIComponent c) cr = api_ReferencedSecrets c cr"
| "comp_ReferencedSecrets (SentinelComponent c) cr = sentinel_ReferencedSecrets c cr"

interpretation any_component: component comp_Name comp_Namespace "comp_Render yaml" comp_Conditions comp_Rollout
  comp_ReferencedSecrets for yaml
proof unfold_locales
  fix c :: bundle_Component and cr obs
  assume r: "comp_Render yaml c cr = Inr obs"
  show "ob \<in> set obs \<Longrightarrow> Namespace (obj_meta ob) = comp_Namespace c" for ob
    using r by (cases c) (auto dest: api.in_namespace sentinel.in_namespace)
  show "distinct (map obj_key obs)"
    using r by (cases c) (auto dest: api.keys_distinct sentinel.keys_distinct)
  show "\<exists>d. filter is_deployment obs = [DeploymentObj d] \<and>
      Name (depMeta d) = DeploymentName (comp_Rollout c) \<and> Annotations (ptMeta (dsTemplate (depSpec d))) = Map.empty"
    using r by (cases c) (auto dest: api.one_deployment sentinel.one_deployment)
  show "e \<in> set (ConfigEntries (comp_Rollout c)) \<Longrightarrow>
      \<exists>m v. find_configmap obs (ConfigMapName e) = Some m \<and> cmData m (ConfigFileKey e) = Some v" for e
    using r by (cases c) (auto dest: api.configs_rendered sentinel.configs_rendered)
  fix d
  assume d: "DeploymentObj d \<in> set obs"
  show "set (pod_configmaps (ptSpec (dsTemplate (depSpec d)))) = ConfigMapName ` set (ConfigEntries (comp_Rollout c))"
    using r d by (cases c) (auto dest: api.configmaps_hashed sentinel.configmaps_hashed)
  show "set (pod_secrets (ptSpec (dsTemplate (depSpec d)))) = SecretName ` set (comp_ReferencedSecrets c cr)"
    using r d by (cases c) (auto dest: api.secrets_declared sentinel.secrets_declared)
  show "selects (dsSelector (depSpec d)) (Labels (ptMeta (dsTemplate (depSpec d)))) \<and>
      mounts_backed (ptSpec (dsTemplate (depSpec d)))"
    using r d by (cases c) (auto dest: api.pod_wf sentinel.pod_wf)
next
  show "distinct (map Role (comp_ReferencedSecrets c cr))" for c cr
    by (cases c) (simp_all add: api.roles_distinct sentinel.roles_distinct)
  show "\<exists>a p. comp_Conditions c obs = [a, p] \<and>
      has_condition ConditionAvailable (available_health (find_deployment obs (DeploymentName (comp_Rollout c)))) a \<and>
      has_condition ConditionProgressing (progressing_health (find_deployment obs (DeploymentName (comp_Rollout c)))) p" for c obs
    by (cases c) (simp_all add: api.health sentinel.health)
qed

subsection \<open>Entity sets and resolution\<close>

record bundle_Config =
  bcAPIImage :: string
  bcSentinelImage :: string
  bcNamespace :: string
  bcBrokerInfo :: "BrokerInfo option"
  bcResolvedJWKSURL :: string

definition plain_entity :: "string \<Rightarrow> string \<Rightarrow> string \<Rightarrow> EntityDescriptor" where
  "plain_entity kind plural schema = \<lparr>edKind = kind, edPlural = plural, edParentKind = [],
     edSpecSchemaName = schema, edOnParentDelete = [], edRequiredAdapters = [], edNameMinLen = 0,
     edNameMaxLen = 0, edRequireSpecSchema = False\<rparr>"

definition CloudCAPIEntities :: "EntityDescriptor list" where
  "CloudCAPIEntities =
    [(plain_entity ''Cluster'' ''clusters'' ''ClusterSpec'')
       \<lparr>edRequiredAdapters := [''validation'', ''dns'', ''pullsecret'', ''hypershift''],
        edNameMinLen := 3, edNameMaxLen := 53, edRequireSpecSchema := True\<rparr>,
     (plain_entity ''NodePool'' ''nodepools'' ''NodePoolSpec'')
       \<lparr>edParentKind := ''Cluster'', edOnParentDelete := ''cascade'',
        edRequiredAdapters := [''validation'', ''hypershift''],
        edNameMinLen := 3, edNameMaxLen := 15, edRequireSpecSchema := True\<rparr>,
     plain_entity ''Channel'' ''channels'' ''ChannelSpec'',
     (plain_entity ''Version'' ''versions'' ''VersionSpec'')
       \<lparr>edParentKind := ''Channel'', edOnParentDelete := ''restrict''\<rparr>,
     plain_entity ''WifConfig'' ''wifconfigs'' ''WifConfigSpec'']"

definition entitiesForBundle :: "string \<Rightarrow> EntityDescriptor list result" where
  "entitiesForBundle b =
     (if b = BundleCloudCAPI then Inr CloudCAPIEntities
      else if b = BundleOnPremAgent then
        Inl (Errorf ''bundle %q has no entity set defined yet; it cannot be resolved'' [b])
      else Inl (Errorf ''unknown bundle %q'' [b]))"

definition sentinel_for :: "bundle_Config \<Rightarrow> BrokerInfo \<Rightarrow> EntityDescriptor \<Rightarrow> bundle_Component" where
  "sentinel_for cfg broker rt = SentinelComponent
     \<lparr>seImage = bcSentinelImage cfg, seNamespace = bcNamespace cfg, seResourceType = edPlural rt,
      seAPIBaseURL = [], seBrokerInfo = broker,
      seParentKind = (if edParentKind rt \<noteq> [] then edParentKind rt else [])\<rparr>"

definition sharedTier :: "string \<Rightarrow> bundle_Config \<Rightarrow> bundle_Component list result" where
  "sharedTier b cfg =
     (case entitiesForBundle b of
        Inl e \<Rightarrow> Inl e
      | Inr entities \<Rightarrow>
          (case bcBrokerInfo cfg of
             None \<Rightarrow> Inl (Errorf ''sentinel broker info is required'' [])
           | Some broker \<Rightarrow> Inr
               (APIComponent (api_New (bcAPIImage cfg) (bcNamespace cfg) entities) #
                map (sentinel_for cfg broker) entities)))"

definition bundleSpecific :: "string \<Rightarrow> bundle_Component list" where
  "bundleSpecific b = []"

definition Resolve :: "string \<Rightarrow> bundle_Config \<Rightarrow> bundle_Component list result" where
  "Resolve b cfg =
     (case sharedTier b cfg of
        Inl e \<Rightarrow> Inl (Wrapf ''resolve bundle %q: %w'' [b] e)
      | Inr shared \<Rightarrow> Inr (shared @ bundleSpecific b))"

text \<open>The first API component only, and every Sentinel.\<close>

fun SetResolvedJWKSURL :: "bundle_Component list \<Rightarrow> string \<Rightarrow> bundle_Component list" where
  "SetResolvedJWKSURL [] url = []"
| "SetResolvedJWKSURL (c # cs) url =
     (case c of
        APIComponent a \<Rightarrow> APIComponent (a\<lparr>acResolvedJWKSURL := url\<rparr>) # cs
      | SentinelComponent _ \<Rightarrow> c # SetResolvedJWKSURL cs url)"

definition SetAPIBaseURL :: "bundle_Component list \<Rightarrow> string \<Rightarrow> bundle_Component list" where
  "SetAPIBaseURL cs url = map (\<lambda>c. case c of
       APIComponent _ \<Rightarrow> c
     | SentinelComponent s \<Rightarrow> SentinelComponent (s\<lparr>seAPIBaseURL := url\<rparr>)) cs"

text \<open>\<^verbatim>\<open>internal/controller/operand_types.go\<close>: the kinds that the controller watches and caches.\<close>

definition NamespacedOperandTypes :: "string list" where
  "NamespacedOperandTypes =
     [''Deployment'', ''Service'', ''ServiceAccount'', ''ConfigMap'', ''Role'', ''RoleBinding'', ''NetworkPolicy'']"

subsection \<open>What a bundle resolves to\<close>

lemma Resolve_iff:
  "Resolve b cfg = Inr cs \<longleftrightarrow> b = BundleCloudCAPI \<and> (\<exists>br. bcBrokerInfo cfg = Some br \<and>
     cs = APIComponent (api_New (bcAPIImage cfg) (bcNamespace cfg) CloudCAPIEntities) #
       map (sentinel_for cfg br) CloudCAPIEntities)"
  by (auto simp: Resolve_def sharedTier_def entitiesForBundle_def bundleSpecific_def split: option.splits sum.splits if_splits)

lemma CloudCAPIEntities_sel:
  "map edPlural CloudCAPIEntities = [''clusters'', ''nodepools'', ''channels'', ''versions'', ''wifconfigs'']"
  "map (\<lambda>e. edParentKind e \<noteq> []) CloudCAPIEntities = [False, True, False, True, False]"
  by (simp_all add: CloudCAPIEntities_def plain_entity_def)

text \<open>The components as the controller renders them, after both setters.\<close>

lemma SetResolvedJWKSURL_sentinels: "SetResolvedJWKSURL (map (sentinel_for cfg br) es) url = map (sentinel_for cfg br) es"
  by (induction es) (simp_all add: sentinel_for_def)

lemma prepared:
  assumes "Resolve b cfg = Inr cs"
  obtains br a ss where "bcBrokerInfo cfg = Some br" "b = BundleCloudCAPI"
    "SetResolvedJWKSURL (SetAPIBaseURL cs base) url = APIComponent a # map SentinelComponent ss"
    "a = \<lparr>acImage = bcAPIImage cfg, acNamespace = bcNamespace cfg, acEntities = CloudCAPIEntities, acResolvedJWKSURL = url\<rparr>"
    "ss = map (\<lambda>e. \<lparr>seImage = bcSentinelImage cfg, seNamespace = bcNamespace cfg, seResourceType = edPlural e,
        seAPIBaseURL = base, seBrokerInfo = br, seParentKind = edParentKind e\<rparr>) CloudCAPIEntities"
proof -
  from assms obtain br where br: "b = BundleCloudCAPI" "bcBrokerInfo cfg = Some br"
     "cs = APIComponent (api_New (bcAPIImage cfg) (bcNamespace cfg) CloudCAPIEntities) # map (sentinel_for cfg br) CloudCAPIEntities"
    by (auto simp: Resolve_iff)
  have "SetAPIBaseURL (map (sentinel_for cfg br) es) base = map SentinelComponent (map (\<lambda>e. \<lparr>seImage = bcSentinelImage cfg, seNamespace = bcNamespace cfg, seResourceType = edPlural e,
        seAPIBaseURL = base, seBrokerInfo = br, seParentKind = edParentKind e\<rparr>) es)" for es
    by (induction es) (auto simp: SetAPIBaseURL_def sentinel_for_def)
  with br that show thesis by (simp add: SetAPIBaseURL_def api_New_def)
qed

text \<open>
  Only the cloud bundle resolves, and only with a broker; it resolves to the API followed by one
  Sentinel for each entity type that the API registers, in that order and under distinct names,
  all in the operator's namespace, where a Sentinel publishes owner references exactly for entity
  types with a parent.
\<close>

theorem resolve_bundle:
  "(\<not> isl (Resolve b cfg) \<longleftrightarrow> b = BundleCloudCAPI \<and> bcBrokerInfo cfg \<noteq> None) \<and>
   (Resolve b cfg = Inr cs \<longrightarrow>
      map comp_Name cs = ''api'' # map (\<lambda>e. ''sentinel-'' @ edPlural e) CloudCAPIEntities \<and>
      distinct (map comp_Name cs) \<and> list_all (\<lambda>c. comp_Namespace c = bcNamespace cfg) cs \<and>
      list_all2 (\<lambda>e c. case c of APIComponent _ \<Rightarrow> False
        | SentinelComponent s \<Rightarrow> seResourceType s = edPlural e \<and> seImage s = bcSentinelImage cfg \<and>
            bcBrokerInfo cfg = Some (seBrokerInfo s) \<and>
            siHasParent (sentinel_config_of s cr) = (edParentKind e \<noteq> []))
        CloudCAPIEntities (tl cs))"
proof (intro conjI impI)
  show "\<not> isl (Resolve b cfg) \<longleftrightarrow> b = BundleCloudCAPI \<and> bcBrokerInfo cfg \<noteq> None"
    by (auto simp: Resolve_def sharedTier_def entitiesForBundle_def bundleSpecific_def split: option.splits sum.splits)
  assume "Resolve b cfg = Inr cs"
  then obtain br where br: "bcBrokerInfo cfg = Some br"
     "cs = APIComponent (api_New (bcAPIImage cfg) (bcNamespace cfg) CloudCAPIEntities) # map (sentinel_for cfg br) CloudCAPIEntities"
    by (auto simp: Resolve_iff)
  show names: "map comp_Name cs = ''api'' # map (\<lambda>e. ''sentinel-'' @ edPlural e) CloudCAPIEntities"
    by (simp add: br api_Name_def api_ComponentName_def comp_def sentinel_for_def sentinel_Name_def sentinel_ComponentName_def)
  show "distinct (map comp_Name cs)"
    unfolding names by (simp add: CloudCAPIEntities_def plain_entity_def)
  show "list_all (\<lambda>c. comp_Namespace c = bcNamespace cfg) cs"
    by (simp add: br api_New_def sentinel_for_def list_all_iff)
  show "list_all2 (\<lambda>e c. case c of APIComponent _ \<Rightarrow> False
        | SentinelComponent s \<Rightarrow> seResourceType s = edPlural e \<and> seImage s = bcSentinelImage cfg \<and>
            bcBrokerInfo cfg = Some (seBrokerInfo s) \<and>
            siHasParent (sentinel_config_of s cr) = (edParentKind e \<noteq> []))
        CloudCAPIEntities (tl cs)"
    by (simp add: br list_all2_map2 list_all2_same sentinel_for_def sentinel_config_of_def)
qed

definition example_bundle_config :: "bundle_Config" where
  "example_bundle_config = \<lparr>bcAPIImage = [], bcSentinelImage = ''s:1'', bcNamespace = ''hyperfleet-system'',
     bcBrokerInfo = Some \<lparr>biType = ''rabbitmq'', biProjectID = []\<rparr>, bcResolvedJWKSURL = []\<rparr>"

theorem resolve_bundle_witness:
  "\<exists>cs. Resolve BundleCloudCAPI example_bundle_config = Inr cs \<and> distinct (map comp_Name cs)"
proof -
  have "\<not> isl (Resolve BundleCloudCAPI example_bundle_config)"
    using resolve_bundle [of BundleCloudCAPI example_bundle_config] by (simp add: example_bundle_config_def)
  then obtain cs where "Resolve BundleCloudCAPI example_bundle_config = Inr cs" by (cases "Resolve BundleCloudCAPI example_bundle_config") auto
  with resolve_bundle [of BundleCloudCAPI example_bundle_config cs] show ?thesis by blast
qed

lemma api_keys:
  "api_Render yaml c cr = Inr obs \<Longrightarrow> map obj_key obs =
     [(''ServiceAccount'', acNamespace c, ''hyperfleet-api''), (''Role'', acNamespace c, ''hyperfleet-api''),
      (''RoleBinding'', acNamespace c, ''hyperfleet-api''), (''ConfigMap'', acNamespace c, ''hyperfleet-api-config''),
      (''Service'', acNamespace c, ''hyperfleet-api''), (''Deployment'', acNamespace c, ''hyperfleet-api'')]"
  by (erule api_Render_cases) (simp add: obj_key_def api_consts)

lemma sentinel_keys:
  "sentinel_Render yaml c cr = Inr obs \<Longrightarrow> map obj_key obs =
     (let n = ''hyperfleet-sentinel-'' @ seResourceType c in
     [(''ServiceAccount'', seNamespace c, n), (''ConfigMap'', seNamespace c, n @ ''-config''),
      (''ConfigMap'', seNamespace c, n @ ''-broker-config''), (''NetworkPolicy'', seNamespace c, n),
      (''Deployment'', seNamespace c, n)])"
  by (erule sentinel_Render_cases)
     (simp add: obj_key_def Let_def sentinel_ResourceName_def sentinel_ConfigMapName_def BrokerConfigMapName_def)


text \<open>When every part renders, the parts list their results.\<close>

lemma all_Inr: "list_all (\<lambda>r. \<not> isl r) rs \<Longrightarrow> \<exists>xs. rs = map Inr xs"
proof (induction rs)
  case (Cons r rs)
  then obtain x xs where "r = Inr x" "rs = map Inr xs" by (cases r) auto
  then show ?case by (intro exI [of _ "x # xs"]) simp
qed simp

definition sentinel_object_keys :: "string \<Rightarrow> string \<Rightarrow> obj_key list" where
  "sentinel_object_keys ns rt = (let n = ''hyperfleet-sentinel-'' @ rt in
     [(''ServiceAccount'', ns, n), (''ConfigMap'', ns, n @ ''-config''),
      (''ConfigMap'', ns, n @ ''-broker-config''), (''NetworkPolicy'', ns, n),
      (''Deployment'', ns, n)])"

definition api_object_keys :: "string \<Rightarrow> obj_key list" where
  "api_object_keys ns =
     [(''ServiceAccount'', ns, ''hyperfleet-api''), (''Role'', ns, ''hyperfleet-api''),
      (''RoleBinding'', ns, ''hyperfleet-api''), (''ConfigMap'', ns, ''hyperfleet-api-config''),
      (''Service'', ns, ''hyperfleet-api''), (''Deployment'', ns, ''hyperfleet-api'')]"

lemma bundle_keys_distinct:
  "distinct (api_object_keys ns @ concat (map (sentinel_object_keys ns) (map edPlural CloudCAPIEntities)))"
  by (simp add: CloudCAPIEntities_sel sentinel_object_keys_def api_object_keys_def Let_def)

lemma sentinels_keys:
  "map (\<lambda>c. comp_Render yaml c cr) (map SentinelComponent ss) = map Inr obss \<Longrightarrow>
   list_all (\<lambda>s. seNamespace s = ns) ss \<Longrightarrow>
   concat (map (map obj_key) obss) = concat (map (sentinel_object_keys ns) (map seResourceType ss))"
proof (induction ss arbitrary: obss)
  case (Cons s ss)
  then obtain obs obss' where "obss = obs # obss'" "sentinel_Render yaml s cr = Inr obs"
      "map (\<lambda>c. comp_Render yaml c cr) (map SentinelComponent ss) = map Inr obss'"
    by (cases obss) auto
  with Cons show ?case by (auto dest: sentinel_keys simp: sentinel_object_keys_def)
qed simp

lemma kind_watched: "obj_kind ob \<in> set NamespacedOperandTypes"
  by (cases ob) (simp_all add: NamespacedOperandTypes_def)

lemma bundle_rendered:
  assumes "Resolve b cfg = Inr cs" "\<And>j. \<not> isl (yaml j)" "bcSentinelImage cfg \<noteq> []"
    and "\<And>br. bcBrokerInfo cfg = Some br \<Longrightarrow> usable_broker br"
    and "AuthEnabled cr \<Longrightarrow> JWKCertSecretRef (Auth (API (Spec cr))) = None \<Longrightarrow> url \<noteq> []"
  shows "\<exists>obss. map (\<lambda>c. comp_Render yaml c cr) (SetResolvedJWKSURL (SetAPIBaseURL cs base) url) = map Inr obss \<and>
    distinct (concat (map (map obj_key) obss)) \<and>
    list_all (list_all (\<lambda>ob. obj_kind ob \<in> set NamespacedOperandTypes)) obss"
proof -
  obtain br a ss where p: "bcBrokerInfo cfg = Some br"
    "SetResolvedJWKSURL (SetAPIBaseURL cs base) url = APIComponent a # map SentinelComponent ss"
    "a = \<lparr>acImage = bcAPIImage cfg, acNamespace = bcNamespace cfg, acEntities = CloudCAPIEntities, acResolvedJWKSURL = url\<rparr>"
    "ss = map (\<lambda>e. \<lparr>seImage = bcSentinelImage cfg, seNamespace = bcNamespace cfg, seResourceType = edPlural e,
        seAPIBaseURL = base, seBrokerInfo = br, seParentKind = edParentKind e\<rparr>) CloudCAPIEntities"
    by (rule prepared [OF assms(1), of base url]) (rule that)
  have "\<not> isl (api_Render yaml a cr)"
    using assms(2,5) by (auto simp: api_Render_ok p(3))
  then obtain obs where a: "api_Render yaml a cr = Inr obs" by (cases "api_Render yaml a cr") auto
  have sup: "list_all (\<lambda>e. supported_type (edPlural e)) CloudCAPIEntities"
    by (simp add: CloudCAPIEntities_def plain_entity_def supported_type_def)
  have "list_all (\<lambda>r. \<not> isl r) (map (\<lambda>c. comp_Render yaml c cr) (map SentinelComponent ss))"
    using sup assms(3,4) p(1) by (auto simp: p(4) list_all_iff sentinel_Render_ok [OF assms(2)])
  from all_Inr [OF this] obtain obss where
    s: "map (\<lambda>c. comp_Render yaml c cr) (map SentinelComponent ss) = map Inr obss" by blast
  have "concat (map (map obj_key) obss) = concat (map (sentinel_object_keys (bcNamespace cfg)) (map edPlural CloudCAPIEntities))"
    using sentinels_keys [OF s, of "bcNamespace cfg"] by (simp add: p(4) comp_def list_all_iff)
  moreover have "map obj_key obs = api_object_keys (bcNamespace cfg)"
    using api_keys [OF a] by (simp add: p(3) api_object_keys_def)
  ultimately have "distinct (concat (map (map obj_key) (obs # obss)))"
    using bundle_keys_distinct [of "bcNamespace cfg"] by simp
  moreover have "list_all (list_all (\<lambda>ob. obj_kind ob \<in> set NamespacedOperandTypes)) (obs # obss)"
    by (simp add: list_all_iff kind_watched)
  moreover have "map (\<lambda>c. comp_Render yaml c cr) (APIComponent a # map SentinelComponent ss) = map Inr (obs # obss)"
    using a s by simp
  ultimately show ?thesis unfolding p(2) by blast
qed

text \<open>
  C31: The bundle as a whole: with a marshaller that does not fail, a Sentinel image, a usable broker
  and, when the API needs one, a discovered key-set URL, every component renders; no two objects of
  the whole bundle have the same kind, namespace and name, so no two components fight over an
  object; and every object is of a kind that the controller watches and caches.
\<close>

theorem bundle_renders:
  assumes "Resolve b cfg = Inr cs" "\<And>j. \<not> isl (yaml j)" "bcSentinelImage cfg \<noteq> []"
    and "\<And>br. bcBrokerInfo cfg = Some br \<Longrightarrow> usable_broker br"
    and "AuthEnabled cr \<Longrightarrow> JWKCertSecretRef (Auth (API (Spec cr))) = None \<Longrightarrow> url \<noteq> []"
  shows "\<exists>obss. map (\<lambda>c. comp_Render yaml c cr) (SetResolvedJWKSURL (SetAPIBaseURL cs base) url) = map Inr obss \<and>
    distinct (concat (map (map obj_key) obss)) \<and>
    list_all (list_all (\<lambda>ob. obj_kind ob \<in> set NamespacedOperandTypes)) obss"
  by (rule bundle_rendered [OF assms(1,2,3,4,5)])

theorem bundle_renders_witness:
  "\<exists>cs obss. Resolve BundleCloudCAPI example_bundle_config = Inr cs \<and>
     map (\<lambda>c. comp_Render (\<lambda>_. Inr ''y'') c (example_config None None None))
       (SetResolvedJWKSURL (SetAPIBaseURL cs ''http://api'') ''https://idp/keys'') = map Inr obss"
proof -
  obtain cs where cs: "Resolve BundleCloudCAPI example_bundle_config = Inr cs"
    by (auto simp: Resolve_iff example_bundle_config_def)
  have "usable_broker br" if "bcBrokerInfo example_bundle_config = Some br" for br
    using that by (auto simp: example_bundle_config_def usable_broker_def broker_consts)
  with bundle_renders [OF cs, of "\<lambda>_. Inr ''y''" "example_config None None None" "''https://idp/keys''" "''http://api''"] cs
  show ?thesis by (auto simp: example_bundle_config_def)
qed

subsection \<open>Pods\<close>

definition container_hardened :: "PodSpec \<Rightarrow> Container \<Rightarrow> bool" where
  "container_hardened p k \<longleftrightarrow>
     (case ctSecurityContext k of None \<Rightarrow> False
      | Some sc \<Rightarrow> scAllowPrivilegeEscalation sc = Some False \<and> scReadOnlyRootFilesystem sc = Some True \<and>
          scCapabilitiesDrop sc = [''ALL''] \<and> scSeccompProfileType sc = ''RuntimeDefault'') \<and>
     list_all (\<lambda>r. rrLimits (ctResources k) r \<noteq> None \<and> rrRequests (ctResources k) r \<noteq> None) [''cpu'', ''memory''] \<and>
     list_all (\<lambda>m. vmReadOnly m \<or> map_of (map (\<lambda>v. (volName v, volSource v)) (psVolumes p)) (vmName m) = Some EmptyDirVolume)
       (ctVolumeMounts k)"

definition pod_hardened :: "PodSpec \<Rightarrow> bool" where
  "pod_hardened p \<longleftrightarrow> psAutomountServiceAccountToken p = Some False \<and> psRunAsNonRoot p = Some True \<and>
     psContainers p \<noteq> [] \<and> list_all (container_hardened p) (psInitContainers p @ psContainers p)"

lemma api_pod_hardened: "pod_hardened (api_pod cr img)"
proof -
  have "container_hardened (api_pod cr img) (api_container cr img)"
    by (simp add: container_hardened_def api_pod_def api_container_def apiContainerSecurityContext_def apiContainerResources_def
        api_volumeMounts_def api_volumes_def volume_consts mount_def volume_def)
  moreover have "container_hardened (api_pod cr img) (api_migration_container cr img)"
    by (simp add: container_hardened_def api_pod_def api_migration_container_def apiContainerSecurityContext_def apiContainerResources_def
        api_volumeMounts_def api_volumes_def volume_consts mount_def volume_def)
  ultimately show ?thesis by (simp add: pod_hardened_def) (simp add: api_pod_def)
qed

lemma sentinel_pod_hardened: "pod_hardened (sentinel_pod cr img rt b)"
proof -
  have "container_hardened (sentinel_pod cr img rt b) (sentinel_container cr img b)"
    by (simp add: container_hardened_def sentinel_pod_def sentinel_container_def containerSecurityContext_def containerResources_def
        sentinel_volumeMounts_def sentinel_volumes_def sentinel_volume_consts mount_def volume_def sub_mount_def)
  then show ?thesis by (simp add: pod_hardened_def) (simp add: sentinel_pod_def)
qed

text \<open>
  C33: The Deployment of every rendered component selects its own pods, mounts only volumes that it
  declares, and runs hardened pods: no service-account token, no root user, and in every container
  a read-only root file system, no privilege escalation, no capability, the default seccomp profile,
  limits and requests for CPU and memory, and no writable mount other than an empty directory.
\<close>

theorem rendered_pods_hardened:
  assumes "comp_Render yaml c cr = Inr obs"
  shows "list_all (\<lambda>ob. case ob of
      DeploymentObj d \<Rightarrow> pod_hardened (ptSpec (dsTemplate (depSpec d))) \<and>
        selects (dsSelector (depSpec d)) (Labels (ptMeta (dsTemplate (depSpec d)))) \<and>
        mounts_backed (ptSpec (dsTemplate (depSpec d)))
    | _ \<Rightarrow> True) obs"
  unfolding list_all_iff
proof
  fix ob assume ob: "ob \<in> set obs"
  show "case ob of
      DeploymentObj d \<Rightarrow> pod_hardened (ptSpec (dsTemplate (depSpec d))) \<and>
        selects (dsSelector (depSpec d)) (Labels (ptMeta (dsTemplate (depSpec d)))) \<and>
        mounts_backed (ptSpec (dsTemplate (depSpec d)))
    | _ \<Rightarrow> True"
  proof (cases ob)
    case (DeploymentObj d)
    have "pod_hardened (ptSpec (dsTemplate (depSpec d)))"
      using assms ob DeploymentObj
      by (cases c) (auto elim!: api_Render_cases sentinel_Render_cases simp: api_pod_hardened sentinel_pod_hardened)
    with any_component.pod_wf [OF assms, of d] ob DeploymentObj show ?thesis by simp
  qed simp_all
qed

definition example_sentinel :: bundle_Component where
  "example_sentinel = SentinelComponent \<lparr>seImage = ''s:1'', seNamespace = ''hf'', seResourceType = ''clusters'',
     seAPIBaseURL = ''http://api'', seBrokerInfo = \<lparr>biType = ''rabbitmq'', biProjectID = []\<rparr>, seParentKind = []\<rparr>"

lemma example_sentinel_renders: "\<exists>obs. comp_Render (\<lambda>_. Inr ''y'') example_sentinel cr = Inr obs"
proof -
  have "\<not> isl (comp_Render (\<lambda>_. Inr ''y'') example_sentinel cr)"
    by (simp add: example_sentinel_def sentinel_Render_ok supported_type_def usable_broker_def broker_consts)
  then show ?thesis by (cases "comp_Render (\<lambda>_. Inr ''y'') example_sentinel cr") auto
qed

theorem rendered_pods_hardened_witness:
  "\<exists>obs d. comp_Render (\<lambda>_. Inr ''y'') example_sentinel (example_config None None None) = Inr obs \<and>
     DeploymentObj d \<in> set obs \<and> pod_hardened (ptSpec (dsTemplate (depSpec d)))"
proof -
  obtain obs where obs: "comp_Render (\<lambda>_. Inr ''y'') example_sentinel (example_config None None None) = Inr obs"
    using example_sentinel_renders by blast
  from any_component.the_deployment [OF obs] obtain d where "DeploymentObj d \<in> set obs" by blast
  with rendered_pods_hardened [OF obs] obs show ?thesis by (fastforce simp: list_all_iff)
qed

text \<open>
  C32: The rollout hash covers what the pods read.  The pod of a rendered component consumes exactly
  the ConfigMaps that the component's rollout target lists and exactly the Secrets that it
  declares; and for two renderings of a component (of different specs, or at different times), equal
  hash preimages mean that every listed ConfigMap key has the same content and every declared
  Secret the same presence and resource version.  So a change of anything that a pod reads
  changes the text that is hashed.
\<close>

theorem rollout_hash_covers_pod:
  assumes "comp_Render yaml c cr = Inr obs" "comp_Render yaml c cr' = Inr obs'" "DeploymentObj d \<in> set obs"
    and "list_all (\<lambda>x. CHR 0x00 \<notin> set x) (config_documents obs (comp_Rollout c))"
    and "list_all (\<lambda>x. CHR 0x00 \<notin> set x) (config_documents obs' (comp_Rollout c))"
    and "resolveSecretEntries get n (comp_ReferencedSecrets c cr) w = (Inr es, w1)"
    and "resolveSecretEntries get' n' (comp_ReferencedSecrets c cr') w' = (Inr es', w1')"
  shows "set (pod_configmaps (ptSpec (dsTemplate (depSpec d)))) = ConfigMapName ` set (ConfigEntries (comp_Rollout c)) \<and>
    set (pod_secrets (ptSpec (dsTemplate (depSpec d)))) = SecretName ` set (comp_ReferencedSecrets c cr) \<and>
    length (config_documents obs (comp_Rollout c)) = length (ConfigEntries (comp_Rollout c)) \<and>
    map heId es = map Role (comp_ReferencedSecrets c cr) \<and>
    (config_preimage (strings_Join (config_documents obs (comp_Rollout c)) [CHR 0x00]) es =
       config_preimage (strings_Join (config_documents obs' (comp_Rollout c)) [CHR 0x00]) es' \<longrightarrow>
     config_documents obs (comp_Rollout c) = config_documents obs' (comp_Rollout c) \<and> mset es = mset es')"
  using any_component.configmaps_hashed [OF assms(1,3)] any_component.secrets_declared [OF assms(1,3)]
    any_component.documents_complete(1) [OF assms(1)] resolveSecretEntries_roles [OF assms(6)]
    any_component.preimage_sensitive [OF assms(1,2,4,5,6,7)]
  by blast

theorem rollout_hash_covers_pod_witness:
  "\<exists>obs d. comp_Render (\<lambda>_. Inr ''y'') example_sentinel (example_config None None None) = Inr obs \<and>
     DeploymentObj d \<in> set obs \<and> set (pod_secrets (ptSpec (dsTemplate (depSpec d)))) = {BrokerSecretName}"
proof -
  let ?cr = "example_config None None None" and ?y = "\<lambda>_ :: json. Inr ''y'' :: string result"
  obtain obs where obs: "comp_Render ?y example_sentinel ?cr = Inr obs"
    using example_sentinel_renders by blast
  from any_component.the_deployment [OF obs] obtain d where d: "DeploymentObj d \<in> set obs" by blast
  have docs: "config_documents obs (comp_Rollout example_sentinel) = [sentinel_configHeader @ ''y'', brokerConfigHeader @ ''y'']"
    using obs by (auto simp: example_sentinel_def sentinel_Rollout_def config_documents_def map_index_def
        sentinel_renderConfig_def renderBrokerConfig_def Let_def broker_consts
        elim!: sentinel_Render_cases split: sum.splits)
  have nul: "list_all (\<lambda>x. CHR 0x00 \<notin> set x) (config_documents obs (comp_Rollout example_sentinel))"
    unfolding docs by (simp add: sentinel_configHeader_def brokerConfigHeader_def em_dash_def)
  have refs: "comp_ReferencedSecrets example_sentinel ?cr = [\<lparr>Role = ''broker'', SecretName = BrokerSecretName\<rparr>]"
    by (simp add: example_sentinel_def sentinel_ReferencedSecrets_def broker_consts)
  have es: "resolveSecretEntries (\<lambda>_ _ w. (Inr ''7'', w)) ''hf'' (comp_ReferencedSecrets example_sentinel ?cr) () =
      (Inr [present_entry ''broker'' ''7''], ())"
    by (simp add: refs)
  from rollout_hash_covers_pod [OF obs obs d nul nul es es] obs d refs show ?thesis by auto
qed

end
