(* ===== verification/Status_Rollup.thy ===== *)
theory Status_Rollup
  imports Bundle
begin

section \<open>Status aggregation\<close>

text \<open>
  \<^verbatim>\<open>internal/controller/hyperfleetconfig_status.go\<close>: the roll-up of the component conditions and of
  the controller's own failure signals into the status of the resource.  The update of one
  condition in a list is the third-party \<^verbatim>\<open>meta.SetStatusCondition\<close>: a parameter \<open>ssc\<close>, whose
  documented behaviour is the hypothesis \<open>ssc_documented\<close> and which returns the updated list and
  whether anything changed.
\<close>

subsection \<open>Setting a condition\<close>

type_synonym set_condition = "Condition list \<Rightarrow> Condition \<Rightarrow> Condition list \<times> bool"

definition find_cond :: "string \<Rightarrow> Condition list \<Rightarrow> Condition option" where
  "find_cond t conds = find (\<lambda>c. cType c = t) conds"

definition same_content :: "Condition \<Rightarrow> Condition \<Rightarrow> bool" where
  "same_content a b \<longleftrightarrow> cType a = cType b \<and> cStatus a = cStatus b \<and> cReason a = cReason b \<and>
     cMessage a = cMessage b \<and> cObservedGeneration a = cObservedGeneration b"

definition ssc_post :: "Condition list \<Rightarrow> Condition \<Rightarrow> Condition list \<Rightarrow> bool \<Rightarrow> bool" where
  "ssc_post conds c conds' changed \<longleftrightarrow>
     map cType conds' = (if cType c \<in> set (map cType conds) then map cType conds else map cType conds @ [cType c]) \<and>
     (\<forall>t. t \<noteq> cType c \<longrightarrow> find_cond t conds' = find_cond t conds) \<and>
     (\<exists>d. find_cond (cType c) conds' = Some d \<and> same_content d c \<and>
       (\<forall>e. find_cond (cType c) conds = Some e \<longrightarrow> cStatus e = cStatus c \<longrightarrow>
          cLastTransitionTime d = cLastTransitionTime e)) \<and>
     (changed \<longleftrightarrow> conds' \<noteq> conds)"

definition ssc_documented :: "set_condition \<Rightarrow> bool" where
  "ssc_documented ssc \<longleftrightarrow> (\<forall>conds c. distinct (map cType conds) \<longrightarrow>
     (case ssc conds c of (conds', changed) \<Rightarrow> ssc_post conds c conds' changed))"

subsection \<open>The roll-up\<close>

definition flattenConditions :: "ComponentConditions list \<Rightarrow> Condition list" where
  "flattenConditions ccs = concat (map ccConditions ccs)"

definition rollupCondition :: "string \<Rightarrow> Condition list \<Rightarrow> string \<Rightarrow> string \<Rightarrow> string \<Rightarrow> Condition" where
  "rollupCondition typ conds defaultReason defaultMessage expected =
     (case find (\<lambda>c. cType c = typ \<and> cStatus c \<noteq> expected) conds of
        Some c \<Rightarrow> condition typ (cStatus c) (cReason c) (cMessage c)
      | None \<Rightarrow> condition typ expected defaultReason defaultMessage)"

definition degradedCondition :: "string list \<Rightarrow> error option \<Rightarrow> Condition" where
  "degradedCondition missing err =
     (if length missing > 0 then
        condition ConditionDegraded ConditionTrue ReasonReferencedSecretMissing
          (''referenced secret(s) missing in the operator'' @ [CHR 0x27] @ ''s namespace: '' @ strings_Join missing '', '')
      else if err \<noteq> None then
        condition ConditionDegraded ConditionTrue ReasonReconcileError
          (''the last reconcile failed; see the operator'' @ [CHR 0x27] @ ''s logs for details'')
      else condition ConditionDegraded ConditionFalse ReasonAsExpected ''no failure detected'')"

definition findComponentEntry :: "ComponentConditions list \<Rightarrow> string \<Rightarrow> ComponentConditions option" where
  "findComponentEntry entries name = find (\<lambda>e. ccName e = name) entries"

text \<open>The fresh report of one component overlaid on its published entry.\<close>

definition merge_entry :: "set_condition \<Rightarrow> int \<Rightarrow> ComponentConditions list \<Rightarrow> ComponentConditions \<Rightarrow> ComponentConditions" where
  "merge_entry ssc generation published entry =
     (let prevConds = (case findComponentEntry published (ccName entry) of
            None \<Rightarrow> [] | Some p \<Rightarrow> ccConditions p);
          freshTypes = set (map cType (ccConditions entry));
          seed = filter (\<lambda>c. cType c \<in> freshTypes) prevConds
      in entry\<lparr>ccConditions :=
           fold (\<lambda>c conds. fst (ssc conds (c\<lparr>cObservedGeneration := generation\<rparr>))) (ccConditions entry) seed\<rparr>)"

definition setComponentStatuses ::
  "set_condition \<Rightarrow> HyperFleetConfig \<Rightarrow> ComponentConditions list \<Rightarrow> HyperFleetConfig \<times> bool" where
  "setComponentStatuses ssc cr ccs =
     (let entries = map (merge_entry ssc (crGeneration cr) (Components (Status cr))) (SortFunc ccName ccs);
          prev = SortFunc ccName (Components (Status cr));
          changed = (prev \<noteq> entries)
      in (cr\<lparr>Status := (Status cr)\<lparr>Components := entries\<rparr>\<rparr>, changed))"

text \<open>The loop over the top-level conditions.\<close>

fun set_conditions :: "set_condition \<Rightarrow> int \<Rightarrow> Condition list \<Rightarrow> Condition list \<Rightarrow> bool \<Rightarrow> Condition list \<times> bool" where
  "set_conditions ssc generation [] conds changed = (conds, changed)"
| "set_conditions ssc generation (c # cs) conds changed =
     (case ssc conds (c\<lparr>cObservedGeneration := generation\<rparr>) of
        (conds', ch) \<Rightarrow> set_conditions ssc generation cs conds' (ch \<or> changed))"

definition aggregateStatus ::
  "set_condition \<Rightarrow> HyperFleetConfig \<Rightarrow> ComponentConditions list \<Rightarrow> bool \<Rightarrow> string list \<Rightarrow> error option \<Rightarrow>
     HyperFleetConfig \<times> bool" where
  "aggregateStatus ssc cr ccs collected missing err =
     (let flat = flattenConditions ccs;
          conditions = degradedCondition missing err #
            (if collected then
               [rollupCondition ConditionAvailable flat ReasonDeploymentAvailable
                  ''all components are available'' ConditionTrue,
                rollupCondition ConditionProgressing flat ReasonRolloutComplete
                  ''all components have completed rollout'' ConditionFalse]
             else []);
          (conds, changed) = set_conditions ssc (crGeneration cr) conditions (Conditions (Status cr)) False;
          cr1 = cr\<lparr>Status := (Status cr)\<lparr>Conditions := conds\<rparr>\<rparr>
      in if \<not> collected then (cr1, changed)
         else (case setComponentStatuses ssc cr1 ccs of
             (cr2, ch) \<Rightarrow>
               if ObservedGeneration (Status cr2) \<noteq> crGeneration cr2
               then (cr2\<lparr>Status := (Status cr2)\<lparr>ObservedGeneration := crGeneration cr2\<rparr>\<rparr>, True)
               else (cr2, ch \<or> changed)))"

subsection \<open>Condition lists\<close>

lemma find_cond_None: "find_cond t cs = None \<longleftrightarrow> t \<notin> set (map cType cs)"
  by (auto simp: find_cond_def find_None_iff)

lemma find_cond_Some: "find_cond t cs = Some c \<Longrightarrow> c \<in> set cs \<and> cType c = t"
  by (auto simp: find_cond_def find_Some_iff)

lemma find_cond_distinct: "distinct (map cType cs) \<Longrightarrow> c \<in> set cs \<Longrightarrow> find_cond (cType c) cs = Some c"
  by (induction cs) (auto simp: find_cond_def)

lemma cond_list_eq:
  assumes "map cType xs = map cType ys" "distinct (map cType xs)" "\<And>t. find_cond t xs = find_cond t ys"
  shows "xs = ys"
proof (rule nth_equalityI)
  show "length xs = length ys" using assms(1) by (metis length_map)
  fix i assume i: "i < length xs"
  with assms(1) have i': "i < length ys" and t: "cType (xs ! i) = cType (ys ! i)"
    by (metis length_map, metis length_map nth_map)
  have "find_cond (cType (xs ! i)) xs = Some (xs ! i)"
    by (rule find_cond_distinct) (use assms(2) i in auto)
  moreover have "find_cond (cType (ys ! i)) ys = Some (ys ! i)"
    by (rule find_cond_distinct) (use assms(1,2) i' in auto)
  ultimately show "xs ! i = ys ! i" using assms(3) [of "cType (xs ! i)"] t by simp
qed

lemma sscD:
  assumes "ssc_documented ssc" "distinct (map cType conds)" "ssc conds c = (conds', ch)"
  shows "map cType conds' = (if cType c \<in> set (map cType conds) then map cType conds else map cType conds @ [cType c])"
    and "t \<noteq> cType c \<Longrightarrow> find_cond t conds' = find_cond t conds"
    and "\<exists>d. find_cond (cType c) conds' = Some d \<and> same_content d c \<and>
          (\<forall>e. find_cond (cType c) conds = Some e \<longrightarrow> cStatus e = cStatus c \<longrightarrow>
             cLastTransitionTime d = cLastTransitionTime e)"
    and "ch \<longleftrightarrow> conds' \<noteq> conds"
proof -
  have "ssc_post conds c conds' ch"
    using assms(1) [unfolded ssc_documented_def, rule_format, OF assms(2), of c] assms(3) by simp
  then show "map cType conds' = (if cType c \<in> set (map cType conds) then map cType conds else map cType conds @ [cType c])"
    and "t \<noteq> cType c \<Longrightarrow> find_cond t conds' = find_cond t conds"
    and "\<exists>d. find_cond (cType c) conds' = Some d \<and> same_content d c \<and>
          (\<forall>e. find_cond (cType c) conds = Some e \<longrightarrow> cStatus e = cStatus c \<longrightarrow>
             cLastTransitionTime d = cLastTransitionTime e)"
    and "ch \<longleftrightarrow> conds' \<noteq> conds"
    unfolding ssc_post_def by blast+
qed

lemma ssc_distinct:
  assumes "ssc_documented ssc" "distinct (map cType conds)" "ssc conds c = (conds', ch)"
  shows "distinct (map cType conds')"
  using sscD(1) [OF assms] assms(2) by simp

lemma ssc_noop:
  assumes "ssc_documented ssc" "distinct (map cType conds)"
    and "find_cond (cType c) conds = Some e" "same_content e c"
  shows "ssc conds c = (conds, False)"
proof -
  obtain conds' ch where s: "ssc conds c = (conds', ch)" by fastforce
  note D = sscD [OF assms(1,2) s]
  from D(3) assms(3,4) obtain d where d: "find_cond (cType c) conds' = Some d" "same_content d c"
      "cLastTransitionTime d = cLastTransitionTime e"
    by (auto simp: same_content_def)
  with assms(4) have "d = e" by (cases d; cases e) (simp add: same_content_def)
  with d D(2) assms(3) have "find_cond t conds' = find_cond t conds" for t by (cases "t = cType c") auto
  moreover have "cType c \<in> set (map cType conds)"
    using assms(3) find_cond_None [of "cType c" conds] by auto
  ultimately have "conds = conds'"
    using D(1) assms(2) by (intro cond_list_eq) auto
  with s D(4) show ?thesis by simp
qed

abbreviation stamped :: "int \<Rightarrow> Condition \<Rightarrow> Condition" where
  "stamped g c \<equiv> c\<lparr>cObservedGeneration := g\<rparr>"

text \<open>The loop over conditions of distinct types.\<close>

lemma set_conditions_spec:
  assumes "ssc_documented ssc" "distinct (map cType conds)" "distinct (map cType cs)"
    and "set_conditions ssc g cs conds ch = (conds', ch')"
  shows "distinct (map cType conds') \<and> set (map cType conds') = set (map cType conds) \<union> set (map cType cs) \<and>
    (\<forall>t. t \<notin> set (map cType cs) \<longrightarrow> find_cond t conds' = find_cond t conds) \<and>
    (\<forall>c \<in> set cs. \<exists>d. find_cond (cType c) conds' = Some d \<and> same_content d (stamped g c) \<and>
      (\<forall>e. find_cond (cType c) conds = Some e \<longrightarrow> cStatus e = cStatus c \<longrightarrow>
         cLastTransitionTime d = cLastTransitionTime e)) \<and>
    (\<not> ch' \<longrightarrow> conds' = conds)"
  using assms(2-)
proof (induction cs arbitrary: conds ch)
  case (Cons c cs)
  obtain conds1 ch1 where s: "ssc conds (stamped g c) = (conds1, ch1)" by fastforce
  note D = sscD [OF assms(1) Cons.prems(1) s]
  have d1: "distinct (map cType conds1)" by (rule ssc_distinct [OF assms(1) Cons.prems(1) s])
  from Cons.prems(3) s have r: "set_conditions ssc g cs conds1 (ch1 \<or> ch) = (conds', ch')" by simp
  have dc: "distinct (map cType cs)" "cType c \<notin> set (map cType cs)" using Cons.prems(2) by auto
  note IH = Cons.IH [OF d1 dc(1) r]
  have "set (map cType conds1) = set (map cType conds) \<union> {cType c}" using D(1) by auto
  moreover have "find_cond (cType c) conds' = find_cond (cType c) conds1" using IH dc(2) by blast
  moreover have "\<not> ch' \<longrightarrow> \<not> ch1"
  proof -
    have "set_conditions ssc g cs conds1 True = (a, b) \<Longrightarrow> b" for a b
    proof -
      have "set_conditions ssc g xs l True = (a, b) \<Longrightarrow> b" for xs l a b
        by (induction xs arbitrary: l) (auto split: prod.splits)
      then show "set_conditions ssc g cs conds1 True = (a, b) \<Longrightarrow> b" .
    qed
    with r show ?thesis by (cases ch1) auto
  qed
  moreover have "\<exists>d. find_cond (cType x) conds' = Some d \<and> same_content d (stamped g x) \<and>
      (\<forall>e. find_cond (cType x) conds = Some e \<longrightarrow> cStatus e = cStatus x \<longrightarrow>
         cLastTransitionTime d = cLastTransitionTime e)" if "x \<in> set cs" for x
  proof -
    from that dc(2) have "cType x \<noteq> cType c" by (metis image_eqI set_map)
    then have "find_cond (cType x) conds1 = find_cond (cType x) conds" using D(2) by simp
    moreover from IH that have "\<exists>d. find_cond (cType x) conds' = Some d \<and> same_content d (stamped g x) \<and>
      (\<forall>e. find_cond (cType x) conds1 = Some e \<longrightarrow> cStatus e = cStatus x \<longrightarrow>
         cLastTransitionTime d = cLastTransitionTime e)" by blast
    ultimately show ?thesis by simp
  qed
  ultimately show ?case
    using IH D(2-4) by auto
qed auto

lemma set_conditions_noop:
  assumes "ssc_documented ssc" "distinct (map cType conds)"
    and "\<And>c. c \<in> set cs \<Longrightarrow> \<exists>e. find_cond (cType c) conds = Some e \<and> same_content e (stamped g c)"
  shows "set_conditions ssc g cs conds ch = (conds, ch)"
  using assms(3)
proof (induction cs arbitrary: ch)
  case (Cons c cs)
  from Cons.prems [of c] obtain e where "find_cond (cType (stamped g c)) conds = Some e" "same_content e (stamped g c)"
    by auto
  from ssc_noop [OF assms(1,2) this] Cons show ?case by simp
qed simp

subsection \<open>The roll-up of one type\<close>

lemma rollup_type [simp]: "cType (rollupCondition typ conds r m ex) = typ"
  by (simp add: rollupCondition_def split: option.splits)

lemma degraded_type [simp]: "cType (degradedCondition missing err) = ConditionDegraded"
  by (simp add: degradedCondition_def)

lemma rollup_expected:
  "cStatus (rollupCondition typ conds r m ex) = ex \<longleftrightarrow> (\<forall>c \<in> set conds. cType c = typ \<longrightarrow> cStatus c = ex)"
proof (cases "find (\<lambda>c. cType c = typ \<and> cStatus c \<noteq> ex) conds")
  case None
  then have "rollupCondition typ conds r m ex = condition typ ex r m" by (simp add: rollupCondition_def)
  with None show ?thesis by (auto simp: find_None_iff)
next
  case (Some c)
  then have "c \<in> set conds" "cType c = typ" "cStatus c \<noteq> ex" by (auto simp: find_Some_iff)
  with Some show ?thesis by (auto simp: rollupCondition_def)
qed

subsection \<open>Well-formed reports and statuses\<close>

definition wf_reports :: "ComponentConditions list \<Rightarrow> bool" where
  "wf_reports ccs \<longleftrightarrow> distinct (map ccName ccs) \<and> list_all (\<lambda>e. distinct (map cType (ccConditions e))) ccs"

definition wf_status :: "HyperFleetConfigStatus \<Rightarrow> bool" where
  "wf_status st \<longleftrightarrow> distinct (map cType (Conditions st)) \<and>
     list_all (\<lambda>e. distinct (map cType (ccConditions e))) (Components st)"

lemma merge_fold:
  "fold (\<lambda>c conds. fst (ssc conds (stamped g c))) cs seed = fst (set_conditions ssc g cs seed ch)"
  by (induction cs arbitrary: seed ch) (auto split: prod.splits)

text \<open>An entry after the merge: the reported types, with the fresh content, and the old time stamp
  where the status did not change.\<close>

definition published_conds :: "ComponentConditions list \<Rightarrow> string \<Rightarrow> Condition list" where
  "published_conds published name = (case findComponentEntry published name of None \<Rightarrow> [] | Some p \<Rightarrow> ccConditions p)"

lemma published_distinct:
  "list_all (\<lambda>e. distinct (map cType (ccConditions e))) published \<Longrightarrow> distinct (map cType (published_conds published n))"
  by (auto simp: published_conds_def findComponentEntry_def find_Some_iff list_all_iff split: option.splits)

lemma distinct_map_filter: "distinct (map f xs) \<Longrightarrow> distinct (map f (filter P xs))"
  by (induction xs) auto

lemma find_cond_filter:
  "P t \<Longrightarrow> find_cond t (filter (\<lambda>c. P (cType c)) cs) = find_cond t cs"
  by (induction cs) (auto simp: find_cond_def)

lemma merge_entry_spec:
  assumes "ssc_documented ssc" "list_all (\<lambda>e. distinct (map cType (ccConditions e))) published"
    and "distinct (map cType (ccConditions entry))"
  shows "ccName (merge_entry ssc g published entry) = ccName entry"
    and "distinct (map cType (ccConditions (merge_entry ssc g published entry)))"
    and "set (map cType (ccConditions (merge_entry ssc g published entry))) = set (map cType (ccConditions entry))"
    and "c \<in> set (ccConditions entry) \<Longrightarrow>
      \<exists>d. find_cond (cType c) (ccConditions (merge_entry ssc g published entry)) = Some d \<and> same_content d (stamped g c) \<and>
        (\<forall>e. find_cond (cType c) (published_conds published (ccName entry)) = Some e \<longrightarrow> cStatus e = cStatus c \<longrightarrow>
           cLastTransitionTime d = cLastTransitionTime e)"
proof -
  let ?fresh = "set (map cType (ccConditions entry))"
  define seed where "seed = filter (\<lambda>c. cType c \<in> ?fresh) (published_conds published (ccName entry))"
  obtain conds ch where s: "set_conditions ssc g (ccConditions entry) seed False = (conds, ch)" by fastforce
  have m: "ccConditions (merge_entry ssc g published entry) = conds"
    using s by (simp add: merge_entry_def Let_def merge_fold [where ch = False] seed_def published_conds_def)
  have sd: "distinct (map cType seed)"
    unfolding seed_def by (intro distinct_map_filter published_distinct assms(2))
  note spec = set_conditions_spec [OF assms(1) sd assms(3) s]
  show "ccName (merge_entry ssc g published entry) = ccName entry" by (simp add: merge_entry_def Let_def)
  show "distinct (map cType (ccConditions (merge_entry ssc g published entry)))" using spec m by simp
  show "set (map cType (ccConditions (merge_entry ssc g published entry))) = ?fresh"
    using spec m by (auto simp: seed_def)
  assume c: "c \<in> set (ccConditions entry)"
  then have "find_cond (cType c) seed = find_cond (cType c) (published_conds published (ccName entry))"
    unfolding seed_def by (intro find_cond_filter) auto
  moreover from spec c have "\<exists>d. find_cond (cType c) conds = Some d \<and> same_content d (stamped g c) \<and>
        (\<forall>e. find_cond (cType c) seed = Some e \<longrightarrow> cStatus e = cStatus c \<longrightarrow>
           cLastTransitionTime d = cLastTransitionTime e)" by blast
  ultimately show "\<exists>d. find_cond (cType c) (ccConditions (merge_entry ssc g published entry)) = Some d \<and> same_content d (stamped g c) \<and>
        (\<forall>e. find_cond (cType c) (published_conds published (ccName entry)) = Some e \<longrightarrow> cStatus e = cStatus c \<longrightarrow>
           cLastTransitionTime d = cLastTransitionTime e)"
    by (simp add: m)
qed

lemma merge_entry_noop:
  assumes "ssc_documented ssc" "distinct (map cType (published_conds published (ccName entry)))"
    and "set (map cType (published_conds published (ccName entry))) = set (map cType (ccConditions entry))"
    and "\<And>c. c \<in> set (ccConditions entry) \<Longrightarrow>
      \<exists>e. find_cond (cType c) (published_conds published (ccName entry)) = Some e \<and> same_content e (stamped g c)"
  shows "ccConditions (merge_entry ssc g published entry) = published_conds published (ccName entry)"
proof -
  have "filter (\<lambda>c. cType c \<in> set (map cType (ccConditions entry))) (published_conds published (ccName entry)) =
      published_conds published (ccName entry)"
    using assms(3) by (intro filter_True) auto
  with set_conditions_noop [OF assms(1,2,4), where ch = False] show ?thesis
    by (simp add: merge_entry_def Let_def merge_fold [where ch = False] published_conds_def [symmetric])
qed

subsection \<open>The status after an aggregation\<close>

definition rolled_up :: "ComponentConditions list \<Rightarrow> bool \<Rightarrow> string list \<Rightarrow> error option \<Rightarrow> Condition list" where
  "rolled_up ccs collected missing err = degradedCondition missing err #
     (if collected then
        [rollupCondition ConditionAvailable (flattenConditions ccs) ReasonDeploymentAvailable
           ''all components are available'' ConditionTrue,
         rollupCondition ConditionProgressing (flattenConditions ccs) ReasonRolloutComplete
           ''all components have completed rollout'' ConditionFalse]
      else [])"

definition merged_entries :: "set_condition \<Rightarrow> HyperFleetConfig \<Rightarrow> ComponentConditions list \<Rightarrow> ComponentConditions list" where
  "merged_entries ssc cr ccs = map (merge_entry ssc (crGeneration cr) (Components (Status cr))) (SortFunc ccName ccs)"

lemma rolled_up_types: "distinct (map cType (rolled_up ccs collected missing err))"
  by (auto simp: rolled_up_def)

lemma aggregateStatus_cases:
  assumes "aggregateStatus ssc cr ccs collected missing err = (cr', ch)"
  obtains conds ch0 where
    "set_conditions ssc (crGeneration cr) (rolled_up ccs collected missing err) (Conditions (Status cr)) False = (conds, ch0)"
    "\<not> collected \<Longrightarrow> cr' = cr\<lparr>Status := (Status cr)\<lparr>Conditions := conds\<rparr>\<rparr> \<and> ch = ch0"
    "collected \<Longrightarrow> cr' = cr\<lparr>Status := \<lparr>ObservedGeneration = crGeneration cr, Conditions = conds,
        Components = merged_entries ssc cr ccs\<rparr>\<rparr> \<and>
      (ch \<longleftrightarrow> ch0 \<or> SortFunc ccName (Components (Status cr)) \<noteq> merged_entries ssc cr ccs \<or>
         ObservedGeneration (Status cr) \<noteq> crGeneration cr)"
proof -
  obtain conds ch0 where
    s: "set_conditions ssc (crGeneration cr) (rolled_up ccs collected missing err) (Conditions (Status cr)) False = (conds, ch0)"
    by fastforce
  have "\<not> collected \<Longrightarrow> cr' = cr\<lparr>Status := (Status cr)\<lparr>Conditions := conds\<rparr>\<rparr> \<and> ch = ch0"
    using assms s by (simp add: aggregateStatus_def Let_def rolled_up_def)
  moreover have "cr' = cr\<lparr>Status := \<lparr>ObservedGeneration = crGeneration cr, Conditions = conds,
        Components = merged_entries ssc cr ccs\<rparr>\<rparr> \<and>
      (ch \<longleftrightarrow> ch0 \<or> SortFunc ccName (Components (Status cr)) \<noteq> merged_entries ssc cr ccs \<or>
         ObservedGeneration (Status cr) \<noteq> crGeneration cr)" if c: "collected"
  proof -
    have "aggregateStatus ssc cr ccs collected missing err =
      (case setComponentStatuses ssc (cr\<lparr>Status := (Status cr)\<lparr>Conditions := conds\<rparr>\<rparr>) ccs of
             (cr2, ch) \<Rightarrow>
               if ObservedGeneration (Status cr2) \<noteq> crGeneration cr2
               then (cr2\<lparr>Status := (Status cr2)\<lparr>ObservedGeneration := crGeneration cr2\<rparr>\<rparr>, True)
               else (cr2, ch \<or> ch0))"
      using c s by (simp add: aggregateStatus_def Let_def rolled_up_def)
    with assms show ?thesis
      by (cases "Status cr") (auto simp: setComponentStatuses_def Let_def merged_entries_def split: if_splits)
  qed
  ultimately show thesis using that s by blast
qed

lemma degraded_status:
  "cStatus (degradedCondition missing err) = ConditionTrue \<longleftrightarrow> missing \<noteq> [] \<or> err \<noteq> None"
  "cReason (degradedCondition missing err) =
     (if missing \<noteq> [] then ReasonReferencedSecretMissing else if err \<noteq> None then ReasonReconcileError else ReasonAsExpected)"
  by (simp_all add: degradedCondition_def)

lemma aggregateStatus_incomplete:
  assumes "ssc_documented ssc" "distinct (map cType (Conditions (Status cr)))"
    and "aggregateStatus ssc cr ccs False missing err = (cr', changed)"
  shows "cr' = cr\<lparr>Status := (Status cr)\<lparr>Conditions := Conditions (Status cr')\<rparr>\<rparr> \<and>
    (\<forall>t. t \<noteq> ConditionDegraded \<longrightarrow> find_cond t (Conditions (Status cr')) = find_cond t (Conditions (Status cr))) \<and>
    (\<exists>d. find_cond ConditionDegraded (Conditions (Status cr')) = Some d \<and>
       (cStatus d = ConditionTrue \<longleftrightarrow> missing \<noteq> [] \<or> err \<noteq> None) \<and>
       cReason d = (if missing \<noteq> [] then ReasonReferencedSecretMissing
         else if err \<noteq> None then ReasonReconcileError else ReasonAsExpected) \<and>
       cObservedGeneration d = crGeneration cr) \<and>
    (\<not> changed \<longrightarrow> cr' = cr)"
proof (rule aggregateStatus_cases [OF assms(3)])
  fix conds ch0
  assume s: "set_conditions ssc (crGeneration cr) (rolled_up ccs False missing err) (Conditions (Status cr)) False = (conds, ch0)"
    and r: "\<not> False \<Longrightarrow> cr' = cr\<lparr>Status := (Status cr)\<lparr>Conditions := conds\<rparr>\<rparr> \<and> changed = ch0"
  note spec = set_conditions_spec [OF assms(1,2) rolled_up_types s]
  have ru: "rolled_up ccs False missing err = [degradedCondition missing err]" by (simp add: rolled_up_def)
  from r have cr': "cr' = cr\<lparr>Status := (Status cr)\<lparr>Conditions := conds\<rparr>\<rparr>" "changed = ch0" by auto
  from spec obtain d where "find_cond ConditionDegraded conds = Some d"
      "same_content d (stamped (crGeneration cr) (degradedCondition missing err))"
    unfolding ru by auto
  moreover from spec have "\<forall>t. t \<noteq> ConditionDegraded \<longrightarrow> find_cond t conds = find_cond t (Conditions (Status cr))"
    unfolding ru by auto
  moreover have "\<not> changed \<longrightarrow> cr' = cr" using spec cr' by (cases cr; cases "Status cr") auto
  ultimately show ?thesis
    by (auto simp: cr'(1) same_content_def degraded_status)
qed

text \<open>
  A reconcile that fails before every component has reported touches nothing of the published
  health: the Available and Progressing conditions, the component entries and the observed
  generation stay as they were; only Degraded is set, for the current generation, with a missing
  Secret taking precedence over the error, and a report of "no change" means that the resource is
  unchanged.
\<close>

theorem aggregate_incomplete:
  assumes "ssc_documented ssc" "distinct (map cType (Conditions (Status cr)))"
    and "aggregateStatus ssc cr ccs False missing err = (cr', changed)"
  shows "cr' = cr\<lparr>Status := (Status cr)\<lparr>Conditions := Conditions (Status cr')\<rparr>\<rparr> \<and>
    (\<forall>t. t \<noteq> ConditionDegraded \<longrightarrow> find_cond t (Conditions (Status cr')) = find_cond t (Conditions (Status cr))) \<and>
    (\<exists>d. find_cond ConditionDegraded (Conditions (Status cr')) = Some d \<and>
       (cStatus d = ConditionTrue \<longleftrightarrow> missing \<noteq> [] \<or> err \<noteq> None) \<and>
       cReason d = (if missing \<noteq> [] then ReasonReferencedSecretMissing
         else if err \<noteq> None then ReasonReconcileError else ReasonAsExpected) \<and>
       cObservedGeneration d = crGeneration cr) \<and>
    (\<not> changed \<longrightarrow> cr' = cr)"
  using assms by (rule aggregateStatus_incomplete)

lemma flatten_all: "(\<forall>c \<in> set (flattenConditions ccs). P c) \<longleftrightarrow> (\<forall>e \<in> set ccs. \<forall>c \<in> set (ccConditions e). P c)"
  by (auto simp: flattenConditions_def)

lemma aggregateStatus_complete:
  assumes "ssc_documented ssc" "distinct (map cType (Conditions (Status cr)))"
    and "aggregateStatus ssc cr ccs True missing err = (cr', changed)"
  shows "ObservedGeneration (Status cr') = crGeneration cr \<and>
    (\<exists>a p d. find_cond ConditionAvailable (Conditions (Status cr')) = Some a \<and>
       find_cond ConditionProgressing (Conditions (Status cr')) = Some p \<and>
       find_cond ConditionDegraded (Conditions (Status cr')) = Some d \<and>
       (cStatus a = ConditionTrue \<longleftrightarrow>
         (\<forall>e \<in> set ccs. \<forall>c \<in> set (ccConditions e). cType c = ConditionAvailable \<longrightarrow> cStatus c = ConditionTrue)) \<and>
       (cStatus p = ConditionFalse \<longleftrightarrow>
         (\<forall>e \<in> set ccs. \<forall>c \<in> set (ccConditions e). cType c = ConditionProgressing \<longrightarrow> cStatus c = ConditionFalse)) \<and>
       (cStatus d = ConditionTrue \<longleftrightarrow> missing \<noteq> [] \<or> err \<noteq> None) \<and>
       list_all (\<lambda>c. cObservedGeneration c = crGeneration cr) [a, p, d])"
proof (rule aggregateStatus_cases [OF assms(3)])
  fix conds ch0
  assume s: "set_conditions ssc (crGeneration cr) (rolled_up ccs True missing err) (Conditions (Status cr)) False = (conds, ch0)"
    and r: "True \<Longrightarrow> cr' = cr\<lparr>Status := \<lparr>ObservedGeneration = crGeneration cr, Conditions = conds,
        Components = merged_entries ssc cr ccs\<rparr>\<rparr> \<and>
      (changed \<longleftrightarrow> ch0 \<or> SortFunc ccName (Components (Status cr)) \<noteq> merged_entries ssc cr ccs \<or>
         ObservedGeneration (Status cr) \<noteq> crGeneration cr)"
  have st: "Status cr' = \<lparr>ObservedGeneration = crGeneration cr, Conditions = conds,
        Components = merged_entries ssc cr ccs\<rparr>" using r by simp
  note spec = set_conditions_spec [OF assms(1,2) rolled_up_types s]
  let ?r = "\<lambda>typ reason msg ex. rollupCondition typ (flattenConditions ccs) reason msg ex"
  have get: "\<exists>d. find_cond (cType c) conds = Some d \<and> same_content d (stamped (crGeneration cr) c)"
    if "c \<in> set (rolled_up ccs True missing err)" for c
    using spec that by blast
  from get [of "?r ConditionAvailable ReasonDeploymentAvailable ''all components are available'' ConditionTrue"]
  obtain a where a: "find_cond ConditionAvailable conds = Some a" "same_content a (stamped (crGeneration cr)
      (?r ConditionAvailable ReasonDeploymentAvailable ''all components are available'' ConditionTrue))"
    by (auto simp: rolled_up_def)
  from get [of "?r ConditionProgressing ReasonRolloutComplete ''all components have completed rollout'' ConditionFalse"]
  obtain p where p: "find_cond ConditionProgressing conds = Some p" "same_content p (stamped (crGeneration cr)
      (?r ConditionProgressing ReasonRolloutComplete ''all components have completed rollout'' ConditionFalse))"
    by (auto simp: rolled_up_def)
  from get [of "degradedCondition missing err"]
  obtain d where d: "find_cond ConditionDegraded conds = Some d"
    "same_content d (stamped (crGeneration cr) (degradedCondition missing err))"
    by (auto simp: rolled_up_def)
  have "cStatus a = ConditionTrue \<longleftrightarrow>
      (\<forall>c \<in> set (flattenConditions ccs). cType c = ConditionAvailable \<longrightarrow> cStatus c = ConditionTrue)"
    using a(2) by (simp add: same_content_def rollup_expected)
  moreover have "cStatus p = ConditionFalse \<longleftrightarrow>
      (\<forall>c \<in> set (flattenConditions ccs). cType c = ConditionProgressing \<longrightarrow> cStatus c = ConditionFalse)"
    using p(2) by (simp add: same_content_def rollup_expected)
  moreover have "cStatus d = ConditionTrue \<longleftrightarrow> missing \<noteq> [] \<or> err \<noteq> None"
    using d(2) by (simp add: same_content_def degraded_status)
  ultimately show ?thesis
    using a p d by (auto simp: st flatten_all same_content_def)
qed

text \<open>
  C29: A reconcile in which every component reported publishes the roll-up for the current
  generation: Available is True exactly when every Available condition of every component is,
  Progressing is False exactly when every Progressing condition is, Degraded reflects the missing
  Secrets and the error, and each condition carries that generation.
\<close>

theorem aggregate_complete:
  assumes "ssc_documented ssc" "distinct (map cType (Conditions (Status cr)))"
    and "aggregateStatus ssc cr ccs True missing err = (cr', changed)"
  shows "ObservedGeneration (Status cr') = crGeneration cr \<and>
    (\<exists>a p d. find_cond ConditionAvailable (Conditions (Status cr')) = Some a \<and>
       find_cond ConditionProgressing (Conditions (Status cr')) = Some p \<and>
       find_cond ConditionDegraded (Conditions (Status cr')) = Some d \<and>
       (cStatus a = ConditionTrue \<longleftrightarrow>
         (\<forall>e \<in> set ccs. \<forall>c \<in> set (ccConditions e). cType c = ConditionAvailable \<longrightarrow> cStatus c = ConditionTrue)) \<and>
       (cStatus p = ConditionFalse \<longleftrightarrow>
         (\<forall>e \<in> set ccs. \<forall>c \<in> set (ccConditions e). cType c = ConditionProgressing \<longrightarrow> cStatus c = ConditionFalse)) \<and>
       (cStatus d = ConditionTrue \<longleftrightarrow> missing \<noteq> [] \<or> err \<noteq> None) \<and>
       list_all (\<lambda>c. cObservedGeneration c = crGeneration cr) [a, p, d])"
  using assms by (rule aggregateStatus_complete)

lemma map_SortFunc: "map key (SortFunc key xs) = sort (map key xs)"
  unfolding SortFunc_def by (rule properties_for_sort [symmetric]) simp_all

lemma merged_entries_names: "map ccName (merged_entries ssc cr ccs) = sort (map ccName ccs)"
  by (simp add: merged_entries_def merge_entry_def Let_def comp_def flip: map_SortFunc)

text \<open>
  The published component entries are rebuilt from the reports: they are sorted by component
  name, an entry has exactly the condition types that its component reported, with the reported
  content for the current generation, and a condition whose status did not change keeps its
  transition time.
\<close>

theorem component_entries:
  assumes "ssc_documented ssc" "wf_status (Status cr)" "wf_reports ccs" "e \<in> set ccs"
    and "aggregateStatus ssc cr ccs True missing err = (cr', changed)"
  shows "map ccName (Components (Status cr')) = sort (map ccName ccs) \<and>
    (\<exists>e'. e' \<in> set (Components (Status cr')) \<and> ccName e' = ccName e \<and>
       distinct (map cType (ccConditions e')) \<and>
       set (map cType (ccConditions e')) = set (map cType (ccConditions e)) \<and>
       (\<forall>c \<in> set (ccConditions e). \<exists>x. find_cond (cType c) (ccConditions e') = Some x \<and>
          same_content x (c\<lparr>cObservedGeneration := crGeneration cr\<rparr>) \<and>
          (\<forall>y. find_cond (cType c) (published_conds (Components (Status cr)) (ccName e)) = Some y \<longrightarrow>
             cStatus y = cStatus c \<longrightarrow> cLastTransitionTime x = cLastTransitionTime y)))"
proof (rule aggregateStatus_cases [OF assms(5)])
  fix conds ch0
  assume r: "True \<Longrightarrow> cr' = cr\<lparr>Status := \<lparr>ObservedGeneration = crGeneration cr, Conditions = conds,
        Components = merged_entries ssc cr ccs\<rparr>\<rparr> \<and>
      (changed \<longleftrightarrow> ch0 \<or> SortFunc ccName (Components (Status cr)) \<noteq> merged_entries ssc cr ccs \<or>
         ObservedGeneration (Status cr) \<noteq> crGeneration cr)"
  have cs: "Components (Status cr') = merged_entries ssc cr ccs" using r by simp
  have wfc: "list_all (\<lambda>e. distinct (map cType (ccConditions e))) (Components (Status cr))"
    and wfe: "distinct (map cType (ccConditions e))"
    using assms(2-4) by (auto simp: wf_status_def wf_reports_def list_all_iff)
  let ?e = "merge_entry ssc (crGeneration cr) (Components (Status cr)) e"
  have "?e \<in> set (Components (Status cr'))"
    using assms(4) by (simp add: cs merged_entries_def)
  moreover note m = merge_entry_spec [OF assms(1) wfc wfe, where g = "crGeneration cr"]
  have "\<forall>c \<in> set (ccConditions e). \<exists>x. find_cond (cType c) (ccConditions ?e) = Some x \<and>
          same_content x (stamped (crGeneration cr) c) \<and>
          (\<forall>y. find_cond (cType c) (published_conds (Components (Status cr)) (ccName e)) = Some y \<longrightarrow>
             cStatus y = cStatus c \<longrightarrow> cLastTransitionTime x = cLastTransitionTime y)"
    using m(4) by blast
  ultimately show ?thesis using m(1-3) merged_entries_names [of ssc cr ccs] unfolding cs by metis
qed

lemma wf_aggregate:
  assumes "ssc_documented ssc" "wf_status (Status cr)" "wf_reports ccs"
    and "aggregateStatus ssc cr ccs collected missing err = (cr', changed)"
  shows "wf_status (Status cr')"
proof (rule aggregateStatus_cases [OF assms(4)])
  fix conds ch0
  assume s: "set_conditions ssc (crGeneration cr) (rolled_up ccs collected missing err) (Conditions (Status cr)) False = (conds, ch0)"
    and n: "\<not> collected \<Longrightarrow> cr' = cr\<lparr>Status := (Status cr)\<lparr>Conditions := conds\<rparr>\<rparr> \<and> changed = ch0"
    and r: "collected \<Longrightarrow> cr' = cr\<lparr>Status := \<lparr>ObservedGeneration = crGeneration cr, Conditions = conds,
        Components = merged_entries ssc cr ccs\<rparr>\<rparr> \<and>
      (changed \<longleftrightarrow> ch0 \<or> SortFunc ccName (Components (Status cr)) \<noteq> merged_entries ssc cr ccs \<or>
         ObservedGeneration (Status cr) \<noteq> crGeneration cr)"
  have wf: "distinct (map cType (Conditions (Status cr)))"
    and wfc: "list_all (\<lambda>e. distinct (map cType (ccConditions e))) (Components (Status cr))"
    using assms(2) by (auto simp: wf_status_def)
  have d: "distinct (map cType conds)"
    using set_conditions_spec [OF assms(1) wf rolled_up_types s] by blast
  have "list_all (\<lambda>e. distinct (map cType (ccConditions e))) (merged_entries ssc cr ccs)"
    using merge_entry_spec(2) [OF assms(1) wfc] assms(3)
    by (auto simp: merged_entries_def list_all_iff wf_reports_def)
  with d n r wfc show ?thesis by (cases collected) (auto simp: wf_status_def)
qed

lemma find_by_key: "distinct (map f xs) \<Longrightarrow> x \<in> set xs \<Longrightarrow> find (\<lambda>y. f y = f x) xs = Some x"
  by (induction xs) auto

lemma merged_again:
  assumes "ssc_documented ssc" and doc: "ssc_documented ssc'" and "wf_status (Status cr)" "wf_reports ccs"
    and "Components (Status cr') = merged_entries ssc cr ccs" "crGeneration cr' = crGeneration cr"
  shows "merged_entries ssc' cr' ccs = merged_entries ssc cr ccs"
proof -
  have wfc: "list_all (\<lambda>e. distinct (map cType (ccConditions e))) (Components (Status cr))"
    and wfe: "e \<in> set ccs \<Longrightarrow> distinct (map cType (ccConditions e))" for e
    using assms(3,4) by (auto simp: wf_status_def wf_reports_def list_all_iff)
  let ?m = "merge_entry ssc (crGeneration cr) (Components (Status cr))"
  have "merge_entry ssc' (crGeneration cr') (Components (Status cr')) e = ?m e" if e: "e \<in> set ccs" for e
  proof -
    note m = merge_entry_spec [OF assms(1) wfc wfe [OF e], where g = "crGeneration cr"]
    have "distinct (map ccName (merged_entries ssc cr ccs))"
      using assms(4) by (simp add: merged_entries_names wf_reports_def)
    moreover have "?m e \<in> set (merged_entries ssc cr ccs)"
      using e by (simp add: merged_entries_def)
    ultimately have "findComponentEntry (merged_entries ssc cr ccs) (ccName e) = Some (?m e)"
      using find_by_key [of ccName "merged_entries ssc cr ccs" "?m e"] m(1) by (simp add: findComponentEntry_def)
    then have pub: "published_conds (Components (Status cr')) (ccName e) = ccConditions (?m e)"
      by (simp add: published_conds_def assms(5))
    have "\<exists>x. find_cond (cType c) (ccConditions (?m e)) = Some x \<and> same_content x (stamped (crGeneration cr) c)"
      if "c \<in> set (ccConditions e)" for c
      using m(4) [OF that] by blast
    then have "ccConditions (merge_entry ssc' (crGeneration cr') (Components (Status cr')) e) = ccConditions (?m e)"
      unfolding pub [symmetric] assms(6)
      by (intro merge_entry_noop [OF doc]) (simp_all only: pub m(2,3))
    then show ?thesis by (simp add: merge_entry_def Let_def)
  qed
  then show ?thesis by (simp add: merged_entries_def)
qed

text \<open>
  C30: Aggregation is idempotent: repeating it with the same reports, missing Secrets and error on
  the resource it has just produced, at any later time, reports no change and changes nothing, so a steady state writes
  no status and does not re-trigger itself.
\<close>

theorem aggregate_idempotent:
  assumes "ssc_documented ssc" "ssc_documented ssc'" "wf_status (Status cr)" "wf_reports ccs"
    and "aggregateStatus ssc cr ccs collected missing err = (cr', changed)"
  shows "aggregateStatus ssc' cr' ccs collected missing err = (cr', False)"
proof (rule aggregateStatus_cases [OF assms(5)])
  fix conds ch0
  assume s: "set_conditions ssc (crGeneration cr) (rolled_up ccs collected missing err) (Conditions (Status cr)) False = (conds, ch0)"
    and n: "\<not> collected \<Longrightarrow> cr' = cr\<lparr>Status := (Status cr)\<lparr>Conditions := conds\<rparr>\<rparr> \<and> changed = ch0"
    and r: "collected \<Longrightarrow> cr' = cr\<lparr>Status := \<lparr>ObservedGeneration = crGeneration cr, Conditions = conds,
        Components = merged_entries ssc cr ccs\<rparr>\<rparr> \<and>
      (changed \<longleftrightarrow> ch0 \<or> SortFunc ccName (Components (Status cr)) \<noteq> merged_entries ssc cr ccs \<or>
         ObservedGeneration (Status cr) \<noteq> crGeneration cr)"
  have wf: "distinct (map cType (Conditions (Status cr)))" using assms(3) by (simp add: wf_status_def)
  note spec = set_conditions_spec [OF assms(1) wf rolled_up_types s]
  have cr': "crGeneration cr' = crGeneration cr" "Conditions (Status cr') = conds"
    using n r by (cases collected; simp)+
  have "set_conditions ssc' (crGeneration cr) (rolled_up ccs collected missing err) conds False = (conds, False)"
    by (rule set_conditions_noop [OF assms(2)]) (use spec in blast)+
  then have s': "set_conditions ssc' (crGeneration cr') (rolled_up ccs collected missing err) (Conditions (Status cr')) False = (conds, False)"
    by (simp add: cr')
  obtain cr2 ch2 where a: "aggregateStatus ssc' cr' ccs collected missing err = (cr2, ch2)" by fastforce
  show ?thesis
  proof (rule aggregateStatus_cases [OF a])
    fix conds2 ch3
    assume s2: "set_conditions ssc' (crGeneration cr') (rolled_up ccs collected missing err) (Conditions (Status cr')) False = (conds2, ch3)"
      and n2: "\<not> collected \<Longrightarrow> cr2 = cr'\<lparr>Status := (Status cr')\<lparr>Conditions := conds2\<rparr>\<rparr> \<and> ch2 = ch3"
      and r2: "collected \<Longrightarrow> cr2 = cr'\<lparr>Status := \<lparr>ObservedGeneration = crGeneration cr', Conditions = conds2,
          Components = merged_entries ssc' cr' ccs\<rparr>\<rparr> \<and>
        (ch2 \<longleftrightarrow> ch3 \<or> SortFunc ccName (Components (Status cr')) \<noteq> merged_entries ssc' cr' ccs \<or>
           ObservedGeneration (Status cr') \<noteq> crGeneration cr')"
    have c2: "conds2 = conds" "\<not> ch3" using s' s2 by simp_all
    show ?thesis
    proof (cases collected)
      case False
      with n n2 c2 have "cr2 = cr' \<and> \<not> ch2" by (cases cr; cases "Status cr") simp
      with a show ?thesis by simp
    next
      case True
      with r have comps: "Components (Status cr') = merged_entries ssc cr ccs" by simp
      from merged_again [OF assms(1-4) comps cr'(1)] have me: "merged_entries ssc' cr' ccs = merged_entries ssc cr ccs" .
      have "SortFunc ccName (merged_entries ssc cr ccs) = merged_entries ssc cr ccs"
        unfolding SortFunc_def by (rule sort_key_id_if_sorted) (simp add: merged_entries_names)
      with True r r2 c2 me comps have "cr2 = cr' \<and> \<not> ch2" by (cases cr) simp
      with a show ?thesis by simp
    qed
  qed
qed

subsection \<open>An implementation with the documented behaviour\<close>

text \<open>A concrete condition setter for the witnesses: the clock is a constant.\<close>

fun example_ssc :: "nat \<Rightarrow> set_condition" where
  "example_ssc now [] c = ([c\<lparr>cLastTransitionTime := Some now\<rparr>], True)"
| "example_ssc now (x # xs) c =
     (if cType x = cType c
      then let x' = c\<lparr>cLastTransitionTime := (if cStatus x = cStatus c then cLastTransitionTime x else Some now)\<rparr>
           in (x' # xs, x' \<noteq> x)
      else case example_ssc now xs c of (xs', ch) \<Rightarrow> (x # xs', ch))"

lemma example_ssc_post: "distinct (map cType conds) \<Longrightarrow> example_ssc now conds c = (conds', ch) \<Longrightarrow> ssc_post conds c conds' ch"
proof (induction conds arbitrary: conds' ch)
  case Nil
  then show ?case by (auto simp: ssc_post_def find_cond_def same_content_def)
next
  case (Cons x xs)
  show ?case
  proof (cases "cType x = cType c")
    case True
    define x' where "x' = c\<lparr>cLastTransitionTime := (if cStatus x = cStatus c then cLastTransitionTime x else Some now)\<rparr>"
    have x': "cType x' = cType c" "same_content x' c" "cStatus x = cStatus c \<Longrightarrow> cLastTransitionTime x' = cLastTransitionTime x"
      by (simp_all add: x'_def same_content_def)
    from Cons.prems True have "conds' = x' # xs" "ch = (x' \<noteq> x)" by (auto simp: x'_def Let_def)
    with x' True show ?thesis by (auto simp: ssc_post_def find_cond_def)
  next
    case False
    with Cons.prems obtain xs' where xs': "example_ssc now xs c = (xs', ch)" "conds' = x # xs'"
      by (auto split: prod.splits)
    from Cons.IH [OF _ xs'(1)] Cons.prems(1) False show ?thesis
      by (auto simp: ssc_post_def find_cond_def xs'(2))
  qed
qed

lemma example_ssc_documented: "ssc_documented (example_ssc now)"
  using example_ssc_post by (auto simp: ssc_documented_def)


subsection \<open>Witnesses\<close>

definition example_reports :: "ComponentConditions list" where
  "example_reports =
    [\<lparr>ccName = ''sentinel-x'', ccConditions =
        [condition ConditionAvailable ConditionFalse ReasonDeploymentNotReady ''1/2'',
         condition ConditionProgressing ConditionTrue ReasonRolloutInProgress ''rolling'']\<rparr>,
     \<lparr>ccName = ''api'', ccConditions =
        [condition ConditionAvailable ConditionTrue ReasonDeploymentAvailable ''up'',
         condition ConditionProgressing ConditionFalse ReasonRolloutComplete ''done'']\<rparr>]"

lemma example_wf: "wf_reports example_reports" "wf_status (Status (example_config e j t))"
  by (simp_all add: wf_reports_def wf_status_def example_reports_def)

theorem aggregate_incomplete_witness:
  "\<exists>cr' d. aggregateStatus (example_ssc 5) (example_config None None None) [] False [''database''] None = (cr', True) \<and>
     find_cond ConditionDegraded (Conditions (Status cr')) = Some d \<and> cReason d = ReasonReferencedSecretMissing"
proof -
  obtain cr' ch where a: "aggregateStatus (example_ssc 5) (example_config None None None) [] False [''database''] None = (cr', ch)"
    by fastforce
  have "ch" using a by (auto simp: aggregateStatus_def degradedCondition_def Let_def)
  with aggregate_incomplete [OF example_ssc_documented _ a] a show ?thesis by auto
qed

theorem aggregate_complete_witness:
  "\<exists>cr' a. aggregateStatus (example_ssc 5) (example_config None None None) example_reports True [] None = (cr', True) \<and>
     find_cond ConditionAvailable (Conditions (Status cr')) = Some a \<and> cStatus a \<noteq> ConditionTrue"
proof -
  obtain cr' ch where a: "aggregateStatus (example_ssc 5) (example_config None None None) example_reports True [] None = (cr', ch)"
    by fastforce
  have "ch" by (rule aggregateStatus_cases [OF a]) simp
  with aggregate_complete [OF example_ssc_documented _ a] a show ?thesis
    by (auto simp: example_reports_def)
qed

theorem component_entries_witness:
  "\<exists>cr' ch. aggregateStatus (example_ssc 5) (example_config None None None) example_reports True [] None = (cr', ch) \<and>
     map ccName (Components (Status cr')) = [''api'', ''sentinel-x'']"
proof -
  obtain cr' ch where a: "aggregateStatus (example_ssc 5) (example_config None None None) example_reports True [] None = (cr', ch)"
    by fastforce
  have "sort (map ccName example_reports) = [''api'', ''sentinel-x'']"
    by (simp add: example_reports_def)
  with component_entries [OF example_ssc_documented example_wf(2,1) _ a, of "hd example_reports"] a show ?thesis
    by (simp add: example_reports_def)
qed

theorem aggregate_idempotent_witness:
  "\<exists>cr'. aggregateStatus (example_ssc 5) (example_config None None None) example_reports True [] None = (cr', True) \<and>
     aggregateStatus (example_ssc 9) cr' example_reports True [] None = (cr', False)"
proof -
  obtain cr' ch where a: "aggregateStatus (example_ssc 5) (example_config None None None) example_reports True [] None = (cr', ch)"
    by fastforce
  have "ch" by (rule aggregateStatus_cases [OF a]) simp
  with aggregate_idempotent [OF example_ssc_documented example_ssc_documented [of 9] example_wf(2,1) a] a show ?thesis by (auto simp: example_ssc_documented)
qed

end
