(* ===== verification/Json_Text.thy ===== *)
theory Json_Text
  imports Config_Hash
begin

section \<open>JSON text\<close>

text \<open>
  \<^verbatim>\<open>encoding/json\<close> with its default HTML escaping.  \<^verbatim>\<open>utf8.DecodeRune\<close> gives the size of the
  encoded character at the front of a text of bytes from 128 on, or nothing if there is none.
\<close>

definition in_range :: "nat \<Rightarrow> nat \<Rightarrow> char \<Rightarrow> bool" where
  "in_range lo hi c \<longleftrightarrow> lo \<le> of_char c \<and> of_char c \<le> hi"

definition second_byte_range :: "nat \<Rightarrow> nat \<times> nat" where
  "second_byte_range b = (if b = 224 then (160, 191) else if b = 237 then (128, 159)
     else if b = 240 then (144, 191) else if b = 244 then (128, 143) else (128, 191))"

definition rune_size :: "string \<Rightarrow> nat option" where
  "rune_size s = (case s of [] \<Rightarrow> None | c # cs \<Rightarrow>
     let b = of_char c :: nat;
         n = (if 194 \<le> b \<and> b \<le> 223 then 1 else if 224 \<le> b \<and> b \<le> 239 then 2
              else if 240 \<le> b \<and> b \<le> 244 then 3 else 0);
         (lo, hi) = second_byte_range b
     in if n = 0 \<or> length cs < n then None
        else if \<not> in_range lo hi (cs ! 0) then None
        else if \<not> list_all (in_range 128 191) (take (n - 1) (tl cs)) then None
        else Some (n + 1))"

definition backslash :: char where "backslash = CHR 0x5C"

definition hex4 :: "nat \<Rightarrow> string" where
  "hex4 n = backslash # CHR ''u'' # map hex_digit [n div 4096 mod 16, n div 256 mod 16, n div 16 mod 16, n mod 16]"

definition escape_ascii :: "char \<Rightarrow> string" where
  "escape_ascii c = (let n = of_char c :: nat in
     if n = 34 \<or> n = 92 then [backslash, c]
     else if n = 8 then [backslash, CHR ''b''] else if n = 12 then [backslash, CHR ''f'']
     else if n = 10 then [backslash, CHR ''n''] else if n = 13 then [backslash, CHR ''r'']
     else if n = 9 then [backslash, CHR ''t'']
     else if n < 32 \<or> n = 60 \<or> n = 62 \<or> n = 38 then hex4 n else [c])"

function json_body :: "string \<Rightarrow> string" where
  "json_body s = (case s of [] \<Rightarrow> [] | c # cs \<Rightarrow>
     if (of_char c :: nat) < 128 then escape_ascii c @ json_body cs
     else case rune_size s of
         None \<Rightarrow> hex4 65533 @ json_body cs
       | Some n \<Rightarrow>
           (if take n s = [CHR 0xE2, CHR 0x80, CHR 0xA8] then hex4 8232
            else if take n s = [CHR 0xE2, CHR 0x80, CHR 0xA9] then hex4 8233
            else take n s) @ json_body (drop (n - 1) cs))"
  by pat_completeness auto
termination
  by (relation "measure length") auto

declare json_body.simps [simp del]

definition json_string :: "string \<Rightarrow> string" where
  "json_string s = CHR 0x22 # json_body s @ [CHR 0x22]"

fun json_Marshal :: "json \<Rightarrow> string" where
  "json_Marshal (JBool b) = (if b then ''true'' else ''false'')"
| "json_Marshal (JNum i) = itoa i"
| "json_Marshal (JStr s) = json_string s"
| "json_Marshal (JArr js) = ''['' @ strings_Join (map json_Marshal js) '','' @ '']''"
| "json_Marshal (JObj ms) =
     ''{'' @ strings_Join (map (\<lambda>(k, v). json_string k @ '':'' @ json_Marshal v) ms) '','' @ ''}''"

subsection \<open>Valid UTF-8\<close>

function valid_utf8 :: "string \<Rightarrow> bool" where
  "valid_utf8 s = (case s of [] \<Rightarrow> True | c # cs \<Rightarrow>
     if (of_char c :: nat) < 128 then valid_utf8 cs
     else case rune_size s of None \<Rightarrow> False | Some n \<Rightarrow> valid_utf8 (drop (n - 1) cs))"
  by pat_completeness auto
termination
  by (relation "measure length") auto

declare valid_utf8.simps [simp del]

lemma valid_ascii: "list_all (\<lambda>c. (of_char c :: nat) < 128) s \<Longrightarrow> valid_utf8 s"
  by (induction s) (simp_all add: valid_utf8.simps)

lemma char_eqI: "of_char c = (k :: nat) \<Longrightarrow> of_char d = k \<Longrightarrow> c = d"
  by (metis of_char_eq_iff)

lemma rune_size_bytes:
  assumes "rune_size s = Some n"
  shows "list_all (\<lambda>c. 128 \<le> (of_char c :: nat)) (take n s) \<and> 2 \<le> n \<and> n \<le> length s"
proof -
  from assms obtain c cs where s: "s = c # cs" by (cases s) (auto simp: rune_size_def)
  define b k lo hi where "b = (of_char c :: nat)"
    and "k = (if 194 \<le> b \<and> b \<le> 223 then 1 else if 224 \<le> b \<and> b \<le> 239 then 2 else if 240 \<le> b \<and> b \<le> 244 then 3 else 0 :: nat)"
    and "lo = fst (second_byte_range b)" and "hi = snd (second_byte_range b)"
  have r: "k \<noteq> 0" "k \<le> length cs" "in_range lo hi (cs ! 0)" "list_all (in_range 128 191) (take (k - 1) (tl cs))" "n = Suc k"
    using assms unfolding s rune_size_def
    by (auto simp: Let_def k_def lo_def hi_def b_def split: prod.splits if_splits)
  have lo: "128 \<le> lo" by (simp add: lo_def second_byte_range_def)
  have "128 \<le> b" using r(1) by (auto simp: k_def split: if_splits)
  moreover obtain d ds where cs: "cs = d # ds" using r(1,2) by (cases cs) auto
  moreover have "128 \<le> (of_char d :: nat)" using r(3) lo cs by (simp add: in_range_def)
  moreover have "list_all (\<lambda>c. 128 \<le> (of_char c :: nat)) (take (k - 1) ds)"
    using r(4) cs by (auto simp: list_all_iff in_range_def)
  ultimately show ?thesis using r(1,2,5) s b_def by (cases k) auto
qed

lemma strings_Join_concat: "strings_Join (x # xs) sep = x @ concat (map (\<lambda>y. sep @ y) xs)"
  by (induction xs arbitrary: x) simp_all

lemma four_hex:
  assumes "n < 65536"
  shows "n div 4096 mod 16 * 4096 + n div 256 mod 16 * 256 + n div 16 mod 16 * 16 + n mod 16 = (n :: nat)"
proof -
  have "n div 4096 mod 16 = n div 4096" using assms by simp
  moreover have "n div 4096 * 16 + n div 256 mod 16 = n div 256" using div_mult_mod_eq [of "n div 256" 16] by (simp add: div_mult2_eq [symmetric])
  moreover have "n div 256 * 16 + n div 16 mod 16 = n div 16" using div_mult_mod_eq [of "n div 16" 16] by (simp add: div_mult2_eq [symmetric])
  moreover have "n div 16 * 16 + n mod 16 = n" by simp
  ultimately show ?thesis by linarith
qed

end
