(* ===== verification/Effects.thy ===== *)
theory Effects
  imports Discovery_Policy Status_Rollup Json_Text
begin

section \<open>The outside world, the metrics and the operator's own state\<close>

text \<open>
  The reconciler talks to the API server, to an identity provider and to a few third-party
  functions.  They are the fields of \<open>env\<close>: an operation on the outside world is a function of the
  world's state \<open>'w\<close>, about which nothing is known, and may change it; the pure functions are
  plain fields.  \<open>sys\<close> is what a reconcile acts on: the world, the calls made so far, the reconciler's
  discovery cache and lazily built HTTP client
  (\<^verbatim>\<open>internal/controller/hyperfleetconfig_controller.go\<close>), and the process-wide metrics
  (\<^verbatim>\<open>internal/metrics/metrics.go\<close>).
\<close>

subsection \<open>HTTP\<close>

text \<open>A client, as far as the operator configures it: the check on an address about to be dialled,
  the answer to a redirect, and the time limit in seconds.\<close>

record http_client =
  hcControl :: "string \<Rightarrow> error option"
  hcCheckRedirect :: "error option"
  hcTimeout :: nat

text \<open>A response: the status, the bytes that the body delivers, and the error that ends it early.\<close>

record http_response =
  hrStatusCode :: int
  hrBody :: string
  hrBodyError :: "error option"

subsection \<open>The environment\<close>

record 'w env =
  envGetCR :: "string \<Rightarrow> 'w \<Rightarrow> HyperFleetConfig result \<times> 'w"
  envGetSecret :: "string \<Rightarrow> string \<Rightarrow> 'w \<Rightarrow> string result \<times> 'w"
  envGetDeployment :: "string \<Rightarrow> string \<Rightarrow> 'w \<Rightarrow> Deployment result \<times> 'w"
  envApply :: "obj \<Rightarrow> 'w \<Rightarrow> error option \<times> 'w"
  envRefresh :: "obj \<Rightarrow> 'w \<Rightarrow> obj result \<times> 'w"
  envStatusUpdate :: "HyperFleetConfig \<Rightarrow> 'w \<Rightarrow> error option \<times> 'w"
  envHTTPDo :: "http_client \<Rightarrow> string \<Rightarrow> 'w \<Rightarrow> http_response result \<times> 'w"
  envSetControllerReference :: "HyperFleetConfig \<Rightarrow> obj \<Rightarrow> obj result"
  envToUnstructured :: "obj \<Rightarrow> error option"
  envMarshalTemplate :: "PodTemplate \<Rightarrow> string result"
  envYAML :: "json \<Rightarrow> string result"
  envSetStatusCondition :: "'w \<Rightarrow> Condition list \<Rightarrow> Condition \<Rightarrow> Condition list \<times> bool"

datatype call =
    GetCR string
  | GetSecret string string
  | GetDeployment string string
  | Apply obj
  | Refresh obj
  | StatusUpdate HyperFleetConfig
  | HTTPGet http_client string

subsection \<open>Metrics\<close>

definition TriggerCreate :: string where "TriggerCreate = ''create''"
definition TriggerImage :: string where "TriggerImage = ''image''"
definition TriggerConfig :: string where "TriggerConfig = ''config''"

record metrics =
  mReconcileDuration :: nat
  mReconcileErrors :: "string \<Rightarrow> nat"
  mOperandReady :: "string \<rightharpoonup> bool"
  mOperandRollouts :: "string \<times> string \<Rightarrow> nat"
  mAppliedConfig :: "string \<rightharpoonup> nat"
  mBuildInfo :: "string \<times> string \<rightharpoonup> nat"
  mUp :: nat

definition metrics_Init :: "string \<Rightarrow> string \<Rightarrow> metrics \<Rightarrow> metrics" where
  "metrics_Init commit goVersion m = m\<lparr>mBuildInfo := (mBuildInfo m)((commit, goVersion) \<mapsto> 1), mUp := 1\<rparr>"

text \<open>The histogram is reduced to the number of its observations.\<close>

definition ObserveReconcile :: "metrics \<Rightarrow> metrics" where
  "ObserveReconcile m = m\<lparr>mReconcileDuration := mReconcileDuration m + 1\<rparr>"

definition IncReconcileError :: "string \<Rightarrow> metrics \<Rightarrow> metrics" where
  "IncReconcileError reason m =
     m\<lparr>mReconcileErrors := (mReconcileErrors m)(reason := mReconcileErrors m reason + 1)\<rparr>"

definition SetOperandReady :: "string \<Rightarrow> bool \<Rightarrow> metrics \<Rightarrow> metrics" where
  "SetOperandReady operand ready m = m\<lparr>mOperandReady := (mOperandReady m)(operand \<mapsto> ready)\<rparr>"

definition IncOperandRollout :: "string \<Rightarrow> string \<Rightarrow> metrics \<Rightarrow> metrics" where
  "IncOperandRollout operand trigger m = m\<lparr>mOperandRollouts :=
     (mOperandRollouts m)((operand, trigger) := mOperandRollouts m (operand, trigger) + 1)\<rparr>"

definition SetAppliedConfigHash :: "string \<Rightarrow> metrics \<Rightarrow> metrics" where
  "SetAppliedConfigHash hash m = m\<lparr>mAppliedConfig := Map.empty(hash \<mapsto> 1)\<rparr>"

lemma metrics_sel [simp]:
  "mReconcileErrors (ObserveReconcile m) = mReconcileErrors m"
  "mReconcileErrors (SetOperandReady c b m) = mReconcileErrors m"
  "mReconcileErrors (IncOperandRollout c t m) = mReconcileErrors m"
  "mReconcileErrors (SetAppliedConfigHash h m) = mReconcileErrors m"
  "mOperandRollouts (ObserveReconcile m) = mOperandRollouts m"
  "mOperandRollouts (SetOperandReady c b m) = mOperandRollouts m"
  "mOperandRollouts (IncReconcileError e m) = mOperandRollouts m"
  "mOperandRollouts (SetAppliedConfigHash h m) = mOperandRollouts m"
  "mReconcileDuration (SetOperandReady c b m) = mReconcileDuration m"
  "mReconcileDuration (IncOperandRollout c t m) = mReconcileDuration m"
  "mReconcileDuration (IncReconcileError e m) = mReconcileDuration m"
  "mReconcileDuration (SetAppliedConfigHash h m) = mReconcileDuration m"
  "mReconcileDuration (ObserveReconcile m) = mReconcileDuration m + 1"
  "mAppliedConfig (ObserveReconcile m) = mAppliedConfig m"
  "mAppliedConfig (SetOperandReady c b m) = mAppliedConfig m"
  "mAppliedConfig (IncOperandRollout c t m) = mAppliedConfig m"
  "mAppliedConfig (IncReconcileError e m) = mAppliedConfig m"
  "mAppliedConfig (SetAppliedConfigHash h m) = [h \<mapsto> 1]"
  by (simp_all add: ObserveReconcile_def SetOperandReady_def IncOperandRollout_def SetAppliedConfigHash_def
      IncReconcileError_def)

subsection \<open>The reconciler and its state\<close>

record reconciler =
  OperatorNamespace :: string
  APIImage :: string
  SentinelImage :: string
  rBrokerInfo :: "BrokerInfo option"
  HTTPClient :: "http_client option"

record 'w sys =
  world :: 'w
  calls :: "call list"
  discoveryCache :: "string \<rightharpoonup> string"
  discoveryClient :: "http_client option"
  clientsBuilt :: nat
  metrics :: metrics

definition with_metrics :: "(metrics \<Rightarrow> metrics) \<Rightarrow> 'w sys \<Rightarrow> 'w sys" where
  "with_metrics f s = s\<lparr>metrics := f (metrics s)\<rparr>"

text \<open>An operation of the environment, recorded.\<close>

definition perform :: "call \<Rightarrow> ('w \<Rightarrow> 'a \<times> 'w) \<Rightarrow> 'w sys \<Rightarrow> 'a \<times> 'w sys" where
  "perform c f s = (case f (world s) of (a, w) \<Rightarrow> (a, s\<lparr>world := w, calls := calls s @ [c]\<rparr>))"

definition get_secret :: "'w env \<Rightarrow> string \<Rightarrow> string \<Rightarrow> 'w sys \<Rightarrow> string result \<times> 'w sys" where
  "get_secret env ns n = perform (GetSecret ns n) (envGetSecret env ns n)"

definition get_deployment :: "'w env \<Rightarrow> string \<Rightarrow> string \<Rightarrow> 'w sys \<Rightarrow> Deployment result \<times> 'w sys" where
  "get_deployment env ns n = perform (GetDeployment ns n) (envGetDeployment env ns n)"

lemma perform_sel [simp]:
  "perform c f s = (a, s') \<Longrightarrow> calls s' = calls s @ [c]"
  "perform c f s = (a, s') \<Longrightarrow> metrics s' = metrics s"
  "perform c f s = (a, s') \<Longrightarrow> discoveryCache s' = discoveryCache s"
  "perform c f s = (a, s') \<Longrightarrow> discoveryClient s' = discoveryClient s"
  "perform c f s = (a, s') \<Longrightarrow> clientsBuilt s' = clientsBuilt s"
  by (auto simp: perform_def split: prod.splits)

lemma perform_step: "perform c f s = (a, s') \<Longrightarrow> f (world s) = (a, world s')"
  unfolding perform_def by (cases "f (world s)") auto

lemma perform_result: "perform c f s = (a, s') \<Longrightarrow> fst (f (world s)) = a"
  by (drule perform_step) simp

lemma with_metrics_sel [simp]:
  "calls (with_metrics f s) = calls s" "metrics (with_metrics f s) = f (metrics s)"
  "discoveryCache (with_metrics f s) = discoveryCache s" "discoveryClient (with_metrics f s) = discoveryClient s"
  "clientsBuilt (with_metrics f s) = clientsBuilt s" "world (with_metrics f s) = world s"
  by (simp_all add: with_metrics_def)

subsection \<open>Start of the process, and an example world\<close>

definition zero_metrics :: metrics where
  "zero_metrics = \<lparr>mReconcileDuration = 0, mReconcileErrors = (\<lambda>_. 0), mOperandReady = Map.empty,
     mOperandRollouts = (\<lambda>_. 0), mAppliedConfig = Map.empty, mBuildInfo = Map.empty, mUp = 0\<rparr>"

definition init_sys :: "'w \<Rightarrow> 'w sys" where
  "init_sys w = \<lparr>world = w, calls = [], discoveryCache = Map.empty, discoveryClient = None,
     clientsBuilt = 0, metrics = zero_metrics\<rparr>"

text \<open>The answer of a provider: the document that names its issuer and its keys.\<close>

definition provider_document :: "string \<Rightarrow> string \<Rightarrow> string" where
  "provider_document i u = json_Marshal (JObj [(''issuer'', JStr i), (''jwks_uri'', JStr u)])"

definition example_response :: http_response where
  "example_response = \<lparr>hrStatusCode = 200, hrBody = provider_document ''https://idp/'' ''https://idp/keys'', hrBodyError = None\<rparr>"

text \<open>A world without state in which every call succeeds and no Deployment exists yet.\<close>

definition example_env :: "HyperFleetConfig \<Rightarrow> unit env" where
  "example_env cr =
     \<lparr>envGetCR = (\<lambda>_ w. (Inr cr, w)),
      envGetSecret = (\<lambda>_ _ w. (Inr ''7'', w)),
      envGetDeployment = (\<lambda>_ _ w. (Inl NotFound, w)),
      envApply = (\<lambda>_ w. (None, w)),
      envRefresh = (\<lambda>ob w. (Inr ob, w)),
      envStatusUpdate = (\<lambda>_ w. (None, w)),
      envHTTPDo = (\<lambda>_ _ w. (Inr example_response, w)),
      envSetControllerReference = (\<lambda>_ ob. Inr ob),
      envToUnstructured = (\<lambda>_. None),
      envMarshalTemplate = (\<lambda>_. Inr ''t''),
      envYAML = (\<lambda>_. Inr ''y''),
      envSetStatusCondition = (\<lambda>_. example_ssc 5)\<rparr>"

definition example_reconciler :: reconciler where
  "example_reconciler = \<lparr>OperatorNamespace = ''hyperfleet-system'', APIImage = [], SentinelImage = ''s:1'',
     rBrokerInfo = Some \<lparr>biType = ''rabbitmq'', biProjectID = []\<rparr>, HTTPClient = None\<rparr>"

end
