(* ===== verification/Go_URL.thy ===== *)
theory Go_URL
  imports Go_Net
begin

section \<open>Go's package net/url\<close>

text \<open>
  \<^verbatim>\<open>url.Parse\<close> of the Go 1.26 toolchain that builds the operator, as far as the program looks at its
  result: the error, the scheme and the host.  User information, path and fragment are checked as the
  library checks them, but their decoded form is not kept.  A text is a list of bytes.
\<close>

record parsed_url =
  urlScheme :: string
  urlHost :: string

subsection \<open>Bytes\<close>

definition is_alpha :: "char \<Rightarrow> bool" where
  "is_alpha c \<longleftrightarrow> (let n = of_char c :: nat in (65 \<le> n \<and> n \<le> 90) \<or> (97 \<le> n \<and> n \<le> 122))"

definition lower :: "char \<Rightarrow> char" where
  "lower c = (let n = of_char c :: nat in if 65 \<le> n \<and> n \<le> 90 then char_of (n + 32) else c)"

definition is_ctl :: "char \<Rightarrow> bool" where
  "is_ctl c \<longleftrightarrow> (let n = of_char c :: nat in n < 32 \<or> n = 127)"

text \<open>\<^verbatim>\<open>shouldEscape\<close> for the modes \<^verbatim>\<open>encodeHost\<close> and \<^verbatim>\<open>encodeZone\<close>, negated: letters, digits, the
  sub-delimiters, colon, brackets, and the unreserved marks stand for themselves.\<close>

definition host_plain :: "char \<Rightarrow> bool" where
  "host_plain c \<longleftrightarrow> is_alpha c \<or> is_digit c \<or> c \<in> set ''!$&()*+,;=:[]<>'' \<or> c \<in> {CHR 0x22, CHR 0x27} \<or> c \<in> set ''-_.~''"

text \<open>\<^verbatim>\<open>validUserinfo\<close>, which ranges over runes; none of its characters is outside ASCII.\<close>

definition validUserinfo :: "string \<Rightarrow> bool" where
  "validUserinfo s \<longleftrightarrow> list_all (\<lambda>c. is_alpha c \<or> is_digit c \<or> c = CHR 0x27 \<or> c \<in> set ''-._:~!$&()*+,;=%@'') s"

subsection \<open>Percent decoding\<close>

datatype encoding = encodePath | encodeHost | encodeZone | encodeUserPassword | encodeFragment

definition hostlike :: "encoding \<Rightarrow> bool" where
  "hostlike mode \<longleftrightarrow> mode = encodeHost \<or> mode = encodeZone"

text \<open>What a percent escape with these two digits stands for, if the mode allows it: in a host only bytes
  outside ASCII and the percent sign itself, in a zone also a space and what needs no escape.\<close>

definition unescape_pair :: "encoding \<Rightarrow> char \<Rightarrow> char \<Rightarrow> string result" where
  "unescape_pair mode a b =
     (case (hex_value a, hex_value b) of
        (Some hi, Some lo) \<Rightarrow>
          (let v = char_of (hi * 16 + lo); percent = (a = CHR ''2'' \<and> b = CHR ''5'') in
           if mode = encodeHost \<and> hi < 8 \<and> \<not> percent then Inl (Errorf ''invalid URL escape %q'' [[CHR ''%'', a, b]])
           else if mode = encodeZone \<and> \<not> percent \<and> v \<noteq> CHR '' '' \<and> \<not> host_plain v then
             Inl (Errorf ''invalid URL escape %q'' [[CHR ''%'', a, b]])
           else Inr [v])
      | _ \<Rightarrow> Inl (Errorf ''invalid URL escape %q'' [[CHR ''%'', a, b]]))"

fun unescape_url :: "encoding \<Rightarrow> string \<Rightarrow> string result" where
  "unescape_url mode [] = Inr []"
| "unescape_url mode (c # cs) =
     (if c = CHR ''%'' then
        (case cs of
           a # b # rest \<Rightarrow>
             (case unescape_pair mode a b of
                Inl e \<Rightarrow> Inl e
              | Inr v \<Rightarrow> (case unescape_url mode rest of Inl e \<Rightarrow> Inl e | Inr t \<Rightarrow> Inr (v @ t)))
         | _ \<Rightarrow> Inl (Errorf ''invalid URL escape %q'' [c # cs]))
      else if hostlike mode \<and> of_char c < (128 :: nat) \<and> \<not> host_plain c then
        Inl (Errorf ''invalid character %q in host name'' [[c]])
      else (case unescape_url mode cs of Inl e \<Rightarrow> Inl e | Inr t \<Rightarrow> Inr (c # t)))"

subsection \<open>Scheme\<close>

text \<open>The loop of \<^verbatim>\<open>getScheme\<close>: the whole text, the part already read, and the rest.\<close>

fun getScheme :: "string \<Rightarrow> string \<Rightarrow> string \<Rightarrow> (string \<times> string) result" where
  "getScheme raw pre [] = Inr ([], raw)"
| "getScheme raw pre (c # cs) =
     (if is_alpha c then getScheme raw (pre @ [c]) cs
      else if is_digit c \<or> c \<in> {CHR ''+'', CHR ''-'', CHR ''.''} then
        (if pre = [] then Inr ([], raw) else getScheme raw (pre @ [c]) cs)
      else if c = CHR '':'' then
        (if pre = [] then Inl (Errorf ''missing protocol scheme'' []) else Inr (pre, cs))
      else Inr ([], raw))"

subsection \<open>Authority\<close>

definition validOptionalPort :: "string \<Rightarrow> bool" where
  "validOptionalPort port \<longleftrightarrow> (case port of [] \<Rightarrow> True | c # cs \<Rightarrow> c = CHR '':'' \<and> list_all is_digit cs)"

text \<open>The position of the first occurrence of a text in another.\<close>

fun strings_Index :: "string \<Rightarrow> string \<Rightarrow> nat option" where
  "strings_Index s [] = Some 0"
| "strings_Index [] sub = None"
| "strings_Index (c # cs) sub =
     (if prefix sub (c # cs) then Some 0 else map_option Suc (strings_Index cs sub))"

definition unescape_bracketed :: "string \<Rightarrow> string result" where
  "unescape_bracketed hostname = (case strings_Index hostname ''%25'' of
       None \<Rightarrow> unescape_url encodeHost hostname
     | Some i \<Rightarrow>
         (case unescape_url encodeHost (take i hostname) of
            Inl e \<Rightarrow> Inl e
          | Inr hostPart \<Rightarrow>
              (case unescape_url encodeZone (drop i hostname) of
                 Inl e \<Rightarrow> Inl e
               | Inr zonePart \<Rightarrow> Inr (hostPart @ zonePart))))"

text \<open>A host in brackets is an IPv6 literal, with an optional port behind it.\<close>

definition parse_bracketed :: "string \<Rightarrow> string result" where
  "parse_bracketed host = (case last_index_byte host (CHR '']'') of
       None \<Rightarrow> Inl (Errorf ''missing ']' in host'' [])
     | Some k \<Rightarrow>
         if \<not> validOptionalPort (drop (k + 1) host) then Inl (Errorf ''invalid port %q after host'' [drop (k + 1) host])
         else (case unescape_url encodeHost (drop (k + 1) host) of
             Inl e \<Rightarrow> Inl e
           | Inr port \<Rightarrow>
               (case unescape_bracketed (drop 1 (take k host)) of
                  Inl e \<Rightarrow> Inl e
                | Inr hostname \<Rightarrow>
                    (case ParseAddr hostname of
                       None \<Rightarrow> Inl (Errorf ''invalid host: %w'' [hostname])
                     | Some (Addr4 _) \<Rightarrow> Inl (Errorf ''invalid IP-literal'' [])
                     | Some (Addr16 _ _) \<Rightarrow> Inr (''['' @ hostname @ '']'' @ port)))))"

text \<open>Everything from the first colon on must be a port; for PostgreSQL, from the last one on.\<close>

definition parseHost :: "string \<Rightarrow> string \<Rightarrow> string result" where
  "parseHost scheme host = (case last_index_byte host (CHR ''['') of
       Some 0 \<Rightarrow> parse_bracketed host
     | Some (Suc _) \<Rightarrow> Inl (Errorf ''invalid IP-literal'' [])
     | None \<Rightarrow>
         (case (if scheme = ''postgresql'' \<or> scheme = ''postgres'' then last_index_byte host (CHR '':'')
                else index_byte host (CHR '':'')) of
            None \<Rightarrow> unescape_url encodeHost host
          | Some i \<Rightarrow>
              if \<not> validOptionalPort (drop i host) then Inl (Errorf ''invalid port %q after host'' [drop i host])
              else unescape_url encodeHost host))"

text \<open>The user information is validated and decoded, and dropped.\<close>

definition parse_userinfo :: "string \<Rightarrow> string result" where
  "parse_userinfo userinfo =
     (if \<not> validUserinfo userinfo then Inl (Errorf ''net/url: invalid userinfo'' [])
      else case Cut userinfo (CHR '':'') of
          None \<Rightarrow> unescape_url encodeUserPassword userinfo
        | Some (username, password) \<Rightarrow>
            (case unescape_url encodeUserPassword username of
               Inl e \<Rightarrow> Inl e
             | Inr _ \<Rightarrow> unescape_url encodeUserPassword password))"

definition parseAuthority :: "string \<Rightarrow> string \<Rightarrow> string result" where
  "parseAuthority scheme authority = (case last_index_byte authority (CHR ''@'') of
       None \<Rightarrow> parseHost scheme authority
     | Some i \<Rightarrow>
         (case parseHost scheme (drop (i + 1) authority) of
            Inl e \<Rightarrow> Inl e
          | Inr host \<Rightarrow>
              (case parse_userinfo (take i authority) of Inl e \<Rightarrow> Inl e | Inr _ \<Rightarrow> Inr host)))"

subsection \<open>The whole URL\<close>

definition before_byte :: "char \<Rightarrow> string \<Rightarrow> string" where
  "before_byte c s = takeWhile (\<lambda>x. x \<noteq> c) s"

text \<open>After the scheme and without the query: an opaque or relative text, or an authority and a path.\<close>

definition parse_rest :: "string \<Rightarrow> string \<Rightarrow> parsed_url result" where
  "parse_rest scheme rest =
     (if \<not> HasPrefix rest ''/'' \<and> scheme \<noteq> [] then Inr \<lparr>urlScheme = scheme, urlHost = []\<rparr>
      else if \<not> HasPrefix rest ''/'' \<and> CHR '':'' \<in> set (before_byte (CHR ''/'') rest) then
        Inl (Errorf ''first path segment in URL cannot contain colon'' [])
      else
        (case (if (scheme \<noteq> [] \<or> \<not> HasPrefix rest ''///'') \<and> HasPrefix rest ''//''
               then (case parseAuthority scheme (before_byte (CHR ''/'') (drop 2 rest)) of
                   Inl e \<Rightarrow> Inl e
                 | Inr host \<Rightarrow> Inr (host, dropWhile (\<lambda>x. x \<noteq> CHR ''/'') (drop 2 rest)))
               else Inr ([], rest)) of
           Inl e \<Rightarrow> Inl e
         | Inr (host, path) \<Rightarrow>
             (case unescape_url encodePath path of
                Inl e \<Rightarrow> Inl e
              | Inr _ \<Rightarrow> Inr \<lparr>urlScheme = scheme, urlHost = host\<rparr>)))"

text \<open>The library cuts the query off in two ways, which differ in how they record an empty query only.\<close>

definition parse_url :: "string \<Rightarrow> parsed_url result" where
  "parse_url rawURL =
     (if list_ex is_ctl rawURL then Inl (Errorf ''net/url: invalid control character in URL'' [])
      else if rawURL = ''*'' then Inr \<lparr>urlScheme = [], urlHost = []\<rparr>
      else case getScheme rawURL [] rawURL of
          Inl e \<Rightarrow> Inl e
        | Inr (scheme, rest) \<Rightarrow> parse_rest (map lower scheme) (before_byte (CHR ''?'') rest))"

definition url_Parse :: "string \<Rightarrow> parsed_url result" where
  "url_Parse rawURL =
     (let u = before_byte (CHR ''#'') rawURL; frag = drop (length u + 1) rawURL in
      (case parse_url u of
         Inl e \<Rightarrow> Inl (Wrapf ''parse %q: %w'' [u] e)
       | Inr url \<Rightarrow>
           if frag = [] then Inr url
           else (case unescape_url encodeFragment frag of
               Inl e \<Rightarrow> Inl (Wrapf ''parse %q: %w'' [rawURL] e)
             | Inr _ \<Rightarrow> Inr url)))"

subsection \<open>An https URL with a host, as a text\<close>

lemma before_byte_split: "s = before_byte c s @ dropWhile (\<lambda>x. x \<noteq> c) s"
  by (simp add: before_byte_def)

lemma before_byte_clean: "list_all (\<lambda>x. x \<noteq> c) (before_byte c s)"
  by (auto simp: before_byte_def list_all_iff dest: set_takeWhileD)

lemma before_byte_all: "list_all P s \<Longrightarrow> list_all P (before_byte c s)"
  by (auto simp: before_byte_def list_all_iff dest: set_takeWhileD)

lemma before_byte_append: "c \<notin> set s \<Longrightarrow> before_byte c (s @ t) = s @ before_byte c t"
  by (induction s) (auto simp: before_byte_def)

lemma before_byte_same: "c \<notin> set s \<Longrightarrow> before_byte c s = s"
  using before_byte_append [of c s "[]"] by (simp add: before_byte_def)

lemma starts_with: "dropWhile (\<lambda>x. x \<noteq> c) s = [] \<or> hd (dropWhile (\<lambda>x. x \<noteq> c) s) = c"
  by (metis (mono_tags, lifting) hd_dropWhile)

lemma hd_drop: "P c \<Longrightarrow> dropWhile (\<lambda>x. x \<noteq> c) s = [] \<or> P (hd (dropWhile (\<lambda>x. x \<noteq> c) s))"
  using starts_with [of c s] by auto

lemma hd_chain: "a = [] \<or> P (hd a) \<Longrightarrow> b = [] \<or> P (hd b) \<Longrightarrow> a @ b = [] \<or> P (hd (a @ b))"
  by (cases a) auto

lemma getScheme_found:
  "getScheme raw pre cs = Inr (sch, rest) \<Longrightarrow> (sch = [] \<and> rest = raw) \<or> (\<exists>p. cs = p @ CHR '':'' # rest \<and> sch = pre @ p)"
  by (induction raw pre cs rule: getScheme.induct) (auto split: if_splits)

lemma parse_rest_hosted:
  assumes "parse_rest scheme rest = Inr u" "urlHost u \<noteq> []" "scheme \<noteq> []"
  obtains t where "rest = ''//'' @ t" "urlScheme u = scheme" "parseAuthority scheme (before_byte (CHR ''/'') t) = Inr (urlHost u)"
proof -
  have "HasPrefix rest ''//''" using assms by (auto simp: parse_rest_def split: if_splits sum.splits)
  then obtain t where t: "rest = ''//'' @ t" by (auto simp: HasPrefix_def prefix_def)
  with assms show thesis by (intro that [of t]) (auto simp: parse_rest_def HasPrefix_def split: if_splits sum.splits)
qed

lemma parse_url_hosted:
  assumes "parse_url s = Inr u" "urlHost u \<noteq> []" "urlScheme u \<noteq> []"
  obtains sch t where "s = sch @ ''://'' @ t" "map lower sch = urlScheme u" "list_all (\<lambda>c. \<not> is_ctl c) s"
    "parseAuthority (urlScheme u) (before_byte (CHR ''/'') (before_byte (CHR ''?'') t)) = Inr (urlHost u)"
proof -
  from assms(1,3) obtain sch rest where g: "getScheme s [] s = Inr (sch, rest)" "\<not> list_ex is_ctl s"
    "parse_rest (map lower sch) (before_byte (CHR ''?'') rest) = Inr u"
    by (auto simp: parse_url_def split: if_splits sum.splits)
  have sch: "map lower sch \<noteq> []"
  proof
    assume "map lower sch = []"
    with g(3) assms(3) show False by (auto simp: parse_rest_def split: if_splits sum.splits)
  qed
  then have s: "s = sch @ CHR '':'' # rest" using getScheme_found [OF g(1)] by auto
  from parse_rest_hosted [OF g(3) assms(2) sch] obtain t0 where
    t0: "before_byte (CHR ''?'') rest = ''//'' @ t0" "urlScheme u = map lower sch"
      "parseAuthority (map lower sch) (before_byte (CHR ''/'') t0) = Inr (urlHost u)" by metis
  define t where "t = t0 @ dropWhile (\<lambda>x. x \<noteq> CHR ''?'') rest"
  have r: "rest = ''//'' @ t" using before_byte_split [of rest "CHR ''?''"] t0(1) by (simp add: t_def)
  with t0(1) have "before_byte (CHR ''?'') t = t0" by (simp add: before_byte_append [of _ "''//''", simplified])
  with s r t0 g(2) show thesis
    by (intro that [of sch t]) (auto simp: list_all_iff list_ex_iff)
qed

text \<open>The bytes that end an authority.\<close>

definition ends_authority :: "char \<Rightarrow> bool" where
  "ends_authority c \<longleftrightarrow> c \<in> {CHR ''/'', CHR ''?'', CHR ''#''}"

text \<open>\<open>https_text s host\<close>: the text is \<^verbatim>\<open>https\<close> in any case, \<^verbatim>\<open>://\<close> and an authority without control
  characters, which names the host, up to the end or to what ends an authority.\<close>

definition https_text :: "string \<Rightarrow> string \<Rightarrow> bool" where
  "https_text s host \<longleftrightarrow> (\<exists>sch authority tail. s = sch @ ''://'' @ authority @ tail \<and> map lower sch = ''https'' \<and>
     authority \<noteq> [] \<and> list_all (\<lambda>c. \<not> is_ctl c \<and> \<not> ends_authority c) authority \<and>
     (tail = [] \<or> ends_authority (hd tail)) \<and> parseAuthority ''https'' authority = Inr host)"

lemma parseAuthority_nonempty: "parseAuthority scheme [] = Inr []"
  by (simp add: parseAuthority_def parseHost_def last_index_byte_def index_byte_def)

lemma url_Parse_https:
  assumes "url_Parse s = Inr u" "urlScheme u = ''https''" "urlHost u \<noteq> []"
  shows "https_text s (urlHost u)"
proof -
  let ?b = "before_byte (CHR ''#'') s"
  from assms(1) have p: "parse_url ?b = Inr u" by (auto simp: url_Parse_def Let_def split: sum.splits if_splits)
  from assms(2) have "urlScheme u \<noteq> []" by simp
  from parse_url_hosted [OF p assms(3) this] assms(2) obtain sch t where
    t: "?b = sch @ ''://'' @ t" "map lower sch = ''https''" "list_all (\<lambda>c. \<not> is_ctl c) ?b"
      "parseAuthority ''https'' (before_byte (CHR ''/'') (before_byte (CHR ''?'') t)) = Inr (urlHost u)" by metis
  let ?a = "before_byte (CHR ''/'') (before_byte (CHR ''?'') t)"
  define d1 where "d1 = dropWhile (\<lambda>x. x \<noteq> CHR ''/'') (before_byte (CHR ''?'') t)"
  define d2 where "d2 = dropWhile (\<lambda>x. x \<noteq> CHR ''?'') t"
  define d3 where "d3 = dropWhile (\<lambda>x. x \<noteq> CHR ''#'') s"
  have "t = ?a @ d1 @ d2" unfolding d1_def d2_def by (metis append_assoc before_byte_split)
  moreover have "s = ?b @ d3" unfolding d3_def by (rule before_byte_split)
  ultimately have s: "s = sch @ ''://'' @ ?a @ (d1 @ d2 @ d3)" using t(1) by simp
  have "?a \<noteq> []" using t(4) assms(3) by (auto simp: parseAuthority_nonempty)
  moreover have "list_all (\<lambda>c. \<not> is_ctl c \<and> \<not> ends_authority c) ?a"
  proof -
    have "list_all (\<lambda>c. \<not> is_ctl c) t" "list_all (\<lambda>c. c \<noteq> CHR ''#'') t"
      using t(1,3) before_byte_clean [of "CHR ''#''" s] by simp_all
    then have "list_all (\<lambda>c. \<not> is_ctl c) ?a" "list_all (\<lambda>c. c \<noteq> CHR ''#'') ?a"
      by (simp_all add: before_byte_all)
    moreover have "list_all (\<lambda>c. c \<noteq> CHR ''?'') ?a" by (intro before_byte_all before_byte_clean)
    ultimately show ?thesis using before_byte_clean [of "CHR ''/''" "before_byte (CHR ''?'') t"]
      by (auto simp: list_all_iff ends_authority_def)
  qed
  moreover have "d1 @ d2 @ d3 = [] \<or> ends_authority (hd (d1 @ d2 @ d3))"
    unfolding d1_def d2_def d3_def
    by (intro hd_chain [where P = ends_authority] hd_drop [where P = ends_authority]) (simp_all add: ends_authority_def)
  ultimately show ?thesis unfolding https_text_def using s t(2,4)
    by (intro exI [of _ sch] exI [of _ ?a] exI [of _ "d1 @ d2 @ d3"] conjI)
qed

subsection \<open>Plain URLs parse\<close>

text \<open>The text of an https URL with a plain host name, which may be empty, an optional port and a plain path.\<close>

definition plain_name :: "string \<Rightarrow> bool" where
  "plain_name h \<longleftrightarrow> list_all (\<lambda>c. is_alpha c \<or> is_digit c \<or> c \<in> {CHR ''-'', CHR ''.''}) h"

definition plain_path :: "string \<Rightarrow> bool" where
  "plain_path p \<longleftrightarrow> (p = [] \<or> hd p = CHR ''/'') \<and>
     list_all (\<lambda>c. is_alpha c \<or> is_digit c \<or> c \<in> set ''/-._~'') p"

lemma plain_byte:
  assumes "is_alpha c \<or> is_digit c \<or> c \<in> set ''/-._~:''"
  shows "\<not> is_ctl c" "c \<noteq> CHR ''?''" "c \<noteq> CHR ''#''" "c \<noteq> CHR ''%''" "c \<noteq> CHR ''@''" "c \<noteq> CHR ''[''" "c \<noteq> CHR ''*''"
  using assms by (auto simp: is_alpha_def is_digit_def is_ctl_def Let_def)

lemma host_byte: "is_alpha c \<or> is_digit c \<or> c \<in> set ''-.:'' \<Longrightarrow> host_plain c"
  by (auto simp: host_plain_def)

lemma list_all_weaken: "list_all P s \<Longrightarrow> (\<And>c. P c \<Longrightarrow> Q c) \<Longrightarrow> list_all Q s"
  by (simp add: list_all_iff)

lemma unescape_url_plain:
  "list_all (\<lambda>c. c \<noteq> CHR ''%'' \<and> (hostlike mode \<longrightarrow> host_plain c)) s \<Longrightarrow> unescape_url mode s = Inr s"
  by (induction s) auto

lemma last_index_byte_none: "c \<notin> set s \<Longrightarrow> last_index_byte s c = None"
  by (simp add: last_index_byte_def index_byte_def)

lemma index_byte_at: "c \<notin> set h \<Longrightarrow> index_byte (h @ c # t) c = Some (length h)"
  by (induction h) (auto simp: index_byte_def)

lemma parseAuthority_plain:
  assumes "plain_name h" "validOptionalPort port"
  shows "parseAuthority ''https'' (h @ port) = Inr (h @ port)"
proof -
  have port: "list_all (\<lambda>c. is_digit c \<or> c = CHR '':'') port"
    using assms(2) by (auto simp: validOptionalPort_def list_all_iff split: list.splits)
  have all: "list_all (\<lambda>c. is_alpha c \<or> is_digit c \<or> c \<in> set ''-.:'') (h @ port)"
    using assms(1) port by (auto simp: plain_name_def list_all_iff)
  then have "CHR ''@'' \<notin> set (h @ port)" "CHR ''['' \<notin> set (h @ port)"
    by (auto simp: list_all_iff is_alpha_def is_digit_def dest!: bspec)
  moreover have "unescape_url encodeHost (h @ port) = Inr (h @ port)"
    by (rule unescape_url_plain, rule list_all_weaken [OF all]) (use plain_byte(4) host_byte in auto)
  moreover have colon: "CHR '':'' \<notin> set h" using assms(1) by (auto simp: plain_name_def list_all_iff is_alpha_def is_digit_def dest!: bspec)
  moreover have "index_byte (h @ port) (CHR '':'') = (case port of [] \<Rightarrow> None | c # cs \<Rightarrow> Some (length h))"
    using colon assms(2) index_byte_at [OF colon] by (auto simp: validOptionalPort_def index_byte_def split: list.splits)
  ultimately show ?thesis using assms(2)
    by (auto simp: parseAuthority_def parseHost_def last_index_byte_none split: list.splits)
qed

lemma url_Parse_plain:
  assumes "plain_name h" "validOptionalPort port" "plain_path p"
  shows "url_Parse (''https://'' @ h @ port @ p) = Inr \<lparr>urlScheme = ''https'', urlHost = h @ port\<rparr>"
proof -
  let ?s = "''https://'' @ h @ port @ p"
  have port: "list_all (\<lambda>c. is_digit c \<or> c = CHR '':'') port"
    using assms(2) by (auto simp: validOptionalPort_def list_all_iff split: list.splits)
  have all: "list_all (\<lambda>c. is_alpha c \<or> is_digit c \<or> c \<in> set ''/-._~:'') (''//'' @ h @ port @ p)"
    using assms(1,3) port by (auto simp: plain_name_def plain_path_def list_all_iff)
  have clean: "list_all (\<lambda>c. c \<noteq> CHR ''#'' \<and> c \<noteq> CHR ''?'' \<and> c \<noteq> CHR ''%'' \<and> \<not> is_ctl c) (''//'' @ h @ port @ p)"
    by (rule list_all_weaken [OF all]) (use plain_byte in blast)
  then have q: "CHR ''#'' \<notin> set (''//'' @ h @ port @ p)" "CHR ''?'' \<notin> set (''//'' @ h @ port @ p)"
    "list_all (\<lambda>c. \<not> is_ctl c) (''//'' @ h @ port @ p)" "list_all (\<lambda>c. c \<noteq> CHR ''%'') p"
    by (auto simp: list_all_iff)
  have slash: "CHR ''/'' \<notin> set (h @ port)"
    using assms(1) port by (auto simp: plain_name_def list_all_iff is_alpha_def is_digit_def dest!: bspec)
  have path: "before_byte (CHR ''/'') p = []" "dropWhile (\<lambda>x. x \<noteq> CHR ''/'') p = p"
    using assms(3) by (cases p; simp add: plain_path_def before_byte_def)+
  have host: "before_byte (CHR ''/'') (h @ port @ p) = h @ port"
    using before_byte_append [OF slash, of p] path by simp
  have rest: "dropWhile (\<lambda>x. x \<noteq> CHR ''/'') (h @ port @ p) = p"
    using before_byte_split [of "h @ port @ p" "CHR ''/''"] host by simp
  have up: "unescape_url encodePath p = Inr p"
    by (rule unescape_url_plain, rule list_all_weaken [OF q(4)]) (simp add: hostlike_def)
  have "parse_rest ''https'' (''//'' @ h @ port @ p) = Inr \<lparr>urlScheme = ''https'', urlHost = h @ port\<rparr>"
    using parseAuthority_plain [OF assms(1,2)] host rest up by (simp add: parse_rest_def HasPrefix_def)
  moreover have "getScheme ?s [] ?s = Inr (''https'', ''//'' @ h @ port @ p)" by (simp add: is_alpha_def is_digit_def)
  moreover have "map lower ''https'' = ''https''" by (simp add: lower_def)
  moreover have "before_byte (CHR ''?'') (''//'' @ h @ port @ p) = ''//'' @ h @ port @ p" by (rule before_byte_same) (rule q)
  moreover have "\<not> list_ex is_ctl ?s" using q(3) by (auto simp: list_ex_iff list_all_iff is_ctl_def)
  ultimately have "parse_url ?s = Inr \<lparr>urlScheme = ''https'', urlHost = h @ port\<rparr>" by (simp add: parse_url_def)
  moreover have "before_byte (CHR ''#'') ?s = ?s" using q(1) by (intro before_byte_same) auto
  ultimately show ?thesis by (simp add: url_Parse_def)
qed

lemma url_Parse_idp: "url_Parse ''https://idp/keys'' = Inr \<lparr>urlScheme = ''https'', urlHost = ''idp''\<rparr>"
  using url_Parse_plain [of "''idp''" "[]" "''/keys''"]
  by (simp add: plain_name_def plain_path_def validOptionalPort_def is_alpha_def)

end
