(* ===== verification/Go_JSON.thy ===== *)
theory Go_JSON
  imports Json_Text Go_Net
begin

section \<open>Reading JSON\<close>

text \<open>
  \<^verbatim>\<open>json.Unmarshal\<close> as far as the program uses it itself: into a struct of strings, the discovery document
  of \<^verbatim>\<open>internal/controller/hyperfleetconfig_rollout.go\<close>.  The scanner and its stack of open containers,
  the unquoting of strings with its repair of invalid UTF-8, the match of member names with fields,
  and the errors of a value of the wrong type are those of \<^verbatim>\<open>encoding/json\<close>.  Syntax errors are one error,
  since the program only wraps them.
\<close>

subsection \<open>Tokens\<close>

text \<open>A string token carries the bytes between its quotes.\<close>

datatype token = TBrace | TBraceEnd | TBracket | TBracketEnd | TColon | TComma | TStr string | TNum | TTrue | TFalse | TNull

text \<open>The states of the scanner in a number: after the minus, after a leading zero, in the integer, after
  the point, in the fraction, after the exponent letter, after its sign, in the exponent.\<close>

datatype num_state = NNeg | NZero | NDigits | NPoint | NFraction | NExp | NExpSign | NExpDigits

definition num_step :: "num_state \<Rightarrow> char \<Rightarrow> num_state option" where
  "num_step q c =
     (let nonzero = is_digit c \<and> c \<noteq> CHR ''0'';
          tail = (if c = CHR ''.'' then Some NPoint else if c = CHR ''e'' \<or> c = CHR ''E'' then Some NExp else None) in
      case q of
        NNeg \<Rightarrow> if c = CHR ''0'' then Some NZero else if nonzero then Some NDigits else None
      | NZero \<Rightarrow> tail
      | NDigits \<Rightarrow> if is_digit c then Some NDigits else tail
      | NPoint \<Rightarrow> if is_digit c then Some NFraction else None
      | NFraction \<Rightarrow> if is_digit c then Some NFraction else if c = CHR ''e'' \<or> c = CHR ''E'' then Some NExp else None
      | NExp \<Rightarrow> if c = CHR ''+'' \<or> c = CHR ''-'' then Some NExpSign else if is_digit c then Some NExpDigits else None
      | NExpSign \<Rightarrow> if is_digit c then Some NExpDigits else None
      | NExpDigits \<Rightarrow> if is_digit c then Some NExpDigits else None)"

definition num_final :: "num_state \<Rightarrow> bool" where
  "num_final q \<longleftrightarrow> q \<in> {NZero, NDigits, NFraction, NExpDigits}"

datatype lex_state =
    Between
  | InString string
  | InEscape string
  | InHex string nat
  | InNumber num_state
  | InLiteral string token

definition whitespace :: "char \<Rightarrow> bool" where
  "whitespace c \<longleftrightarrow> c \<in> {CHR 0x20, CHR 0x09, CHR 0x0D, CHR 0x0A}"

text \<open>What a byte between tokens starts.\<close>

definition lex_start :: "char \<Rightarrow> (token list \<times> lex_state) option" where
  "lex_start c =
     (if whitespace c then Some ([], Between)
      else if c = CHR ''{'' then Some ([TBrace], Between)
      else if c = CHR ''}'' then Some ([TBraceEnd], Between)
      else if c = CHR ''['' then Some ([TBracket], Between)
      else if c = CHR '']'' then Some ([TBracketEnd], Between)
      else if c = CHR '':'' then Some ([TColon], Between)
      else if c = CHR '','' then Some ([TComma], Between)
      else if c = CHR 0x22 then Some ([], InString [])
      else if c = CHR ''-'' then Some ([], InNumber NNeg)
      else if c = CHR ''0'' then Some ([], InNumber NZero)
      else if is_digit c then Some ([], InNumber NDigits)
      else if c = CHR ''t'' then Some ([], InLiteral ''rue'' TTrue)
      else if c = CHR ''f'' then Some ([], InLiteral ''alse'' TFalse)
      else if c = CHR ''n'' then Some ([], InLiteral ''ull'' TNull)
      else None)"

fun lex_step :: "lex_state \<Rightarrow> char \<Rightarrow> (token list \<times> lex_state) option" where
  "lex_step Between c = lex_start c"
| "lex_step (InString raw) c =
     (if c = CHR 0x22 then Some ([TStr raw], Between)
      else if c = backslash then Some ([], InEscape (raw @ [c]))
      else if of_char c < (32 :: nat) then None
      else Some ([], InString (raw @ [c])))"
| "lex_step (InEscape raw) c =
     (if c \<in> set ''bfnrt/'' \<or> c = backslash \<or> c = CHR 0x22 then Some ([], InString (raw @ [c]))
      else if c = CHR ''u'' then Some ([], InHex (raw @ [c]) 4)
      else None)"
| "lex_step (InHex raw n) c =
     (if hex_value c = None then None
      else if n \<le> 1 then Some ([], InString (raw @ [c])) else Some ([], InHex (raw @ [c]) (n - 1)))"
| "lex_step (InNumber q) c =
     (case num_step q c of
        Some q' \<Rightarrow> Some ([], InNumber q')
      | None \<Rightarrow>
          if \<not> num_final q then None
          else (case lex_start c of None \<Rightarrow> None | Some (ts, st) \<Rightarrow> Some (TNum # ts, st)))"
| "lex_step (InLiteral rest t) c =
     (case rest of
        x # xs \<Rightarrow> if c \<noteq> x then None else if xs = [] then Some ([t], Between) else Some ([], InLiteral xs t)
      | [] \<Rightarrow> None)"

definition lex_end :: "lex_state \<Rightarrow> token list option" where
  "lex_end st = (case st of
       Between \<Rightarrow> Some []
     | InNumber q \<Rightarrow> if num_final q then Some [TNum] else None
     | _ \<Rightarrow> None)"

fun lex :: "lex_state \<Rightarrow> string \<Rightarrow> token list option" where
  "lex st [] = lex_end st"
| "lex st (c # cs) = (case lex_step st c of
       None \<Rightarrow> None
     | Some (ts, st') \<Rightarrow> map_option (append ts) (lex st' cs))"

subsection \<open>Strings\<close>

text \<open>\<^verbatim>\<open>utf8.AppendRune\<close>, and the replacement character.\<close>

definition encode_rune :: "nat \<Rightarrow> string" where
  "encode_rune r =
     (if r < 128 then [char_of r]
      else if r < 2048 then [char_of (192 + r div 64), char_of (128 + r mod 64)]
      else if r < 65536 then [char_of (224 + r div 4096), char_of (128 + r div 64 mod 64), char_of (128 + r mod 64)]
      else [char_of (240 + r div 262144), char_of (128 + r div 4096 mod 64), char_of (128 + r div 64 mod 64), char_of (128 + r mod 64)])"

definition replacement :: string where "replacement = [CHR 0xEF, CHR 0xBF, CHR 0xBD]"

definition digits4 :: "string \<Rightarrow> nat option" where
  "digits4 s = (case s of
       a # b # c # d # _ \<Rightarrow>
         (case (hex_value a, hex_value b, hex_value c, hex_value d) of
            (Some i, Some j, Some k, Some l) \<Rightarrow> Some (i * 4096 + j * 256 + k * 16 + l)
          | _ \<Rightarrow> None)
     | _ \<Rightarrow> None)"

text \<open>\<^verbatim>\<open>getu4\<close>: the escape at the front of a text.\<close>

definition getu4 :: "string \<Rightarrow> nat option" where
  "getu4 s = (case s of
       b # u # rest \<Rightarrow> if b = backslash \<and> u = CHR ''u'' then digits4 rest else None
     | _ \<Rightarrow> None)"

definition short_escape_of :: "char \<Rightarrow> char" where
  "short_escape_of d = (if d = CHR ''b'' then CHR 0x08 else if d = CHR ''f'' then CHR 0x0C
     else if d = CHR ''n'' then CHR 0x0A else if d = CHR ''r'' then CHR 0x0D
     else if d = CHR ''t'' then CHR 0x09 else d)"

text \<open>The escape of a surrogate counts with the one behind it, if the two make a pair.\<close>

definition decode_pair :: "nat \<Rightarrow> nat option \<Rightarrow> nat option" where
  "decode_pair r next =
     (case next of
        Some r2 \<Rightarrow> if 55296 \<le> r \<and> r < 56320 \<and> 56320 \<le> r2 \<and> r2 < 57344
          then Some ((r - 55296) * 1024 + (r2 - 56320) + 65536) else None
      | None \<Rightarrow> None)"

function unquote :: "string \<Rightarrow> string" where
  "unquote s = (case s of
       [] \<Rightarrow> []
     | c # cs \<Rightarrow>
         if c = backslash then
           (case getu4 s of
              Some r \<Rightarrow>
                if 55296 \<le> r \<and> r < 57344 then
                  (case decode_pair r (getu4 (drop 6 s)) of
                     Some dec \<Rightarrow> encode_rune dec @ unquote (drop 12 s)
                   | None \<Rightarrow> replacement @ unquote (drop 6 s))
                else encode_rune r @ unquote (drop 6 s)
            | None \<Rightarrow> (case cs of [] \<Rightarrow> [] | d # ds \<Rightarrow> short_escape_of d # unquote ds))
         else if of_char c < (128 :: nat) then c # unquote cs
         else (case rune_size s of
             None \<Rightarrow> replacement @ unquote cs
           | Some n \<Rightarrow> take n s @ unquote (drop (n - 1) cs)))"
  by pat_completeness auto
termination
  by (relation "measure length") auto

declare unquote.simps [simp del]

subsection \<open>Values\<close>

text \<open>The elements of an array are checked and dropped.\<close>

datatype jvalue = VNull | VBool | VNumber | VString string | VArray | VObject "(string \<times> jvalue) list"

datatype frame = InArray | InObject "(string \<times> jvalue) list" string

datatype parse_state =
    PValue
  | PValueOrEnd
  | PKeyOrEnd
  | PKey "(string \<times> jvalue) list"
  | PColon "(string \<times> jvalue) list" string
  | PMember "(string \<times> jvalue) list"
  | PElement
  | PDone jvalue

definition maxNestingDepth :: nat where "maxNestingDepth = 10000"

fun complete_value :: "jvalue \<Rightarrow> frame list \<Rightarrow> parse_state \<times> frame list" where
  "complete_value v [] = (PDone v, [])"
| "complete_value v (InArray # fs) = (PElement, fs)"
| "complete_value v (InObject ms k # fs) = (PMember (ms @ [(k, v)]), fs)"

text \<open>A value begins inside the containers \<open>fs\<close>.\<close>

definition begin_value :: "token \<Rightarrow> frame list \<Rightarrow> (parse_state \<times> frame list) option" where
  "begin_value t fs = (case t of
       TNull \<Rightarrow> Some (complete_value VNull fs)
     | TTrue \<Rightarrow> Some (complete_value VBool fs)
     | TFalse \<Rightarrow> Some (complete_value VBool fs)
     | TNum \<Rightarrow> Some (complete_value VNumber fs)
     | TStr raw \<Rightarrow> Some (complete_value (VString (unquote raw)) fs)
     | TBrace \<Rightarrow> if length fs < maxNestingDepth then Some (PKeyOrEnd, fs) else None
     | TBracket \<Rightarrow> if length fs < maxNestingDepth then Some (PValueOrEnd, fs) else None
     | _ \<Rightarrow> None)"

fun parse_step :: "parse_state \<Rightarrow> frame list \<Rightarrow> token \<Rightarrow> (parse_state \<times> frame list) option" where
  "parse_step PValue fs t = begin_value t fs"
| "parse_step PValueOrEnd fs t =
     (if t = TBracketEnd then Some (complete_value VArray fs) else begin_value t (InArray # fs))"
| "parse_step PKeyOrEnd fs t =
     (case t of TBraceEnd \<Rightarrow> Some (complete_value (VObject []) fs)
      | TStr raw \<Rightarrow> Some (PColon [] (unquote raw), fs) | _ \<Rightarrow> None)"
| "parse_step (PKey ms) fs t = (case t of TStr raw \<Rightarrow> Some (PColon ms (unquote raw), fs) | _ \<Rightarrow> None)"
| "parse_step (PColon ms k) fs t = (if t = TColon then Some (PValue, InObject ms k # fs) else None)"
| "parse_step (PMember ms) fs t =
     (case t of TComma \<Rightarrow> Some (PKey ms, fs) | TBraceEnd \<Rightarrow> Some (complete_value (VObject ms) fs) | _ \<Rightarrow> None)"
| "parse_step PElement fs t =
     (case t of TComma \<Rightarrow> Some (PValue, InArray # fs) | TBracketEnd \<Rightarrow> Some (complete_value VArray fs) | _ \<Rightarrow> None)"
| "parse_step (PDone v) fs t = None"

fun parse_tokens :: "parse_state \<Rightarrow> frame list \<Rightarrow> token list \<Rightarrow> jvalue option" where
  "parse_tokens st fs [] = (case st of PDone v \<Rightarrow> Some v | _ \<Rightarrow> None)"
| "parse_tokens st fs (t # ts) = (case parse_step st fs t of
       None \<Rightarrow> None
     | Some (st', fs') \<Rightarrow> parse_tokens st' fs' ts)"

definition parse_json :: "string \<Rightarrow> jvalue option" where
  "parse_json s = (case lex Between s of None \<Rightarrow> None | Some ts \<Rightarrow> parse_tokens PValue [] ts)"

subsection \<open>The discovery document\<close>

record discovery_doc =
  docIssuer :: string
  docJWKSURI :: string

text \<open>\<^verbatim>\<open>foldName\<close>, compared with an ASCII name in upper case: of the characters outside ASCII only the long
  s and the Kelvin sign fold to a letter of ASCII.\<close>

fun foldName :: "string \<Rightarrow> string" where
  "foldName [] = []"
| "foldName (c # cs) =
     (let n = of_char c :: nat in
      if 97 \<le> n \<and> n \<le> 122 then char_of (n - 32) # foldName cs
      else case cs of
          d # ds \<Rightarrow>
            if c = CHR 0xC5 \<and> d = CHR 0xBF then CHR ''S'' # foldName ds
            else (case ds of
                e # es \<Rightarrow>
                  if c = CHR 0xE2 \<and> d = CHR 0x84 \<and> e = CHR 0xAA then CHR ''K'' # foldName es
                  else c # foldName cs
              | [] \<Rightarrow> c # foldName cs)
        | [] \<Rightarrow> [c])"

text \<open>The field that a member name denotes: an exact match goes first.\<close>

datatype doc_field = FIssuer | FJWKSURI

definition doc_field_of :: "string \<Rightarrow> doc_field option" where
  "doc_field_of k =
     (if k = ''issuer'' then Some FIssuer else if k = ''jwks_uri'' then Some FJWKSURI
      else if foldName k = ''ISSUER'' then Some FIssuer
      else if foldName k = ''JWKS_URI'' then Some FJWKSURI else None)"

definition set_field :: "doc_field \<Rightarrow> string \<Rightarrow> discovery_doc \<Rightarrow> discovery_doc" where
  "set_field f s doc = (case f of FIssuer \<Rightarrow> doc\<lparr>docIssuer := s\<rparr> | FJWKSURI \<Rightarrow> doc\<lparr>docJWKSURI := s\<rparr>)"

definition type_error :: "string \<Rightarrow> error" where
  "type_error what = Errorf ''json: cannot unmarshal into Go %s'' [what]"

text \<open>Member by member: a null leaves the field alone, any other value that is no string is an error, which
  the library reports after it has gone on; later members win.\<close>

fun decode_members :: "(string \<times> jvalue) list \<Rightarrow> discovery_doc \<Rightarrow> discovery_doc result" where
  "decode_members [] doc = Inr doc"
| "decode_members ((k, v) # ms) doc =
     (case doc_field_of k of
        None \<Rightarrow> decode_members ms doc
      | Some f \<Rightarrow>
          (case v of
             VNull \<Rightarrow> decode_members ms doc
           | VString s \<Rightarrow> decode_members ms (set_field f s doc)
           | _ \<Rightarrow> Inl (type_error ''struct field'')))"

definition empty_doc :: discovery_doc where
  "empty_doc = \<lparr>docIssuer = [], docJWKSURI = []\<rparr>"

definition json_Unmarshal :: "string \<Rightarrow> discovery_doc result" where
  "json_Unmarshal body = (case parse_json body of
       None \<Rightarrow> Inl (Errorf ''invalid JSON text'' [])
     | Some VNull \<Rightarrow> Inr empty_doc
     | Some (VObject ms) \<Rightarrow> decode_members ms empty_doc
     | Some _ \<Rightarrow> Inl (type_error ''struct''))"

end
