(* ===== verification/Json_Roundtrip.thy ===== *)
theory Json_Roundtrip
  imports Go_JSON
begin

section \<open>What the encoder writes is read back\<close>

text \<open>
  The reader of \<open>Go_JSON\<close> undoes the writer of \<open>Json_Text\<close>: strings of valid UTF-8 come back as they were,
  and so does every value, up to what the reader drops.  The two are written independently, after
  the two halves of \<^verbatim>\<open>encoding/json\<close>, so this checks each against the other.
\<close>

subsection \<open>Strings\<close>

text \<open>A text that the scanner takes into a string as it is.\<close>

definition string_text :: "string \<Rightarrow> bool" where
  "string_text u \<longleftrightarrow> (\<forall>raw t. lex (InString raw) (u @ t) = lex (InString (raw @ u)) t)"

lemma string_text_Nil: "string_text []"
  by (simp add: string_text_def)

lemma string_text_append: "string_text u \<Longrightarrow> string_text v \<Longrightarrow> string_text (u @ v)"
  by (simp add: string_text_def)

lemma no_tokens [simp]: "map_option (append []) x = x"
  by (cases x) simp_all

lemma one_token [simp]: "(@) [t] = (#) t"
  by (simp add: fun_eq_iff)

lemma lex_plain_step: "lex_step st c = Some ([], st') \<Longrightarrow> lex st (c # t) = lex st' t"
  by simp

lemma string_text_plain:
  assumes "c \<noteq> CHR 0x22" "c \<noteq> backslash" "32 \<le> (of_char c :: nat)"
  shows "string_text [c]"
  using assms lex_plain_step [of "InString _" c] by (simp add: string_text_def)

lemma string_text_bytes: "list_all (\<lambda>c. 128 \<le> (of_char c :: nat)) u \<Longrightarrow> string_text u"
proof (induction u)
  case (Cons c u)
  then have "string_text [c]" by (intro string_text_plain) (auto simp: backslash_def)
  with Cons string_text_append [of "[c]" u] show ?case by simp
qed (rule string_text_Nil)

lemma string_text_escape: "d \<in> set ''bfnrt/'' \<or> d = backslash \<or> d = CHR 0x22 \<Longrightarrow> string_text [backslash, d]"
  using lex_plain_step [of "InString _" backslash] lex_plain_step [of "InEscape _" d]
  by (auto simp: string_text_def backslash_def)

lemma hex_value_digit: "k < 16 \<Longrightarrow> hex_value (hex_digit k) = Some k"
  by (cases "k < 10") (simp_all add: hex_value_def hex_digit_def of_char_of)

lemma string_text_hex4: "string_text (hex4 n)"
  by (simp add: string_text_def hex4_def backslash_def hex_value_digit)

lemma escape_ascii_cases:
  assumes "(of_char c :: nat) < 128"
  obtains (escaped) d where "escape_ascii c = [backslash, d]" "short_escape_of d = c" "d \<in> set ''bfnrt'' \<or> d = backslash \<or> d = CHR 0x22"
  | (hex) "escape_ascii c = hex4 (of_char c)"
  | (plain) "escape_ascii c = [c]" "c \<noteq> CHR 0x22" "c \<noteq> backslash" "32 \<le> (of_char c :: nat)"
proof -
  define n where "n = (of_char c :: nat)"
  have c: "c = char_of n" by (simp add: n_def)
  consider "n \<in> {34, 92, 8, 12, 10, 13, 9}" | "n \<notin> {34, 92, 8, 12, 10, 13, 9}" "n < 32 \<or> n = 60 \<or> n = 62 \<or> n = 38"
    | "n \<notin> {34, 92, 8, 12, 10, 13, 9}" "\<not> (n < 32 \<or> n = 60 \<or> n = 62 \<or> n = 38)" by blast
  then show thesis
  proof cases
    case 1
    then have "c \<in> {CHR 0x22, CHR 0x5C, CHR 0x08, CHR 0x0C, CHR 0x0A, CHR 0x0D, CHR 0x09}"
      unfolding n_def by (auto intro: char_eqI)
    then show thesis by (auto simp: escape_ascii_def short_escape_of_def backslash_def intro: escaped)
  next
    case 2
    then show thesis by (intro hex) (simp add: escape_ascii_def Let_def flip: n_def)
  next
    case 3
    then show thesis by (intro plain) (auto simp: escape_ascii_def Let_def backslash_def n_def)
  qed
qed

lemma string_text_escape_ascii: "(of_char c :: nat) < 128 \<Longrightarrow> string_text (escape_ascii c)"
  by (erule escape_ascii_cases) (auto intro: string_text_escape string_text_hex4 string_text_plain)

lemma string_text_body: "string_text (json_body s)"
proof (induction s rule: json_body.induct)
  case (1 s)
  show ?case
  proof (cases s)
    case Nil
    then show ?thesis by (simp add: json_body.simps string_text_Nil)
  next
    case (Cons c cs)
    show ?thesis
    proof (cases "(of_char c :: nat) < 128")
      case True
      with 1(1) [OF Cons True] Cons show ?thesis
        by (simp add: json_body.simps [of "c # cs"] string_text_append string_text_escape_ascii)
    next
      case False
      show ?thesis
      proof (cases "rune_size s")
        case None
        with 1(2) [OF Cons False None] False Cons show ?thesis
          by (simp add: json_body.simps [of "c # cs"] string_text_append string_text_hex4)
      next
        case (Some n)
        from rune_size_bytes [OF Some] have "string_text (take n s)" by (intro string_text_bytes) simp
        with 1(3) [OF Cons False Some] False Cons Some show ?thesis
          by (auto simp: json_body.simps [of "c # cs"] intro!: string_text_append string_text_hex4)
      qed
    qed
  qed
qed

lemma lex_string: "lex Between (json_string s @ t) = map_option (Cons (TStr (json_body s))) (lex Between t)"
  using string_text_body [of s] lex_plain_step [of Between "CHR 0x22" "InString []"]
  by (simp add: json_string_def string_text_def lex_start_def whitespace_def)

lemma digits4_hex4: "n < 65536 \<Longrightarrow> digits4 (drop 2 (hex4 n) @ t) = Some n"
  using four_hex [of n] by (simp add: digits4_def hex4_def hex_value_digit)

lemma unquote_Nil: "unquote [] = []"
  by (simp add: unquote.simps)

lemma unquote_plain: "(of_char c :: nat) < 128 \<Longrightarrow> c \<noteq> backslash \<Longrightarrow> unquote (c # t) = c # unquote t"
  by (subst unquote.simps) simp

lemma unquote_escape: "d \<noteq> CHR ''u'' \<Longrightarrow> unquote (backslash # d # t) = short_escape_of d # unquote t"
  by (subst unquote.simps) (simp add: getu4_def)

lemma unquote_hex4:
  assumes "n < 55296 \<or> 57344 \<le> n" "n < 65536"
  shows "unquote (hex4 n @ t) = encode_rune n @ unquote t"
proof -
  have h: "hex4 n = backslash # CHR ''u'' # drop 2 (hex4 n)" "length (hex4 n) = 6" by (simp_all add: hex4_def)
  have "getu4 (hex4 n @ t) = Some n"
    using digits4_hex4 [OF assms(2), of t] by (subst h(1)) (simp add: getu4_def)
  with assms(1) h show ?thesis by (subst unquote.simps) (auto simp: hex4_def)
qed

lemma unquote_ascii:
  assumes "(of_char c :: nat) < 128"
  shows "unquote (escape_ascii c @ t) = c # unquote t"
  using assms
proof (cases rule: escape_ascii_cases)
  case (escaped d)
  then have "d \<noteq> CHR ''u''" by (auto simp: backslash_def)
  with escaped show ?thesis by (simp add: unquote_escape)
next
  case hex
  with assms show ?thesis by (simp add: unquote_hex4 encode_rune_def)
qed (use assms in \<open>simp_all add: unquote_plain\<close>)

lemma rune_size_take:
  assumes "rune_size s = Some n" shows "rune_size (take n s @ t) = Some n"
proof -
  from assms obtain c cs where s: "s = c # cs" by (cases s) (auto simp: rune_size_def)
  define k where "k = (let b = of_char c :: nat in if 194 \<le> b \<and> b \<le> 223 then 1 else if 224 \<le> b \<and> b \<le> 239 then 2 else if 240 \<le> b \<and> b \<le> 244 then 3 else 0 :: nat)"
  have n: "n = Suc k" "k \<noteq> 0" "k \<le> length cs"
    using assms unfolding s rune_size_def by (auto simp: k_def Let_def split: prod.splits if_splits)
  then have "(take k cs @ t) ! 0 = cs ! 0" "take (k - 1) (tl (take k cs @ t)) = take (k - 1) (tl cs)"
    by (cases cs; cases k; simp)+
  with assms n show ?thesis
    unfolding s rune_size_def by (auto simp: k_def Let_def split: prod.splits if_splits)
qed

lemma unquote_rune:
  assumes "rune_size s = Some n" shows "unquote (take n s @ t) = take n s @ unquote t"
proof -
  note b = rune_size_bytes [OF assms]
  obtain c u where u: "take n s = c # u" using b by (cases s; cases n) auto
  with b have c: "128 \<le> (of_char c :: nat)" by simp
  have "length (take n s) = n" using b by simp
  with u have l: "length u = n - 1" by simp
  from c have "c \<noteq> backslash" by (auto simp: backslash_def)
  moreover have "n = Suc (length u)" using l b by simp
  ultimately show ?thesis using c u rune_size_take [OF assms, of t] by (simp add: unquote.simps [of "c # u @ t"])
qed

lemma unquote_body: "valid_utf8 s \<Longrightarrow> unquote (json_body s) = s"
proof (induction s rule: json_body.induct)
  case (1 s)
  show ?case
  proof (cases s)
    case Nil
    then show ?thesis by (simp add: json_body.simps unquote_Nil)
  next
    case (Cons c cs)
    show ?thesis
    proof (cases "(of_char c :: nat) < 128")
      case True
      with 1(4) Cons have "valid_utf8 cs" by (simp add: valid_utf8.simps [of "c # cs"])
      with 1(1) [OF Cons True] True Cons show ?thesis by (simp add: json_body.simps [of "c # cs"] unquote_ascii)
    next
      case False
      with 1(4) Cons obtain n where n: "rune_size s = Some n" "valid_utf8 (drop (n - 1) cs)"
        by (auto simp: valid_utf8.simps [of "c # cs"] split: option.splits)
      note b = rune_size_bytes [OF n(1)]
      let ?e = "if take n s = [CHR 0xE2, CHR 0x80, CHR 0xA8] then hex4 8232
            else if take n s = [CHR 0xE2, CHR 0x80, CHR 0xA9] then hex4 8233 else take n s"
      let ?t = "json_body (drop (n - 1) cs)"
      have "json_body s = ?e @ ?t" using False Cons n(1) by (simp add: json_body.simps [of "c # cs"])
      moreover have "unquote (?e @ ?t) = take n s @ unquote ?t"
        by (auto simp: unquote_rune [OF n(1)] unquote_hex4 encode_rune_def intro: char_eqI)
      moreover have "take n s @ drop (n - 1) cs = s" using b Cons by (cases n) auto
      ultimately show ?thesis using 1(3) [OF Cons False n(1) n(2)] by simp
    qed
  qed
qed

subsection \<open>Numbers\<close>

text \<open>What follows a value: nothing, a comma or the end of a container.\<close>

definition delimited :: "string \<Rightarrow> bool" where
  "delimited t \<longleftrightarrow> t = [] \<or> hd t \<in> {CHR '','', CHR ''}'', CHR '']''}"

lemma delimiter_ends: "c \<in> {CHR '','', CHR ''}'', CHR '']''} \<Longrightarrow> num_final q \<Longrightarrow> num_step q c = None"
  by (cases q) (auto simp: num_step_def num_final_def is_digit_def)

lemma delimiter_starts: "c \<in> {CHR '','', CHR ''}'', CHR '']''} \<Longrightarrow> \<exists>tok. lex_start c = Some ([tok], Between)"
  by (auto simp: lex_start_def whitespace_def)

lemma lex_number_end:
  assumes "delimited t" "num_final q"
  shows "lex (InNumber q) t = map_option (Cons TNum) (lex Between t)"
proof (cases t)
  case (Cons c cs)
  with assms have c: "c \<in> {CHR '','', CHR ''}'', CHR '']''}" by (simp add: delimited_def)
  obtain tok where "lex_start c = Some ([tok], Between)" using delimiter_starts [OF c] by blast
  with delimiter_ends [OF c assms(2)] assms(2) Cons show ?thesis by (cases "lex Between cs") simp_all
qed (use assms in \<open>simp add: lex_end_def\<close>)

lemma lex_digits:
  "list_all is_digit ds \<Longrightarrow> lex (InNumber NDigits) (ds @ t) = lex (InNumber NDigits) t"
  by (induction ds) (auto simp: num_step_def)

lemma decimal_start: "0 < n \<Longrightarrow> \<exists>c ds. decimal n = c # ds \<and> c \<noteq> CHR ''0''"
proof (induction n rule: decimal.induct)
  case (1 n)
  show ?case
  proof (cases "n < 10")
    case True
    with 1(2) have "char_of (48 + n) \<noteq> CHR ''0''" by (auto dest: arg_cong [of _ _ "of_char :: char \<Rightarrow> nat"] simp: of_char_of)
    with True show ?thesis by (subst decimal.simps) simp
  next
    case False
    with 1(1) have "\<exists>c ds. decimal (n div 10) = c # ds \<and> c \<noteq> CHR ''0''" by simp
    with False show ?thesis by (subst decimal.simps) auto
  qed
qed

lemma not_digits:
  "\<not> is_digit CHR 0x20" "\<not> is_digit CHR 0x09" "\<not> is_digit CHR 0x0D" "\<not> is_digit CHR 0x0A" "\<not> is_digit CHR ''{''"
  "\<not> is_digit CHR ''}''" "\<not> is_digit CHR ''[''" "\<not> is_digit CHR '']''" "\<not> is_digit CHR '':''" "\<not> is_digit CHR '',''"
  "\<not> is_digit CHR 0x22" "\<not> is_digit CHR ''-''"
  by (simp_all add: is_digit_def)

lemma digit_starts: "is_digit c \<Longrightarrow> c \<noteq> CHR ''0'' \<Longrightarrow> lex_start c = Some ([], InNumber NDigits)"
  using not_digits by (auto simp: lex_start_def whitespace_def)

lemma lex_decimal:
  assumes "delimited t" "st = Between \<or> st = InNumber NNeg \<and> 0 < n"
  shows "lex st (decimal n @ t) = map_option (Cons TNum) (lex Between t)"
proof (cases "n = 0")
  case True
  moreover from this assms(2) have "st = Between" by simp
  moreover have "decimal 0 = ''0''" by (auto simp: decimal_small intro: char_eqI)
  ultimately show ?thesis using lex_plain_step [of Between "CHR ''0''" "InNumber NZero" t] lex_number_end [OF assms(1), of NZero]
    by (simp add: lex_start_def whitespace_def num_final_def)
next
  case False
  then obtain c ds where "decimal n = c # ds" "c \<noteq> CHR ''0''" using decimal_start [of n] by blast
  with decimal_digits [of _ n] have d: "decimal n = c # ds" "is_digit c" "c \<noteq> CHR ''0''" "list_all is_digit ds"
    by (auto simp: list_all_iff)
  have "lex_step st c = Some ([], InNumber NDigits)"
    using assms(2) d(2,3) digit_starts by (auto simp: num_step_def)
  from lex_plain_step [OF this, of "ds @ t"] have "lex st (decimal n @ t) = lex (InNumber NDigits) t"
    by (simp only: d(1) append_Cons lex_digits [OF d(4)])
  also have "\<dots> = map_option (Cons TNum) (lex Between t)"
    by (rule lex_number_end [OF assms(1)]) (simp add: num_final_def)
  finally show ?thesis .
qed

lemma lex_itoa: "delimited t \<Longrightarrow> lex Between (itoa i @ t) = map_option (Cons TNum) (lex Between t)"
  using lex_decimal [of t "InNumber NNeg" "nat (- i)"] lex_decimal [of t Between "nat i"]
    lex_plain_step [of Between "CHR ''-''" "InNumber NNeg"]
  by (simp add: itoa_def lex_start_def whitespace_def)

subsection \<open>Values\<close>

text \<open>The tokens of a value, and what the reader keeps of it.\<close>

fun joined :: "token list list \<Rightarrow> token list" where
  "joined [] = []"
| "joined [ts] = ts"
| "joined (ts # us # tss) = ts @ TComma # joined (us # tss)"

fun tokens_of :: "json \<Rightarrow> token list" where
  "tokens_of (JBool b) = [if b then TTrue else TFalse]"
| "tokens_of (JNum i) = [TNum]"
| "tokens_of (JStr s) = [TStr (json_body s)]"
| "tokens_of (JArr js) = TBracket # joined (map tokens_of js) @ [TBracketEnd]"
| "tokens_of (JObj ms) = TBrace # joined (map (\<lambda>(k, v). TStr (json_body k) # TColon # tokens_of v) ms) @ [TBraceEnd]"

fun read_back :: "json \<Rightarrow> jvalue" where
  "read_back (JBool b) = VBool"
| "read_back (JNum i) = VNumber"
| "read_back (JStr s) = VString s"
| "read_back (JArr js) = VArray"
| "read_back (JObj ms) = VObject (map (\<lambda>(k, v). (k, read_back v)) ms)"

fun utf8_json :: "json \<Rightarrow> bool" where
  "utf8_json (JStr s) = valid_utf8 s"
| "utf8_json (JArr js) = list_all utf8_json js"
| "utf8_json (JObj ms) = list_all (\<lambda>(k, v). valid_utf8 k \<and> utf8_json v) ms"
| "utf8_json _ = True"

text \<open>How deep a value is nested, at most.\<close>

fun nested_within :: "nat \<Rightarrow> json \<Rightarrow> bool" where
  "nested_within d (JArr js) = (0 < d \<and> list_all (nested_within (d - 1)) js)"
| "nested_within d (JObj ms) = (0 < d \<and> list_all (\<lambda>(k, v). nested_within (d - 1) v) ms)"
| "nested_within d _ = True"

lemma lex_literal: "lex (InLiteral (u @ [c]) tok) (u @ c # t) = map_option (Cons tok) (lex Between t)"
  by (induction u) simp_all

lemma delimited_Cons: "c \<in> {CHR '','', CHR ''}'', CHR '']''} \<Longrightarrow> delimited (c # t)"
  by (simp add: delimited_def)

lemma lex_punct: "lex_start c = Some ([tok], Between) \<Longrightarrow> lex Between (c # t) = map_option (Cons tok) (lex Between t)"
  by simp

lemma lex_joined:
  assumes "\<And>x t. x \<in> set xs \<Longrightarrow> delimited t \<Longrightarrow> lex Between (text x @ t) = map_option (append (toks x)) (lex Between t)"
    and "delimited t"
  shows "lex Between (strings_Join (map text xs) '','' @ t) = map_option (append (joined (map toks xs))) (lex Between t)"
  using assms(1)
proof (induction xs)
  case (Cons x xs)
  show ?case
  proof (cases xs)
    case Nil
    with Cons assms(2) show ?thesis by simp
  next
    case (Cons y ys)
    let ?u = "strings_Join (map text xs) '','' @ t"
    have "lex Between (CHR '','' # ?u) = map_option (Cons TComma) (lex Between ?u)"
      by (rule lex_punct) (simp add: lex_start_def whitespace_def)
    moreover have "lex Between (text x @ CHR '','' # ?u) = map_option (append (toks x)) (lex Between (CHR '','' # ?u))"
      using Cons.prems by (simp add: delimited_def)
    moreover have "lex Between ?u = map_option (append (joined (map toks xs))) (lex Between t)"
      using Cons.IH Cons.prems by simp
    ultimately show ?thesis using Cons by (simp add: option.map_comp comp_def)
  qed
qed simp

lemma lex_marshal: "delimited t \<Longrightarrow> lex Between (json_Marshal j @ t) = map_option (append (tokens_of j)) (lex Between t)"
proof (induction j arbitrary: t)
  case (JBool b)
  show ?case
    using lex_literal [of "''ru''" "CHR ''e''" TTrue t] lex_literal [of "''als''" "CHR ''e''" TFalse t]
    by (simp add: lex_start_def whitespace_def is_digit_def)
next
  case (JNum i)
  then show ?case by (simp add: lex_itoa)
next
  case (JStr s)
  then show ?case by (simp add: lex_string)
next
  case (JArr js)
  have "lex Between (strings_Join (map json_Marshal js) '','' @ CHR '']'' # t) =
      map_option (append (joined (map tokens_of js))) (lex Between (CHR '']'' # t))"
    by (rule lex_joined) (use JArr.IH in \<open>simp_all add: delimited_def\<close>)
  moreover have "lex Between (CHR '']'' # t) = map_option (Cons TBracketEnd) (lex Between t)"
    "lex Between (CHR ''['' # u) = map_option (Cons TBracket) (lex Between u)" for u
    by (rule lex_punct, simp add: lex_start_def whitespace_def)+
  ultimately show ?case by (simp add: option.map_comp comp_def)
next
  case (JObj ms)
  let ?text = "\<lambda>(k, v). json_string k @ '':'' @ json_Marshal v"
  let ?toks = "\<lambda>(k, v). TStr (json_body k) # TColon # tokens_of v"
  have colon: "lex Between (CHR '':'' # u) = map_option (Cons TColon) (lex Between u)" for u
    by (rule lex_punct) (simp add: lex_start_def whitespace_def)
  have "lex Between (strings_Join (map ?text ms) '','' @ CHR ''}'' # t) =
      map_option (append (joined (map ?toks ms))) (lex Between (CHR ''}'' # t))"
  proof (rule lex_joined)
    fix m u
    assume m: "m \<in> set ms" "delimited u"
    obtain k v where kv: "m = (k, v)" by fastforce
    have "lex Between (json_Marshal v @ u) = map_option (append (tokens_of v)) (lex Between u)"
      using JObj.IH [of m v] m kv by (simp add: snds.simps)
    then show "lex Between (?text m @ u) = map_option (append (?toks m)) (lex Between u)"
      by (cases "lex Between u") (simp_all add: kv lex_string colon del: lex.simps lex_step.simps)
  qed (simp add: delimited_def)
  moreover have "lex Between (CHR ''}'' # t) = map_option (Cons TBraceEnd) (lex Between t)"
    "lex Between (CHR ''{'' # u) = map_option (Cons TBrace) (lex Between u)" for u
    by (rule lex_punct, simp add: lex_start_def whitespace_def)+
  ultimately show ?case by (simp add: option.map_comp comp_def)
qed

subsection \<open>The reader on the tokens of a value\<close>

definition resume :: "jvalue \<Rightarrow> frame list \<Rightarrow> token list \<Rightarrow> jvalue option" where
  "resume v fs ts = (case complete_value v fs of (st, fs') \<Rightarrow> parse_tokens st fs' ts)"

lemma resume_simps [simp]:
  "resume v (InArray # fs) ts = parse_tokens PElement fs ts"
  "resume v (InObject ms k # fs) ts = parse_tokens (PMember (ms @ [(k, v)])) fs ts"
  by (simp_all add: resume_def)

lemma tokens_start: "\<exists>t ts. tokens_of j = t # ts \<and> t \<noteq> TBracketEnd"
  by (cases j) simp_all

lemma joined_Cons: "joined (ts # tss) = ts @ (if tss = [] then [] else TComma # joined tss)"
  by (cases tss) simp_all

lemma parse_elements:
  "(\<And>j us. j \<in> set js \<Longrightarrow> parse_tokens PValue (InArray # fs) (tokens_of j @ us) = parse_tokens PElement fs us) \<Longrightarrow>
   js \<noteq> [] \<Longrightarrow> parse_tokens PValue (InArray # fs) (joined (map tokens_of js) @ TBracketEnd # ts) = resume VArray fs ts"
proof (induction js)
  case (Cons j js)
  then show ?case by (cases "js = []") (simp_all add: joined_Cons resume_def split: prod.splits)
qed simp

lemma parse_members:
  "(\<And>k v acc us. (k, v) \<in> set ms \<Longrightarrow> parse_tokens PValue (InObject acc k # fs) (tokens_of v @ us) =
      parse_tokens (PMember (acc @ [(k, read_back v)])) fs us) \<Longrightarrow>
   list_all (\<lambda>(k, v). valid_utf8 k) ms \<Longrightarrow> ms \<noteq> [] \<Longrightarrow>
   parse_tokens (PKey acc) fs (joined (map (\<lambda>(k, v). TStr (json_body k) # TColon # tokens_of v) ms) @ TBraceEnd # ts) =
     resume (VObject (acc @ map (\<lambda>(k, v). (k, read_back v)) ms)) fs ts"
proof (induction ms arbitrary: acc)
  case (Cons m ms)
  obtain k v where m: "m = (k, v)" by fastforce
  from Cons.IH [of "acc @ [(k, read_back v)]"] Cons.prems m show ?case
    by (cases "ms = []") (simp_all add: joined_Cons unquote_body resume_def split: prod.splits)
qed simp

lemma parse_marshal:
  "utf8_json j \<Longrightarrow> nested_within (maxNestingDepth - length fs) j \<Longrightarrow>
   parse_tokens PValue fs (tokens_of j @ ts) = resume (read_back j) fs ts"
proof (induction j arbitrary: fs ts)
  case (JBool b)
  then show ?case by (simp add: begin_value_def resume_def split: prod.splits)
next
  case (JNum i)
  then show ?case by (simp add: begin_value_def resume_def split: prod.splits)
next
  case (JStr s)
  then show ?case by (simp add: begin_value_def resume_def unquote_body split: prod.splits)
next
  case (JArr js)
  then have d: "length fs < maxNestingDepth" by simp
  then have depth: "maxNestingDepth - length (InArray # fs) = maxNestingDepth - length fs - 1" by simp
  have el: "parse_tokens PValue (InArray # fs) (tokens_of j @ us) = parse_tokens PElement fs us" if "j \<in> set js" for j us
    using JArr.IH [OF that, of "InArray # fs" us] JArr.prems that depth by (auto simp: list_all_iff)
  show ?case
  proof (cases js)
    case Nil
    with d show ?thesis by (simp add: begin_value_def resume_def split: prod.splits)
  next
    case (Cons j js')
    obtain t ts' where t: "joined (map tokens_of js) = t # ts'" "t \<noteq> TBracketEnd"
      using tokens_start [of j] Cons by (auto simp: joined_Cons)
    have "parse_tokens PValue (InArray # fs) (t # ts' @ TBracketEnd # ts) = resume VArray fs ts"
      using parse_elements [of js fs ts, OF el] t(1) Cons by simp
    moreover have "begin_value TBracket fs = Some (PValueOrEnd, fs)" using d by (simp add: begin_value_def)
    ultimately show ?thesis using t by simp
  qed
next
  case (JObj ms)
  then have d: "length fs < maxNestingDepth" by simp
  then have depth: "maxNestingDepth - length (InObject acc k # fs) = maxNestingDepth - length fs - 1" for acc k by simp
  have el: "parse_tokens PValue (InObject acc k # fs) (tokens_of v @ us) = parse_tokens (PMember (acc @ [(k, read_back v)])) fs us"
    if "(k, v) \<in> set ms" for k v acc us
    using JObj.IH [OF that, of v "InObject acc k # fs" us] JObj.prems that depth by (auto simp: list_all_iff snds.simps)
  have k: "list_all (\<lambda>(k, v). valid_utf8 k) ms" using JObj.prems(1) by (auto simp: list_all_iff)
  show ?case
  proof (cases ms)
    case Nil
    with d show ?thesis by (simp add: begin_value_def resume_def split: prod.splits)
  next
    case (Cons m ms')
    obtain raw ts' where t: "joined (map (\<lambda>(k, v). TStr (json_body k) # TColon # tokens_of v) ms) = TStr raw # ts'"
      using Cons by (cases m) (auto simp: joined_Cons)
    moreover have "parse_tokens (PKey []) fs (joined (map (\<lambda>(k, v). TStr (json_body k) # TColon # tokens_of v) ms) @ TBraceEnd # ts) =
        resume (read_back (JObj ms)) fs ts"
      using parse_members [of ms fs "[]" ts, OF el k] Cons by simp
    moreover have "begin_value TBrace fs = Some (PKeyOrEnd, fs)" using d by (simp add: begin_value_def)
    ultimately show ?thesis by simp
  qed
qed

lemma parse_json_marshal:
  assumes "utf8_json j" "nested_within maxNestingDepth j"
  shows "parse_json (json_Marshal j) = Some (read_back j)"
proof -
  have "lex Between (json_Marshal j) = Some (tokens_of j)" using lex_marshal [of "[]" j] by (simp add: delimited_def lex_end_def)
  then show ?thesis using parse_marshal [of j "[]" "[]"] assms by (simp add: parse_json_def resume_def)
qed

end
