(* ===== verification/Jwks_Discovery.thy ===== *)
theory Jwks_Discovery
  imports Effects Go_URL Json_Roundtrip
begin

section \<open>Discovery of the key-set URL\<close>

text \<open>
  \<^verbatim>\<open>internal/controller/hyperfleetconfig_rollout.go\<close>, lines 60 to 97 and 280 to 414: the hardened
  HTTP client, the discovery request with its checks, and the cache of the last good answer per
  issuer.  URLs and JSON are read by the models of \<^verbatim>\<open>net/url\<close> and \<^verbatim>\<open>encoding/json\<close>.
\<close>

definition oidcDiscoveryPath :: string where
  "oidcDiscoveryPath = ''/.well-known/openid-configuration''"

definition discoveryTimeout :: nat where "discoveryTimeout = 10"

definition errNoDiscoveryRedirects :: error where
  "errNoDiscoveryRedirects = Errorf ''OIDC discovery does not follow redirects'' []"

definition newDiscoveryHTTPClient :: http_client where
  "newDiscoveryHTTPClient = \<lparr>hcControl = blockDiscoveryDial,
     hcCheckRedirect = Some errNoDiscoveryRedirects, hcTimeout = discoveryTimeout\<rparr>"

text \<open>The injected client, or the default one, which is built once.\<close>

definition discovery_client :: "reconciler \<Rightarrow> 'w sys \<Rightarrow> http_client \<times> 'w sys" where
  "discovery_client r s = (case HTTPClient r of
       Some c \<Rightarrow> (c, s)
     | None \<Rightarrow> (case discoveryClient s of
           Some c \<Rightarrow> (c, s)
         | None \<Rightarrow> (newDiscoveryHTTPClient,
             s\<lparr>discoveryClient := Some newDiscoveryHTTPClient, clientsBuilt := clientsBuilt s + 1\<rparr>)))"

text \<open>\<^verbatim>\<open>io.ReadAll\<close> of a \<^verbatim>\<open>LimitReader\<close>: the limit hides whatever comes after it, an error included.\<close>

definition bodyLimit :: nat where "bodyLimit = 2 ^ 20"

definition read_limited :: "http_response \<Rightarrow> string result" where
  "read_limited resp =
     (if bodyLimit \<le> length (hrBody resp) then Inr (take bodyLimit (hrBody resp))
      else case hrBodyError resp of Some e \<Rightarrow> Inl e | None \<Rightarrow> Inr (hrBody resp))"

text \<open>\<^verbatim>\<open>http.NewRequestWithContext\<close> with the method GET, a context and no body fails only on a URL that does
  not parse.\<close>

definition NewRequest :: "string \<Rightarrow> error option" where
  "NewRequest url = (case url_Parse url of Inl e \<Rightarrow> Some e | Inr _ \<Rightarrow> None)"

text \<open>The checks on a response, in the order of the code.\<close>

definition check_document :: "string \<Rightarrow> string \<Rightarrow> string \<Rightarrow> string result" where
  "check_document normalizedIssuer discoveryURL body =
     (case json_Unmarshal body of
        Inl e \<Rightarrow> Inl (Wrapf ''parse discovery document from %q: %w'' [discoveryURL] e)
      | Inr doc \<Rightarrow>
          if TrimSuffix (docIssuer doc) ''/'' \<noteq> normalizedIssuer then
            Inl (Errorf ''discovery document from %q has issuer %q, want %q'' [discoveryURL, docIssuer doc, normalizedIssuer])
          else if docJWKSURI doc = [] then
            Inl (Errorf ''discovery document from %q has no jwks_uri'' [discoveryURL])
          else case url_Parse (docJWKSURI doc) of
              Inl e \<Rightarrow> Inl (Wrapf ''discovery document from %q has malformed jwks_uri %q: %w'' [discoveryURL, docJWKSURI doc] e)
            | Inr u \<Rightarrow>
                if urlScheme u \<noteq> ''https'' \<or> urlHost u = [] then
                  Inl (Errorf ''discovery document from %q has non-https jwks_uri %q'' [discoveryURL, docJWKSURI doc])
                else Inr (docJWKSURI doc))"

definition check_response :: "string \<Rightarrow> string \<Rightarrow> http_response \<Rightarrow> string result" where
  "check_response normalizedIssuer discoveryURL resp =
     (if hrStatusCode resp \<noteq> 200 then
        Inl (Errorf ''discovery %q returned status %d'' [discoveryURL, itoa (hrStatusCode resp)])
      else case read_limited resp of
          Inl e \<Rightarrow> Inl (Wrapf ''read discovery body from %q: %w'' [discoveryURL] e)
        | Inr body \<Rightarrow> check_document normalizedIssuer discoveryURL body)"

definition discoverJWKSURL :: "'w env \<Rightarrow> reconciler \<Rightarrow> string \<Rightarrow> 'w sys \<Rightarrow> string result \<times> 'w sys" where
  "discoverJWKSURL env r issuer s =
     (let normalizedIssuer = TrimSuffix issuer ''/'';
          discoveryURL = normalizedIssuer @ oidcDiscoveryPath
      in case NewRequest discoveryURL of
           Some e \<Rightarrow> (Inl (Wrapf ''build discovery request for %q: %w'' [discoveryURL] e), s)
         | None \<Rightarrow>
             (case discovery_client r s of
                (client, s) \<Rightarrow>
                  (case perform (HTTPGet client discoveryURL) (envHTTPDo env client discoveryURL) s of
                     (Inl e, s) \<Rightarrow> (Inl (Wrapf ''fetch %q: %w'' [discoveryURL] e), s)
                   | (Inr resp, s) \<Rightarrow> (check_response normalizedIssuer discoveryURL resp, s))))"

definition cachedDiscovery :: "string \<Rightarrow> 'w sys \<Rightarrow> string option" where
  "cachedDiscovery issuer s = discoveryCache s issuer"

definition cacheDiscovery :: "string \<Rightarrow> string \<Rightarrow> 'w sys \<Rightarrow> 'w sys" where
  "cacheDiscovery issuer jwksURI s = s\<lparr>discoveryCache := (discoveryCache s)(issuer \<mapsto> jwksURI)\<rparr>"

definition resolveJWKSURL :: "'w env \<Rightarrow> reconciler \<Rightarrow> HyperFleetConfig \<Rightarrow> 'w sys \<Rightarrow> string result \<times> 'w sys" where
  "resolveJWKSURL env r cr s =
     (if \<not> AuthEnabled cr then (Inr [], s)
      else if JWKCertSecretRef (Auth (API (Spec cr))) \<noteq> None then (Inr [], s)
      else let issuer = Issuer (Auth (API (Spec cr))) in
        case discoverJWKSURL env r issuer s of
          (Inl e, s) \<Rightarrow> (case cachedDiscovery issuer s of
              Some cached \<Rightarrow> (Inr cached, s)
            | None \<Rightarrow> (Inl e, s))
        | (Inr jwksURI, s) \<Rightarrow> (Inr jwksURI, cacheDiscovery issuer jwksURI s))"

subsection \<open>What discovery returns and leaves behind\<close>

text \<open>A URL that passed every check for an issuer.\<close>

definition verified_jwks :: "string \<Rightarrow> string \<Rightarrow> bool" where
  "verified_jwks issuer uri \<longleftrightarrow> uri \<noteq> [] \<and>
     (\<exists>u. url_Parse uri = Inr u \<and> urlScheme u = ''https'' \<and> urlHost u \<noteq> []) \<and>
     (\<exists>body doc. length body \<le> bodyLimit \<and> json_Unmarshal body = Inr doc \<and> docJWKSURI doc = uri \<and>
        TrimSuffix (docIssuer doc) ''/'' = TrimSuffix issuer ''/'')"

definition cache_ok :: "'w sys \<Rightarrow> bool" where
  "cache_ok s \<longleftrightarrow> (\<forall>issuer uri. discoveryCache s issuer = Some uri \<longrightarrow> verified_jwks issuer uri)"

definition client_ok :: "'w sys \<Rightarrow> bool" where
  "client_ok s \<longleftrightarrow> (discoveryClient s = None \<and> clientsBuilt s = 0) \<or>
     (discoveryClient s = Some newDiscoveryHTTPClient \<and> clientsBuilt s = 1)"

definition needs_discovery :: "HyperFleetConfig \<Rightarrow> bool" where
  "needs_discovery cr \<longleftrightarrow> AuthEnabled cr \<and> JWKCertSecretRef (Auth (API (Spec cr))) = None"

lemma read_limited_bound: "read_limited resp = Inr b \<Longrightarrow> length b \<le> bodyLimit \<and> prefix b (hrBody resp)"
  by (auto simp: read_limited_def take_is_prefix split: if_splits option.splits)

lemma check_response_verified:
  "check_response (TrimSuffix issuer ''/'') url resp = Inr uri \<Longrightarrow> verified_jwks issuer uri"
  by (auto simp: check_response_def check_document_def verified_jwks_def dest!: read_limited_bound
      split: if_splits sum.splits)

lemma discovery_client_sel:
  assumes "discovery_client r s = (c, s')"
  shows "calls s' = calls s" "metrics s' = metrics s" "discoveryCache s' = discoveryCache s" "world s' = world s"
    and "client_ok s \<Longrightarrow> client_ok s' \<and> c = (case HTTPClient r of Some c \<Rightarrow> c | None \<Rightarrow> newDiscoveryHTTPClient)"
  using assms by (auto simp: discovery_client_def client_ok_def split: option.splits)

lemma discoverJWKSURL_cases:
  assumes "discoverJWKSURL env r issuer s = (res, s')"
  obtains (request) e where "res = Inl e" "s' = s"
  | (fetch) c s1 resp where "discovery_client r s = (c, s1)"
      "perform (HTTPGet c (TrimSuffix issuer ''/'' @ oidcDiscoveryPath))
        (envHTTPDo env c (TrimSuffix issuer ''/'' @ oidcDiscoveryPath)) s1 = (resp, s')"
      "case resp of Inl _ \<Rightarrow> isl res
        | Inr x \<Rightarrow> res = check_response (TrimSuffix issuer ''/'') (TrimSuffix issuer ''/'' @ oidcDiscoveryPath) x"
proof (cases "NewRequest (TrimSuffix issuer ''/'' @ oidcDiscoveryPath)")
  case None
  obtain c s1 where c: "discovery_client r s = (c, s1)" by fastforce
  obtain resp s2 where p: "perform (HTTPGet c (TrimSuffix issuer ''/'' @ oidcDiscoveryPath))
        (envHTTPDo env c (TrimSuffix issuer ''/'' @ oidcDiscoveryPath)) s1 = (resp, s2)" by fastforce
  from assms None c p show thesis
    by (intro fetch [of c s1 resp]) (auto simp: discoverJWKSURL_def Let_def split: sum.splits)
next
  case (Some e)
  with assms show thesis by (intro request) (auto simp: discoverJWKSURL_def Let_def)
qed

lemma discoverJWKSURL_spec:
  assumes "discoverJWKSURL env r issuer s = (res, s')"
  shows "discoveryCache s' = discoveryCache s" "metrics s' = metrics s"
    and "res = Inr uri \<Longrightarrow> verified_jwks issuer uri"
    and "client_ok s \<Longrightarrow> client_ok s' \<and> (calls s' = calls s \<or> calls s' = calls s @
      [HTTPGet (case HTTPClient r of Some c \<Rightarrow> c | None \<Rightarrow> newDiscoveryHTTPClient)
        (TrimSuffix issuer ''/'' @ oidcDiscoveryPath)])"
proof -
  have "discoveryCache s' = discoveryCache s \<and> metrics s' = metrics s \<and>
    (res = Inr uri \<longrightarrow> verified_jwks issuer uri) \<and> (client_ok s \<longrightarrow> client_ok s' \<and> (calls s' = calls s \<or> calls s' = calls s @
      [HTTPGet (case HTTPClient r of Some c \<Rightarrow> c | None \<Rightarrow> newDiscoveryHTTPClient)
        (TrimSuffix issuer ''/'' @ oidcDiscoveryPath)]))"
  proof (rule discoverJWKSURL_cases [OF assms])
    fix c s1 resp
    assume fetch: "discovery_client r s = (c, s1)"
      "perform (HTTPGet c (TrimSuffix issuer ''/'' @ oidcDiscoveryPath))
        (envHTTPDo env c (TrimSuffix issuer ''/'' @ oidcDiscoveryPath)) s1 = (resp, s')"
      "case resp of Inl _ \<Rightarrow> isl res
        | Inr x \<Rightarrow> res = check_response (TrimSuffix issuer ''/'') (TrimSuffix issuer ''/'' @ oidcDiscoveryPath) x"
    note dc = discovery_client_sel [OF fetch(1)]
    have "res = Inr uri \<longrightarrow> verified_jwks issuer uri"
      using fetch(3) by (auto split: sum.splits intro: check_response_verified)
    moreover have "client_ok s' = client_ok s1" using fetch(2) by (simp add: client_ok_def)
    ultimately show ?thesis using dc fetch(2) by auto
  qed auto
  then show "discoveryCache s' = discoveryCache s" "metrics s' = metrics s"
    and "res = Inr uri \<Longrightarrow> verified_jwks issuer uri"
    and "client_ok s \<Longrightarrow> client_ok s' \<and> (calls s' = calls s \<or> calls s' = calls s @
      [HTTPGet (case HTTPClient r of Some c \<Rightarrow> c | None \<Rightarrow> newDiscoveryHTTPClient)
        (TrimSuffix issuer ''/'' @ oidcDiscoveryPath)])"
    by blast+
qed

lemma resolveJWKSURL_verified:
  assumes "cache_ok s" "resolveJWKSURL env r cr s = (Inr url, s')"
  shows "cache_ok s' \<and> (url = [] \<longleftrightarrow> \<not> needs_discovery cr) \<and>
    (url \<noteq> [] \<longrightarrow> verified_jwks (Issuer (Auth (API (Spec cr)))) url)"
proof (cases "needs_discovery cr")
  case False
  with assms show ?thesis by (auto simp: resolveJWKSURL_def needs_discovery_def split: if_splits)
next
  case True
  let ?i = "Issuer (Auth (API (Spec cr)))"
  obtain res s1 where d: "discoverJWKSURL env r ?i s = (res, s1)" by fastforce
  note spec = discoverJWKSURL_spec [OF d]
  from True assms(2) d have "(\<exists>e. res = Inl e \<and> discoveryCache s1 ?i = Some url \<and> s' = s1) \<or>
      (res = Inr url \<and> s' = cacheDiscovery ?i url s1)"
    by (auto simp: resolveJWKSURL_def needs_discovery_def Let_def cachedDiscovery_def split: sum.splits option.splits)
  with spec assms(1) have "verified_jwks ?i url \<and> cache_ok s'"
    by (auto simp: cache_ok_def cacheDiscovery_def split: if_splits)
  with True show ?thesis by (auto simp: verified_jwks_def)
qed

lemma verified_https:
  assumes "verified_jwks issuer uri" obtains host where "https_text uri host" "host \<noteq> []"
  using assms url_Parse_https by (auto simp: verified_jwks_def)

text \<open>
  C4: The key-set URL handed to the renderer is empty exactly when none is needed (authentication is
  off, or the CR references a Secret); otherwise it passed every check for the configured issuer:
  it came, now or at an earlier reconcile, from a document of at most one MiB whose issuer is
  the configured one, and its text spells the scheme \<^verbatim>\<open>https\<close> and a host part that is not empty.  The
  same holds of every cached URL, which is an invariant of the reconciler.
\<close>

theorem resolve_jwks_verified:
  assumes "cache_ok s" "resolveJWKSURL env r cr s = (Inr url, s')"
  shows "cache_ok s' \<and> (url = [] \<longleftrightarrow> \<not> needs_discovery cr) \<and>
    (url \<noteq> [] \<longrightarrow> verified_jwks (Issuer (Auth (API (Spec cr)))) url \<and> (\<exists>host. host \<noteq> [] \<and> https_text url host))"
  using resolveJWKSURL_verified [OF assms] verified_https by metis

text \<open>
  C5: Discovery fails a reconcile only the first time: an error is returned only if discovery is
  needed, the request or a check failed, and no URL is cached for the issuer; nothing is cached
  then, a cached URL is never dropped, and after a success the issuer has one.
\<close>

theorem resolve_jwks_degrades:
  assumes "resolveJWKSURL env r cr s = (res, s')"
  shows "(isl res \<longleftrightarrow> needs_discovery cr \<and> isl (fst (discoverJWKSURL env r (Issuer (Auth (API (Spec cr)))) s)) \<and>
      discoveryCache s (Issuer (Auth (API (Spec cr)))) = None) \<and>
    (if needs_discovery cr \<and> \<not> isl res
     then discoveryCache s' = (discoveryCache s)(Issuer (Auth (API (Spec cr))) \<mapsto> projr res)
     else discoveryCache s' = discoveryCache s)"
proof (cases "needs_discovery cr")
  case False
  with assms show ?thesis by (auto simp: resolveJWKSURL_def needs_discovery_def split: if_splits)
next
  case True
  let ?i = "Issuer (Auth (API (Spec cr)))"
  obtain dres s1 where d: "discoverJWKSURL env r ?i s = (dres, s1)" by fastforce
  note spec = discoverJWKSURL_spec(1) [OF d]
  show ?thesis
  proof (cases dres)
    case (Inl e)
    with True assms d spec show ?thesis
      by (cases "discoveryCache s ?i")
         (auto simp: resolveJWKSURL_def needs_discovery_def Let_def cachedDiscovery_def)
  next
    case (Inr u)
    with True assms d spec show ?thesis
      by (auto simp: resolveJWKSURL_def needs_discovery_def Let_def cacheDiscovery_def)
  qed
qed

text \<open>
  C6: The only traffic of a resolution is at most one GET of the issuer's well-known document, with a
  trailing slash of the issuer collapsed, and none when no discovery is needed.  Unless a client was
  injected it goes through the hardened client, which refuses every redirect and dials only
  addresses that the dial policy accepts, and that client is built at most once.
\<close>

theorem resolve_jwks_traffic:
  assumes "client_ok s" "resolveJWKSURL env r cr s = (res, s')" "HTTPClient r = None"
  shows "client_ok s' \<and> clientsBuilt s' \<le> 1 \<and>
    (\<exists>c. calls s' \<in> {calls s, calls s @ [HTTPGet c (TrimSuffix (Issuer (Auth (API (Spec cr)))) ''/'' @ oidcDiscoveryPath)]} \<and>
      hcControl c = blockDiscoveryDial \<and> hcCheckRedirect c \<noteq> None) \<and>
    (\<not> needs_discovery cr \<longrightarrow> calls s' = calls s)"
proof (cases "needs_discovery cr")
  case False
  with assms have "s' = s" by (auto simp: resolveJWKSURL_def needs_discovery_def split: if_splits)
  with assms(1) show ?thesis
    by (auto simp: client_ok_def newDiscoveryHTTPClient_def intro!: exI [of _ newDiscoveryHTTPClient])
next
  case True
  let ?i = "Issuer (Auth (API (Spec cr)))"
  obtain dres s1 where d: "discoverJWKSURL env r ?i s = (dres, s1)" by fastforce
  from discoverJWKSURL_spec(4) [OF d assms(1)] assms(3)
  have c: "client_ok s1" "calls s1 = calls s \<or> calls s1 = calls s @ [HTTPGet newDiscoveryHTTPClient (TrimSuffix ?i ''/'' @ oidcDiscoveryPath)]"
    by auto
  have "calls s' = calls s1 \<and> clientsBuilt s' = clientsBuilt s1 \<and> discoveryClient s' = discoveryClient s1"
    using True assms(2) d
    by (auto simp: resolveJWKSURL_def needs_discovery_def Let_def cacheDiscovery_def split: sum.splits option.splits)
  with c True show ?thesis
    by (intro conjI exI [of _ newDiscoveryHTTPClient]) (auto simp: client_ok_def newDiscoveryHTTPClient_def)
qed


subsection \<open>A well-behaved provider is accepted\<close>

text \<open>A JSON object that a provider may serve: its members may come in any order and among others, but those
  that denote a field of the document are the issuer and the key-set URL.\<close>

definition provider_object :: "(string \<times> json) list \<Rightarrow> string \<Rightarrow> string \<Rightarrow> bool" where
  "provider_object ms i u \<longleftrightarrow> utf8_json (JObj ms) \<and> nested_within maxNestingDepth (JObj ms) \<and>
     (''issuer'', JStr i) \<in> set ms \<and> (''jwks_uri'', JStr u) \<in> set ms \<and>
     list_all (\<lambda>(k, v). doc_field_of k \<noteq> None \<longrightarrow> (k, v) \<in> {(''issuer'', JStr i), (''jwks_uri'', JStr u)}) ms"

lemma doc_fields: "doc_field_of ''issuer'' = Some FIssuer" "doc_field_of ''jwks_uri'' = Some FJWKSURI"
  by (simp_all add: doc_field_of_def)

lemma decode_provider:
  "list_all (\<lambda>(k, v). doc_field_of k \<noteq> None \<longrightarrow> (k, v) \<in> {(''issuer'', JStr i), (''jwks_uri'', JStr u)}) ms \<Longrightarrow>
   decode_members (map (\<lambda>(k, v). (k, read_back v)) ms) doc = Inr
     \<lparr>docIssuer = (if (''issuer'', JStr i) \<in> set ms then i else docIssuer doc),
      docJWKSURI = (if (''jwks_uri'', JStr u) \<in> set ms then u else docJWKSURI doc)\<rparr>"
proof (induction ms arbitrary: doc)
  case (Cons m ms)
  obtain k v where m: "m = (k, v)" by fastforce
  show ?case
  proof (cases "doc_field_of k")
    case None
    then have "k \<noteq> ''issuer''" "k \<noteq> ''jwks_uri''" by (auto simp: doc_fields)
    with Cons.IH [of doc] Cons.prems None m show ?thesis by simp
  next
    case (Some f)
    with Cons.prems m consider "k = ''issuer''" "v = JStr i" | "k = ''jwks_uri''" "v = JStr u" by auto
    then show ?thesis
      using Cons.IH [of "set_field FIssuer i doc"] Cons.IH [of "set_field FJWKSURI u doc"] Cons.prems m
      by cases (simp_all add: doc_fields set_field_def)
  qed
qed simp

lemma unmarshal_provider:
  assumes "provider_object ms i u"
  shows "json_Unmarshal (json_Marshal (JObj ms)) = Inr \<lparr>docIssuer = i, docJWKSURI = u\<rparr>"
  using assms parse_json_marshal [of "JObj ms"] decode_provider [of i u ms empty_doc]
  by (simp add: provider_object_def json_Unmarshal_def)

text \<open>A plain https URL, with the path that is given.\<close>

definition plain_https :: "string \<Rightarrow> string \<Rightarrow> bool" where
  "plain_https url p \<longleftrightarrow> (\<exists>h port. url = ''https://'' @ h @ port @ p \<and> plain_name h \<and> validOptionalPort port \<and> h @ port \<noteq> [] \<and> plain_path p)"

lemma plain_https_parses: "plain_https url p \<Longrightarrow> \<exists>host. host \<noteq> [] \<and> url_Parse url = Inr \<lparr>urlScheme = ''https'', urlHost = host\<rparr>"
  unfolding plain_https_def using url_Parse_plain by blast

lemma port_digits: "validOptionalPort port \<Longrightarrow> CHR ''/'' \<notin> set port"
  by (auto simp: validOptionalPort_def is_digit_def list_all_iff split: list.splits dest!: bspec)

lemma plain_path_extend:
  assumes "plain_path p" shows "plain_path (TrimSuffix p ''/'' @ oidcDiscoveryPath)"
proof -
  let ?P = "\<lambda>c. is_alpha c \<or> is_digit c \<or> c \<in> set ''/-._~''"
  have t: "TrimSuffix p ''/'' = [] \<or> hd (TrimSuffix p ''/'') = hd p \<and> p \<noteq> []" "set (TrimSuffix p ''/'') \<subseteq> set p"
    by (cases p rule: rev_cases; auto simp: TrimSuffix_char hd_append)+
  have "list_all ?P oidcDiscoveryPath" "hd oidcDiscoveryPath = CHR ''/''"
    by (simp_all add: oidcDiscoveryPath_def is_alpha_def is_digit_def)
  moreover have "list_all ?P (TrimSuffix p ''/'')" using assms t(2) by (auto simp only: plain_path_def list_all_iff)
  ultimately show ?thesis using assms t(1) by (auto simp only: plain_path_def list_all_append hd_append append_Nil split: if_splits)
qed

lemma plain_issuer:
  assumes "plain_https issuer p"
  shows "plain_https (TrimSuffix issuer ''/'' @ oidcDiscoveryPath) (TrimSuffix p ''/'' @ oidcDiscoveryPath)"
proof -
  from assms obtain h port where i: "issuer = ''https://'' @ h @ port @ p" "plain_name h" "validOptionalPort port" "h @ port \<noteq> []" "plain_path p"
    by (auto simp: plain_https_def)
  have "CHR ''/'' \<notin> set (h @ port)"
    using i(2) port_digits [OF i(3)] by (auto simp: plain_name_def list_all_iff is_alpha_def is_digit_def dest!: bspec)
  then have "last (h @ port) \<noteq> CHR ''/''" using i(4) last_in_set by metis
  then have "TrimSuffix issuer ''/'' = ''https://'' @ h @ port @ TrimSuffix p ''/''"
    using i(1,4) by (auto simp: TrimSuffix_char butlast_append)
  moreover have "plain_path (TrimSuffix p ''/'' @ oidcDiscoveryPath)" by (rule plain_path_extend [OF i(5)])
  ultimately show ?thesis using i unfolding plain_https_def by (intro exI [of _ h] exI [of _ port]) simp
qed

lemma provider_accepted:
  assumes "hrStatusCode resp = 200" "hrBodyError resp = None" "hrBody resp = json_Marshal (JObj ms)"
    and "length (hrBody resp) \<le> bodyLimit" "provider_object ms i u" "TrimSuffix i ''/'' = n" "plain_https u q"
  shows "check_response n url resp = Inr u"
proof -
  have "read_limited resp = Inr (json_Marshal (JObj ms))"
    using assms(2-4) by (cases "length (hrBody resp) = bodyLimit") (auto simp: read_limited_def)
  moreover obtain host where "host \<noteq> []" "url_Parse u = Inr \<lparr>urlScheme = ''https'', urlHost = host\<rparr>"
    using plain_https_parses [OF assms(7)] by blast
  moreover have "u \<noteq> []" using assms(7) by (auto simp: plain_https_def)
  ultimately show ?thesis using assms(1,6) unmarshal_provider [OF assms(5)] by (simp add: check_response_def check_document_def)
qed

text \<open>
  C7: A well-behaved provider is accepted: with a plain https issuer the discovery request can be built, and
  if the answer is a 200 whose body, of at most one MiB, is any JSON object encoded by the library that names
  the issuer, up to a trailing slash, and a plain https key-set URL, in whatever order and among whatever
  other members, then the resolution returns exactly this URL and caches it, whatever was cached before.
\<close>

theorem discovery_completes:
  assumes "needs_discovery cr" "issuer = Issuer (Auth (API (Spec cr)))" "plain_https issuer p"
    and "envHTTPDo env (fst (discovery_client r s)) (TrimSuffix issuer ''/'' @ oidcDiscoveryPath) (world s) = (Inr resp, w)"
    and "hrStatusCode resp = 200" "hrBodyError resp = None" "hrBody resp = json_Marshal (JObj ms)"
    and "length (hrBody resp) \<le> bodyLimit" "provider_object ms i u" "TrimSuffix i ''/'' = TrimSuffix issuer ''/''" "plain_https u q"
  shows "\<exists>s'. resolveJWKSURL env r cr s = (Inr u, s') \<and> discoveryCache s' = (discoveryCache s)(issuer \<mapsto> u)"
proof -
  let ?url = "TrimSuffix issuer ''/'' @ oidcDiscoveryPath"
  have "NewRequest ?url = None" using plain_https_parses [OF plain_issuer [OF assms(3)]] by (auto simp: NewRequest_def)
  moreover have "check_response (TrimSuffix issuer ''/'') ?url resp = Inr u"
    using provider_accepted [OF assms(5-9)] assms(10,11) by blast
  moreover obtain c s1 where "discovery_client r s = (c, s1)" by fastforce
  moreover from discovery_client_sel [OF this] have "world s1 = world s" "discoveryCache s1 = discoveryCache s" by simp_all
  ultimately show ?thesis using assms(1,2,4)
    by (simp add: resolveJWKSURL_def needs_discovery_def discoverJWKSURL_def Let_def perform_def cacheDiscovery_def)
qed

subsection \<open>An example\<close>

lemma json_body_plain:
  "list_all (\<lambda>c. is_alpha c \<or> is_digit c \<or> c \<in> set ''/-._~:'') s \<Longrightarrow> json_body s = s"
proof (induction s)
  case (Cons c s)
  then have "escape_ascii c = [c]" "of_char c < (128 :: nat)"
    by (auto simp: escape_ascii_def is_alpha_def is_digit_def Let_def)
  with Cons show ?case by (simp add: json_body.simps [of "c # s"])
qed (simp add: json_body.simps)

lemma provider_document_object:
  assumes "valid_utf8 i" "valid_utf8 u"
  shows "provider_object [(''issuer'', JStr i), (''jwks_uri'', JStr u)] i u"
  using assms by (simp add: provider_object_def maxNestingDepth_def valid_ascii)

lemma document_length:
  assumes "list_all (\<lambda>c. is_alpha c \<or> is_digit c \<or> c \<in> set ''/-._~:'') i" "list_all (\<lambda>c. is_alpha c \<or> is_digit c \<or> c \<in> set ''/-._~:'') u"
  shows "length (provider_document i u) = 27 + length i + length u"
  using assms json_body_plain [of "''issuer''"] json_body_plain [of "''jwks_uri''"]
  by (simp add: provider_document_def json_string_def json_body_plain is_alpha_def is_digit_def)

lemma example_checked: "check_response ''https://idp'' url example_response = Inr ''https://idp/keys''"
proof (rule provider_accepted)
  show "hrBody example_response = json_Marshal (JObj [(''issuer'', JStr ''https://idp/''), (''jwks_uri'', JStr ''https://idp/keys'')])"
    by (simp add: example_response_def provider_document_def)
  show "provider_object [(''issuer'', JStr ''https://idp/''), (''jwks_uri'', JStr ''https://idp/keys'')] ''https://idp/'' ''https://idp/keys''"
    by (rule provider_document_object) (simp_all add: valid_ascii)
  show "length (hrBody example_response) \<le> bodyLimit"
    using document_length [of "''https://idp/''" "''https://idp/keys''"]
    by (simp add: example_response_def bodyLimit_def is_alpha_def is_digit_def)
  show "plain_https ''https://idp/keys'' ''/keys''" unfolding plain_https_def
    by (intro exI [of _ "''idp''"] exI [of _ "[]"]) (simp add: plain_name_def plain_path_def validOptionalPort_def is_alpha_def)
qed (simp_all add: example_response_def TrimSuffix_char)

lemma example_request: "NewRequest (''https://idp'' @ oidcDiscoveryPath) = None"
  using url_Parse_plain [of "''idp''" "[]" "oidcDiscoveryPath"]
  by (simp add: NewRequest_def plain_name_def plain_path_def validOptionalPort_def is_alpha_def oidcDiscoveryPath_def)

lemmas example_provider = example_checked example_request [simplified] TrimSuffix_char

lemma example_resolve:
  "\<exists>s'. resolveJWKSURL (example_env cr) example_reconciler (example_config None None tls) (s :: unit sys) =
    (Inr ''https://idp/keys'', s')"
  by (cases "discovery_client example_reconciler s") (simp add: resolveJWKSURL_def AuthEnabled_def discoverJWKSURL_def Let_def
      discovery_client_def example_env_def example_reconciler_def init_sys_def perform_def example_provider)

theorem resolve_jwks_verified_witness:
  "\<exists>s'. resolveJWKSURL (example_env (example_config None None None)) example_reconciler (example_config None None None) (init_sys ()) =
     (Inr ''https://idp/keys'', s') \<and> cache_ok s'"
proof -
  obtain s' where r: "resolveJWKSURL (example_env (example_config None None None)) example_reconciler
      (example_config None None None) (init_sys ()) = (Inr ''https://idp/keys'', s')"
    using example_resolve by blast
  have "cache_ok (init_sys ())"
    by (simp add: cache_ok_def init_sys_def)
  from resolve_jwks_verified [OF this r] r show ?thesis by blast
qed

theorem resolve_jwks_degrades_witness:
  "\<exists>s'. resolveJWKSURL (example_env (example_config None None None)) example_reconciler (example_config None None None) (init_sys ()) =
     (Inr ''https://idp/keys'', s') \<and> discoveryCache s' = [''https://idp'' \<mapsto> ''https://idp/keys'']"
proof -
  obtain s' where r: "resolveJWKSURL (example_env (example_config None None None)) example_reconciler
      (example_config None None None) (init_sys ()) = (Inr ''https://idp/keys'', s')"
    using example_resolve by blast
  from resolve_jwks_degrades [OF r] r show ?thesis
    by (auto simp: needs_discovery_def AuthEnabled_def init_sys_def)
qed

theorem resolve_jwks_traffic_witness:
  "\<exists>s'. resolveJWKSURL (example_env (example_config None None None)) example_reconciler (example_config None None None) (init_sys ()) =
     (Inr ''https://idp/keys'', s') \<and> clientsBuilt s' \<le> 1"
proof -
  obtain s' where r: "resolveJWKSURL (example_env (example_config None None None)) example_reconciler
      (example_config None None None) (init_sys ()) = (Inr ''https://idp/keys'', s')"
    using example_resolve by blast
  have "client_ok (init_sys ())" "HTTPClient example_reconciler = None"
    by (simp_all add: client_ok_def init_sys_def example_reconciler_def)
  from resolve_jwks_traffic [OF this(1) r this(2)] r show ?thesis by blast
qed

theorem discovery_completes_witness:
  "\<exists>s'. resolveJWKSURL (example_env (example_config None None None)) example_reconciler (example_config None None None) (init_sys ()) =
     (Inr ''https://idp/keys'', s') \<and> discoveryCache s' = [''https://idp'' \<mapsto> ''https://idp/keys'']"
proof -
  let ?cr = "example_config None None None" and ?ms = "[(''issuer'', JStr ''https://idp/''), (''jwks_uri'', JStr ''https://idp/keys'')]"
  have "needs_discovery ?cr" by (simp add: needs_discovery_def AuthEnabled_def)
  moreover have "plain_https ''https://idp'' []" "plain_https ''https://idp/keys'' ''/keys''" unfolding plain_https_def
    by (intro exI [of _ "''idp''"] exI [of _ "[]"]; simp add: plain_name_def plain_path_def validOptionalPort_def is_alpha_def)+
  moreover have "envHTTPDo (example_env ?cr) c url (world (init_sys ())) = (Inr example_response, ())" for c url
    by (simp add: example_env_def)
  moreover have "hrBody example_response = json_Marshal (JObj ?ms)" by (simp add: example_response_def provider_document_def)
  moreover have "length (hrBody example_response) \<le> bodyLimit"
    using document_length [of "''https://idp/''" "''https://idp/keys''"]
    by (simp add: example_response_def bodyLimit_def is_alpha_def is_digit_def)
  moreover have "provider_object ?ms ''https://idp/'' ''https://idp/keys''"
    by (rule provider_document_object) (simp_all add: valid_ascii)
  ultimately have "\<exists>s'. resolveJWKSURL (example_env ?cr) example_reconciler ?cr (init_sys ()) = (Inr ''https://idp/keys'', s') \<and>
      discoveryCache s' = (discoveryCache (init_sys ()))(''https://idp'' \<mapsto> ''https://idp/keys'')"
    by (intro discovery_completes [where resp = example_response and ms = ?ms and i = "''https://idp/''" and p = "[]" and q = "''/keys''"])
      (simp_all add: example_response_def TrimSuffix_char)
  then show ?thesis by (simp add: init_sys_def)
qed

text \<open>
  The check on the key-set URL asks for a scheme and a non-empty host only.  A host may consist of a port, without any name,
  and may be an internal address, although the comment of \<^verbatim>\<open>discoverJWKSURL\<close> promises a URL with a host that does
  not point the API at an internal endpoint; the CRD's rule for the issuer asks for a host name.
\<close>

lemma key_set_host_unchecked:
  assumes "u = ''https://:443/keys'' \<or> u = ''https://169.254.169.254/keys''"
  shows "check_document ''https://idp'' url (provider_document ''https://idp'' u) = Inr u"
proof -
  have "plain_https u ''/keys''" using assms unfolding plain_https_def
  proof
    assume "u = ''https://:443/keys''"
    then show "\<exists>h port. u = ''https://'' @ h @ port @ ''/keys'' \<and> plain_name h \<and> validOptionalPort port \<and> h @ port \<noteq> [] \<and> plain_path ''/keys''"
      by (intro exI [of _ "[]"] exI [of _ "'':443''"]) (simp add: plain_name_def plain_path_def validOptionalPort_def is_alpha_def is_digit_def)
  next
    assume "u = ''https://169.254.169.254/keys''"
    then show "\<exists>h port. u = ''https://'' @ h @ port @ ''/keys'' \<and> plain_name h \<and> validOptionalPort port \<and> h @ port \<noteq> [] \<and> plain_path ''/keys''"
      by (intro exI [of _ "''169.254.169.254''"] exI [of _ "[]"]) (simp add: plain_name_def plain_path_def validOptionalPort_def is_alpha_def is_digit_def)
  qed
  from plain_https_parses [OF this] obtain host where "host \<noteq> []" "url_Parse u = Inr \<lparr>urlScheme = ''https'', urlHost = host\<rparr>" by blast
  moreover have "json_Unmarshal (provider_document ''https://idp'' u) = Inr \<lparr>docIssuer = ''https://idp'', docJWKSURI = u\<rparr>"
    unfolding provider_document_def
    by (rule unmarshal_provider, rule provider_document_object) (use assms in \<open>auto simp: valid_ascii\<close>)
  ultimately show ?thesis using assms by (auto simp: check_document_def TrimSuffix_char)
qed

end
