(* ===== verification/Operand_Apply.thy ===== *)
theory Operand_Apply
  imports Jwks_Discovery Json_Text
begin

section \<open>Applying operands and observing rollouts\<close>

text \<open>
  \<^verbatim>\<open>internal/apply/apply.go\<close> and \<^verbatim>\<open>internal/controller/observability.go\<close>: the server-side apply of
  a list of objects, which stops at the first error; the digests of the applied configuration and
  of a pod template; the detection of rollouts before the apply and their report after it; and the
  readiness gauge.  The objects are pointers that these functions update in place, so each
  returns the updated list.
\<close>

subsection \<open>Server-side apply\<close>

text \<open>One object: owner reference, conversion, apply, refresh.  The result is the object as it is
  left behind and the error, if any.\<close>

definition apply_object :: "'w env \<Rightarrow> HyperFleetConfig \<Rightarrow> obj \<Rightarrow> 'w sys \<Rightarrow> (obj \<times> error option) \<times> 'w sys" where
  "apply_object env cr ob s =
     (let k = [obj_kind ob, Name (obj_meta ob)] in
      case envSetControllerReference env cr ob of
        Inl e \<Rightarrow> ((ob, Some (Wrapf ''set controller reference on %s %q: %w'' k e)), s)
      | Inr ob1 \<Rightarrow>
          (case envToUnstructured env ob1 of
             Some e \<Rightarrow> ((ob1, Some (Wrapf ''convert %s %q to unstructured: %w'' k e)), s)
           | None \<Rightarrow>
               (case perform (Apply ob1) (envApply env ob1) s of
                  (Some e, s) \<Rightarrow> ((ob1, Some (Wrapf ''apply %s %q: %w'' k e)), s)
                | (None, s) \<Rightarrow>
                    (case perform (Refresh ob1) (envRefresh env ob1) s of
                       (Inl e, s) \<Rightarrow> ((ob1, Some (Wrapf ''refresh %s %q after apply: %w'' k e)), s)
                     | (Inr ob2, s) \<Rightarrow> ((ob2, None), s)))))"

fun apply_Objects :: "'w env \<Rightarrow> HyperFleetConfig \<Rightarrow> obj list \<Rightarrow> 'w sys \<Rightarrow> (obj list \<times> error option) \<times> 'w sys" where
  "apply_Objects env cr [] s = (([], None), s)"
| "apply_Objects env cr (ob # obs) s =
     (case apply_object env cr ob s of
        ((ob', Some e), s) \<Rightarrow> ((ob' # obs, Some e), s)
      | ((ob', None), s) \<Rightarrow>
          (case apply_Objects env cr obs s of ((obs', r), s) \<Rightarrow> ((ob' # obs', r), s)))"

subsection \<open>Digests\<close>

definition templateHashAnnotation :: string where
  "templateHashAnnotation = ''hyperfleet.redhat.com/template-hash''"

text \<open>The spec always marshals, so the fallback text of the code is never hashed.\<close>

definition config_digest_text :: "HyperFleetConfigSpec \<Rightarrow> string list \<Rightarrow> string" where
  "config_digest_text spec componentConfigHashes =
     json_Marshal (spec_json spec) @ concat (map (\<lambda>ch. CHR 0x00 # ch) componentConfigHashes)"

definition hashConfig :: "HyperFleetConfigSpec \<Rightarrow> string list \<Rightarrow> string" where
  "hashConfig spec componentConfigHashes = take 12 (hex_sha256 (config_digest_text spec componentConfigHashes))"

definition hashPodTemplate :: "'w env \<Rightarrow> Deployment \<Rightarrow> string" where
  "hashPodTemplate env dep = (case envMarshalTemplate env (dsTemplate (depSpec dep)) of
       Inl _ \<Rightarrow> ''unmarshalable''
     | Inr b \<Rightarrow> take 12 (hex_sha256 b))"

definition stampTemplateHash :: "Deployment \<Rightarrow> string \<Rightarrow> Deployment" where
  "stampTemplateHash dep hash = dep\<lparr>depMeta := depMeta dep
     \<lparr>Annotations := (Annotations (depMeta dep))(templateHashAnnotation \<mapsto> hash)\<rparr>\<rparr>"

subsection \<open>Rollouts\<close>

type_synonym rolloutEvent = "string \<times> string"

definition sameContainerImages :: "Deployment \<Rightarrow> Deployment \<Rightarrow> bool" where
  "sameContainerImages a b =
     (map ctImage (psContainers (ptSpec (dsTemplate (depSpec a)))) =
      map ctImage (psContainers (ptSpec (dsTemplate (depSpec b)))))"

definition rolloutTrigger :: "Deployment \<Rightarrow> Deployment \<Rightarrow> string" where
  "rolloutTrigger live desired = (if \<not> sameContainerImages live desired then TriggerImage else TriggerConfig)"

definition rollout_of :: "string \<Rightarrow> Deployment \<Rightarrow> string \<Rightarrow> Deployment result \<Rightarrow> rolloutEvent list" where
  "rollout_of operand dep desired live =
     (case live of
        Inl e \<Rightarrow> if e = NotFound then [(operand, TriggerCreate)] else []
      | Inr l \<Rightarrow>
          let prev = map_index (Annotations (depMeta l)) templateHashAnnotation;
              configChanged = (prev \<noteq> [] \<and> prev \<noteq> desired);
              imageChanged = (\<not> sameContainerImages l dep)
          in if configChanged \<or> imageChanged then [(operand, rolloutTrigger l dep)] else [])"

fun detectRollouts ::
  "'w env \<Rightarrow> string \<Rightarrow> obj list \<Rightarrow> 'w sys \<Rightarrow> (rolloutEvent list \<times> obj list) \<times> 'w sys" where
  "detectRollouts env operand [] s = (([], []), s)"
| "detectRollouts env operand (ob # obs) s =
     (case ob of
        DeploymentObj d \<Rightarrow>
          (let desired = hashPodTemplate env d;
               d' = stampTemplateHash d desired
           in case get_deployment env (Namespace (depMeta d')) (Name (depMeta d')) s of
                (live, s) \<Rightarrow>
                  (case detectRollouts env operand obs s of
                     ((events, obs'), s) \<Rightarrow>
                       ((rollout_of operand d' desired live @ events, DeploymentObj d' # obs'), s)))
      | _ \<Rightarrow> (case detectRollouts env operand obs s of ((events, obs'), s) \<Rightarrow> ((events, ob # obs'), s)))"

definition commitRollouts :: "rolloutEvent list \<Rightarrow> metrics \<Rightarrow> metrics" where
  "commitRollouts events m = fold (\<lambda>(c, t). IncOperandRollout c t) events m"

definition deploymentAvailable :: "Deployment \<Rightarrow> bool" where
  "deploymentAvailable d = (case find (\<lambda>(t, _). t = ''Available'') (stConditions (depStatus d)) of
       None \<Rightarrow> False | Some (_, st) \<Rightarrow> st = ''True'')"

fun recordReadiness :: "'w env \<Rightarrow> string \<Rightarrow> obj list \<Rightarrow> 'w sys \<Rightarrow> 'w sys" where
  "recordReadiness env operand [] s = s"
| "recordReadiness env operand (ob # obs) s =
     (case ob of
        DeploymentObj d \<Rightarrow>
          (case get_deployment env (Namespace (depMeta d)) (Name (depMeta d)) s of
             (live, s) \<Rightarrow> recordReadiness env operand obs
               (case live of
                  Inl e \<Rightarrow> if e = NotFound then with_metrics (SetOperandReady operand False) s else s
                | Inr l \<Rightarrow> with_metrics (SetOperandReady operand (deploymentAvailable l)) s))
      | _ \<Rightarrow> recordReadiness env operand obs s)"

subsection \<open>What an apply does\<close>

definition with_owners :: "owner_ref list \<Rightarrow> obj \<Rightarrow> obj" where
  "with_owners os ob = (case ob of
       DeploymentObj d \<Rightarrow> DeploymentObj (d\<lparr>depMeta := (depMeta d)\<lparr>OwnerReferences := os\<rparr>\<rparr>)
     | ServiceObj s \<Rightarrow> ServiceObj (s\<lparr>svcMeta := (svcMeta s)\<lparr>OwnerReferences := os\<rparr>\<rparr>)
     | ServiceAccountObj a \<Rightarrow> ServiceAccountObj (a\<lparr>saMeta := (saMeta a)\<lparr>OwnerReferences := os\<rparr>\<rparr>)
     | ConfigMapObj c \<Rightarrow> ConfigMapObj (c\<lparr>cmMeta := (cmMeta c)\<lparr>OwnerReferences := os\<rparr>\<rparr>)
     | RoleObj r \<Rightarrow> RoleObj (r\<lparr>roMeta := (roMeta r)\<lparr>OwnerReferences := os\<rparr>\<rparr>)
     | RoleBindingObj r \<Rightarrow> RoleBindingObj (r\<lparr>rbMeta := (rbMeta r)\<lparr>OwnerReferences := os\<rparr>\<rparr>)
     | NetworkPolicyObj n \<Rightarrow> NetworkPolicyObj (n\<lparr>npMeta := (npMeta n)\<lparr>OwnerReferences := os\<rparr>\<rparr>))"

text \<open>The documented behaviour of \<^verbatim>\<open>ctrl.SetControllerReference\<close>: it changes the owner references
  of the object and nothing else.\<close>

definition owner_documented :: "'w env \<Rightarrow> bool" where
  "owner_documented env \<longleftrightarrow> (\<forall>cr ob ob'. envSetControllerReference env cr ob = Inr ob' \<longrightarrow>
     (\<exists>os. ob' = with_owners os ob))"

lemma obj_key_with_owners [simp]: "obj_key (with_owners os ob) = obj_key ob"
  by (cases ob) (simp_all add: with_owners_def obj_key_def)

definition applied :: "call list \<Rightarrow> obj list" where
  "applied cs = concat (map (\<lambda>c. case c of Apply ob \<Rightarrow> [ob] | _ \<Rightarrow> []) cs)"

lemma applied_simps [simp]:
  "applied [] = []" "applied (cs @ ds) = applied cs @ applied ds" "applied (Apply ob # cs) = ob # applied cs"
  "applied (Refresh ob # cs) = applied cs" "applied (GetDeployment a b # cs) = applied cs"
  "applied (GetSecret a b # cs) = applied cs" "applied (HTTPGet c u # cs) = applied cs"
  "applied (StatusUpdate cr # cs) = applied cs" "applied (GetCR n # cs) = applied cs"
  by (simp_all add: applied_def)

text \<open>What an operation leaves alone.\<close>

definition same_but_calls :: "'w sys \<Rightarrow> 'w sys \<Rightarrow> bool" where
  "same_but_calls s s' \<longleftrightarrow> discoveryCache s' = discoveryCache s \<and> discoveryClient s' = discoveryClient s \<and>
     clientsBuilt s' = clientsBuilt s"

lemma same_but_calls_refl [simp]: "same_but_calls s s"
  by (simp add: same_but_calls_def)

lemma same_but_calls_trans: "same_but_calls s t \<Longrightarrow> same_but_calls t u \<Longrightarrow> same_but_calls s u"
  by (simp add: same_but_calls_def)

lemma same_but_calls_metrics [simp]:
  "same_but_calls s (with_metrics f t) = same_but_calls s t" "same_but_calls (with_metrics f s) t = same_but_calls s t"
  by (simp_all add: same_but_calls_def)

lemma perform_same: "perform c f s = (a, s') \<Longrightarrow> same_but_calls s s'"
  by (simp add: same_but_calls_def)

lemma apply_object_cases:
  assumes "apply_object env cr ob s = ((ob', err), s')"
  obtains (owner) e where "err = Some e" "s' = s"
  | (convert) e where "err = Some e" "s' = s"
  | (applied) ob1 s1 e where "envSetControllerReference env cr ob = Inr ob1"
      "perform (Apply ob1) (envApply env ob1) s = (Some e, s1)" "err = Some (Wrapf ''apply %s %q: %w'' [obj_kind ob, Name (obj_meta ob)] e)" "s' = s1"
  | (refreshed) ob1 s1 res where "envSetControllerReference env cr ob = Inr ob1"
      "perform (Apply ob1) (envApply env ob1) s = (None, s1)" "perform (Refresh ob1) (envRefresh env ob1) s1 = (res, s')"
      "case res of Inl _ \<Rightarrow> err \<noteq> None | Inr ob2 \<Rightarrow> ob' = ob2 \<and> err = None"
  using assms unfolding apply_object_def Let_def
  by (cases "envSetControllerReference env cr ob"; simp split: option.splits prod.splits sum.splits; fastforce)

lemma apply_object_spec:
  assumes "owner_documented env" "apply_object env cr ob s = ((ob', err), s')"
  shows "same_but_calls s s' \<and> metrics s' = metrics s \<and>
    (\<exists>cs. calls s' = calls s @ cs \<and> (\<forall>x \<in> set (applied cs). \<exists>os. x = with_owners os ob) \<and>
      length (applied cs) \<le> 1 \<and> (err = None \<longrightarrow> length (applied cs) = 1) \<and>
      (\<forall>c \<in> set cs. case c of Apply _ \<Rightarrow> True | Refresh _ \<Rightarrow> True | _ \<Rightarrow> False))"
proof (rule apply_object_cases [OF assms(2)])
  fix ob1 s1 e
  assume a: "envSetControllerReference env cr ob = Inr ob1" "perform (Apply ob1) (envApply env ob1) s = (Some e, s1)"
    "err = Some (Wrapf ''apply %s %q: %w'' [obj_kind ob, Name (obj_meta ob)] e)" "s' = s1"
  with assms(1) obtain os where "ob1 = with_owners os ob" unfolding owner_documented_def by blast
  with a show ?thesis by (auto intro: perform_same)
next
  fix ob1 s1 res
  assume a: "envSetControllerReference env cr ob = Inr ob1" "perform (Apply ob1) (envApply env ob1) s = (None, s1)"
    "perform (Refresh ob1) (envRefresh env ob1) s1 = (res, s')"
    "case res of Inl _ \<Rightarrow> err \<noteq> None | Inr ob2 \<Rightarrow> ob' = ob2 \<and> err = None"
  with assms(1) obtain os where "ob1 = with_owners os ob" unfolding owner_documented_def by blast
  moreover have "same_but_calls s s'" using a perform_same same_but_calls_trans by metis
  ultimately show ?thesis using a(2,3)
    by (intro conjI exI [of _ "[Apply ob1, Refresh ob1]"]) auto
qed auto


lemma apply_Objects_spec:
  assumes "owner_documented env" "apply_Objects env cr obs s = ((obs', err), s')"
  shows "same_but_calls s s' \<and> metrics s' = metrics s \<and>
    (\<exists>cs. calls s' = calls s @ cs \<and>
      list_all2 (\<lambda>x ob. \<exists>os. x = with_owners os ob) (applied cs) (take (length (applied cs)) obs) \<and>
      (err = None \<longrightarrow> length (applied cs) = length obs) \<and>
      (\<forall>c \<in> set cs. case c of Apply _ \<Rightarrow> True | Refresh _ \<Rightarrow> True | _ \<Rightarrow> False))"
  using assms(2)
proof (induction obs arbitrary: s obs')
  case Nil
  then show ?case by (intro conjI exI [of _ "[]"]) auto
next
  case (Cons ob obs)
  obtain ob1 e s1 where o: "apply_object env cr ob s = ((ob1, e), s1)" by (metis surj_pair)
  from apply_object_spec [OF assms(1) o] obtain cs where
    c: "same_but_calls s s1" "metrics s1 = metrics s" "calls s1 = calls s @ cs"
      "\<forall>x \<in> set (applied cs). \<exists>os. x = with_owners os ob" "length (applied cs) \<le> 1"
      "e = None \<longrightarrow> length (applied cs) = 1"
      "\<forall>c \<in> set cs. case c of Apply _ \<Rightarrow> True | Refresh _ \<Rightarrow> True | _ \<Rightarrow> False" by blast
  show ?case
  proof (cases e)
    case (Some er)
    with Cons.prems o have r: "s' = s1" "err = Some er" by auto
    have "list_all2 (\<lambda>x ob. \<exists>os. x = with_owners os ob) (applied cs) (take (length (applied cs)) (ob # obs))"
      using c(4,5) by (cases "applied cs") auto
    with c r show ?thesis by (intro conjI exI [of _ cs]) auto
  next
    case None
    from c(4,6) None obtain x os where x: "applied cs = [x]" "x = with_owners os ob"
      by (cases "applied cs") auto
    obtain obs2 where r: "apply_Objects env cr obs s1 = ((obs2, err), s')"
      using Cons.prems o None by (auto split: prod.splits)
    from Cons.IH [OF r] obtain ds where
      d: "same_but_calls s1 s'" "metrics s' = metrics s1" "calls s' = calls s1 @ ds"
        "list_all2 (\<lambda>x ob. \<exists>os. x = with_owners os ob) (applied ds) (take (length (applied ds)) obs)"
        "err = None \<longrightarrow> length (applied ds) = length obs"
        "\<forall>c \<in> set ds. case c of Apply _ \<Rightarrow> True | Refresh _ \<Rightarrow> True | _ \<Rightarrow> False" by blast
    from same_but_calls_trans [OF c(1) d(1)] c(2,3,7) d(2-6) x show ?thesis
      by (intro conjI exI [of _ "cs @ ds"]) auto
  qed
qed

subsection \<open>What observing rollouts does\<close>

definition stamp_template :: "'w env \<Rightarrow> obj \<Rightarrow> obj" where
  "stamp_template env ob = (case ob of
       DeploymentObj d \<Rightarrow> DeploymentObj (stampTemplateHash d (hashPodTemplate env d))
     | _ \<Rightarrow> ob)"

definition deployment_reads :: "obj list \<Rightarrow> call list" where
  "deployment_reads obs = map (\<lambda>ob. GetDeployment (Namespace (obj_meta ob)) (Name (obj_meta ob))) (filter is_deployment obs)"

lemma deployment_reads_Cons [simp]:
  "deployment_reads [] = []"
  "deployment_reads (ob # obs) = (if is_deployment ob
     then GetDeployment (Namespace (obj_meta ob)) (Name (obj_meta ob)) # deployment_reads obs else deployment_reads obs)"
  by (simp_all add: deployment_reads_def)

lemma applied_reads [simp]: "applied (deployment_reads obs) = []"
  by (induction obs) simp_all

lemma obj_key_stamp_template [simp]: "obj_key (stamp_template env ob) = obj_key ob"
  by (cases ob) (simp_all add: stamp_template_def obj_key_def stampTemplateHash_def)

lemma detectRollouts_spec:
  "detectRollouts env operand obs s = ((events, obs'), s') \<Longrightarrow>
     obs' = map (stamp_template env) obs \<and> same_but_calls s s' \<and> metrics s' = metrics s \<and>
     calls s' = calls s @ deployment_reads obs \<and> (\<forall>e \<in> set events. fst e = operand)"
proof (induction obs arbitrary: s events obs' s')
  case (Cons ob obs)
  show ?case
  proof (cases "is_deployment ob")
    case True
    then obtain d where d: "ob = DeploymentObj d" by (cases ob) (auto simp: is_deployment_def)
    let ?d = "stampTemplateHash d (hashPodTemplate env d)"
    obtain live s1 where l: "get_deployment env (Namespace (depMeta ?d)) (Name (depMeta ?d)) s = (live, s1)" by fastforce
    obtain ev ob2 s2 where r: "detectRollouts env operand obs s1 = ((ev, ob2), s2)" by (metis surj_pair)
    from Cons.prems l r have e: "events = rollout_of operand ?d (hashPodTemplate env d) live @ ev" "obs' = DeploymentObj ?d # ob2" "s' = s2"
      by (auto simp: d Let_def)
    note IH = Cons.IH [OF r]
    from l have "same_but_calls s s1" unfolding get_deployment_def by (rule perform_same)
    with IH have "same_but_calls s s2" by (auto intro: same_but_calls_trans)
    moreover have "\<forall>e \<in> set (rollout_of operand ?d (hashPodTemplate env d) live). fst e = operand"
      by (auto simp: rollout_of_def Let_def split: sum.splits if_splits)
    moreover have "depMeta ?d = (depMeta d)\<lparr>Annotations := Annotations (depMeta ?d)\<rparr>" by (simp add: stampTemplateHash_def)
    ultimately show ?thesis using IH l e True
      by (auto simp: d stamp_template_def get_deployment_def stampTemplateHash_def)
  next
    case False
    then have "stamp_template env ob = ob" by (cases ob) (auto simp: is_deployment_def stamp_template_def)
    with False Cons show ?thesis by (cases ob) (auto simp: is_deployment_def split: prod.splits)
  qed
qed simp

lemma recordReadiness_spec:
  "same_but_calls s (recordReadiness env operand obs s) \<and>
   calls (recordReadiness env operand obs s) = calls s @ deployment_reads obs \<and>
   mReconcileErrors (metrics (recordReadiness env operand obs s)) = mReconcileErrors (metrics s) \<and>
   mOperandRollouts (metrics (recordReadiness env operand obs s)) = mOperandRollouts (metrics s) \<and>
   mReconcileDuration (metrics (recordReadiness env operand obs s)) = mReconcileDuration (metrics s) \<and>
   mAppliedConfig (metrics (recordReadiness env operand obs s)) = mAppliedConfig (metrics s)"
proof (induction obs arbitrary: s)
  case (Cons ob obs)
  show ?case
  proof (cases "is_deployment ob")
    case True
    then obtain d where d: "ob = DeploymentObj d" by (cases ob) (auto simp: is_deployment_def)
    obtain live s1 where l: "get_deployment env (Namespace (depMeta d)) (Name (depMeta d)) s = (live, s1)" by fastforce
    then have s1: "same_but_calls s s1" "calls s1 = calls s @ [GetDeployment (Namespace (depMeta d)) (Name (depMeta d))]"
      "metrics s1 = metrics s" by (auto simp: get_deployment_def intro: perform_same)
    define s2 where "s2 = (case live of
                  Inl e \<Rightarrow> if e = NotFound then with_metrics (SetOperandReady operand False) s1 else s1
                | Inr l \<Rightarrow> with_metrics (SetOperandReady operand (deploymentAvailable l)) s1)"
    have "same_but_calls s s2" "calls s2 = calls s1" "mReconcileErrors (metrics s2) = mReconcileErrors (metrics s)"
      "mOperandRollouts (metrics s2) = mOperandRollouts (metrics s)"
      "mReconcileDuration (metrics s2) = mReconcileDuration (metrics s)" "mAppliedConfig (metrics s2) = mAppliedConfig (metrics s)"
      using s1 by (auto simp: s2_def split: sum.splits)
    moreover have "recordReadiness env operand (ob # obs) s = recordReadiness env operand obs s2"
      using l by (simp add: d s2_def)
    ultimately show ?thesis using Cons.IH [of s2] s1(2) True by (auto simp: d intro: same_but_calls_trans)
  next
    case False
    with Cons show ?thesis by (cases ob) (auto simp: is_deployment_def)
  qed
qed simp

lemma commitRollouts_sel [simp]:
  "mReconcileErrors (commitRollouts ev m) = mReconcileErrors m"
  "mReconcileDuration (commitRollouts ev m) = mReconcileDuration m"
  "mAppliedConfig (commitRollouts ev m) = mAppliedConfig m"
  by (induction ev arbitrary: m) (auto simp: commitRollouts_def)

lemma commitRollouts_counts:
  "mOperandRollouts (commitRollouts ev m) k = mOperandRollouts m k + count_list ev k"
  by (induction ev arbitrary: m) (auto simp: commitRollouts_def IncOperandRollout_def split: prod.splits)

end
