(* ===== verification/Controller.thy ===== *)
theory Controller
  imports Operand_Apply
begin

section \<open>The bundle controller\<close>

text \<open>
  \<^verbatim>\<open>internal/controller/hyperfleetconfig_controller.go\<close>: one reconcile of the singleton resource,
  split where the Go function has its phases.  A failure is reported by the failing phase together
  with what had been learned before it, which the deferred status update publishes; the failing
  stage is counted where the code counts it.
\<close>

subsection \<open>Reading the referenced Secrets\<close>

type_synonym component_entries = "string \<rightharpoonup> hashEntry list"

fun collect_secrets ::
  "'w env \<Rightarrow> reconciler \<Rightarrow> HyperFleetConfig \<Rightarrow> bundle_Component list \<Rightarrow> component_entries \<Rightarrow> string list \<Rightarrow>
     'w sys \<Rightarrow> (error option \<times> component_entries \<times> string list) \<times> 'w sys" where
  "collect_secrets env r cr [] entries missing s = ((None, entries, missing), s)"
| "collect_secrets env r cr (c # cs) entries missing s =
     (case resolveSecretEntries (get_secret env) (OperatorNamespace r) (comp_ReferencedSecrets c cr) s of
        (Inl e, s) \<Rightarrow>
          ((Some (Wrapf ''read referenced secrets for component %q: %w'' [comp_Name c] e), entries, missing),
           with_metrics (IncReconcileError ''secrets'') s)
      | (Inr es, s) \<Rightarrow>
          collect_secrets env r cr cs (entries(comp_Name c \<mapsto> es))
            (missing @ map heId (filter (\<lambda>e. \<not> hePresent e) es)) s)"

subsection \<open>Reconciling the components\<close>

definition entries_index :: "component_entries \<Rightarrow> string \<Rightarrow> hashEntry list" where
  "entries_index m n = (case m n of None \<Rightarrow> [] | Some es \<Rightarrow> es)"

text \<open>One component: render, stamp, observe, apply, count, and report.  The result is the component's
  configuration hash and its report.  Neither component's \<^verbatim>\<open>Conditions\<close> ever returns an error, so the
  branch for one is not taken.\<close>

definition Conditions_result :: "bundle_Component \<Rightarrow> obj list \<Rightarrow> Condition list result" where
  [simp]: "Conditions_result c obs = Inr (comp_Conditions c obs)"

definition reconcile_component ::
  "'w env \<Rightarrow> HyperFleetConfig \<Rightarrow> component_entries \<Rightarrow> bundle_Component \<Rightarrow> 'w sys \<Rightarrow>
     (string \<times> ComponentConditions) result \<times> 'w sys" where
  "reconcile_component env cr entries c s =
     (case comp_Render (envYAML env) c cr of
        Inl e \<Rightarrow> (Inl (Wrapf ''render component %q: %w'' [comp_Name c] e), with_metrics (IncReconcileError ''render'') s)
      | Inr objs \<Rightarrow>
          (case stampConfigHash objs (comp_Rollout c) (entries_index entries (comp_Name c)) of (objs, hash) \<Rightarrow>
             (case detectRollouts env (comp_Name c) objs s of ((rollouts, objs), s) \<Rightarrow>
                (case apply_Objects env cr objs s of
                   ((objs, Some e), s) \<Rightarrow>
                     (Inl (Wrapf ''apply component %q: %w'' [comp_Name c] e), with_metrics (IncReconcileError ''apply'') s)
                 | ((objs, None), s) \<Rightarrow>
                     (case (Conditions_result c objs, recordReadiness env (comp_Name c) objs (with_metrics (commitRollouts rollouts) s)) of
                        (Inl e, s) \<Rightarrow> (Inl (Wrapf ''get conditions for component %q: %w'' [comp_Name c] e),
                          with_metrics (IncReconcileError ''conditions'') s)
                      | (Inr conds, s) \<Rightarrow> (Inr (hash, \<lparr>ccName = comp_Name c, ccConditions = conds\<rparr>), s))))))"

fun reconcile_components ::
  "'w env \<Rightarrow> HyperFleetConfig \<Rightarrow> component_entries \<Rightarrow> bundle_Component list \<Rightarrow> string list \<Rightarrow>
     ComponentConditions list \<Rightarrow> 'w sys \<Rightarrow> (error option \<times> string list \<times> ComponentConditions list) \<times> 'w sys" where
  "reconcile_components env cr entries [] hashes ccs s = ((None, hashes, ccs), s)"
| "reconcile_components env cr entries (c # cs) hashes ccs s =
     (case reconcile_component env cr entries c s of
        (Inl e, s) \<Rightarrow> ((Some e, hashes, ccs), s)
      | (Inr (hash, cc), s) \<Rightarrow> reconcile_components env cr entries cs (hashes @ [hash]) (ccs @ [cc]) s)"

subsection \<open>The body of a reconcile\<close>

definition bundle_config :: "reconciler \<Rightarrow> bundle_Config" where
  "bundle_config r = \<lparr>bcAPIImage = APIImage r, bcSentinelImage = SentinelImage r,
     bcNamespace = OperatorNamespace r, bcBrokerInfo = rBrokerInfo r, bcResolvedJWKSURL = []\<rparr>"

text \<open>What the deferred update publishes: the error, the reports, whether all components reported,
  and the roles of the missing Secrets.\<close>

record outcome =
  ocError :: "error option"
  ocReports :: "ComponentConditions list"
  ocCollected :: bool
  ocMissing :: "string list"

definition failed :: "error \<Rightarrow> ComponentConditions list \<Rightarrow> string list \<Rightarrow> outcome" where
  "failed e ccs missing = \<lparr>ocError = Some e, ocReports = ccs, ocCollected = False, ocMissing = missing\<rparr>"

definition reconcile_body :: "'w env \<Rightarrow> reconciler \<Rightarrow> HyperFleetConfig \<Rightarrow> 'w sys \<Rightarrow> outcome \<times> 'w sys" where
  "reconcile_body env r cr s =
     (case Resolve (Bundle (Spec cr)) (bundle_config r) of
        Inl e \<Rightarrow> (failed (Wrapf ''resolve components: %w'' [] e) [] [], with_metrics (IncReconcileError ''bundle'') s)
      | Inr components0 \<Rightarrow>
          let components1 = SetAPIBaseURL components0 (APIBaseURL cr (OperatorNamespace r)) in
          (case collect_secrets env r cr components1 Map.empty [] s of
             ((Some e, _, missing), s) \<Rightarrow> (failed e [] missing, s)
           | ((None, entries, missing), s) \<Rightarrow>
               let missing = slices_Compact (slices_Sort missing) in
               (case resolveJWKSURL env r cr s of
                  (Inl e, s) \<Rightarrow>
                    (failed (Wrapf ''resolve JWKS URL: %w'' [] e) [] missing, with_metrics (IncReconcileError ''discovery'') s)
                | (Inr jwksURL, s) \<Rightarrow>
                    (case reconcile_components env cr entries (SetResolvedJWKSURL components1 jwksURL) [] [] s of
                       ((Some e, _, ccs), s) \<Rightarrow> (failed e ccs missing, s)
                     | ((None, hashes, ccs), s) \<Rightarrow>
                         (\<lparr>ocError = None, ocReports = ccs, ocCollected = True, ocMissing = missing\<rparr>,
                          with_metrics (SetAppliedConfigHash (hashConfig (Spec cr) hashes)) s)))))"

subsection \<open>The deferred status update and the whole reconcile\<close>

definition update_status :: "'w env \<Rightarrow> HyperFleetConfig \<Rightarrow> outcome \<Rightarrow> 'w sys \<Rightarrow> error option \<times> 'w sys" where
  "update_status env cr oc s =
     (case aggregateStatus (envSetStatusCondition env (world s)) cr (ocReports oc) (ocCollected oc) (ocMissing oc) (ocError oc) of
        (cr', changed) \<Rightarrow>
          if \<not> changed then (ocError oc, s)
          else (case perform (StatusUpdate cr') (envStatusUpdate env cr') s of
                  (None, s) \<Rightarrow> (ocError oc, s)
                | (Some e, s) \<Rightarrow>
                    (Some (Joined ((case ocError oc of None \<Rightarrow> [] | Some e0 \<Rightarrow> [e0]) @ [Wrapf ''update status: %w'' [] e])), s)))"

definition Reconcile :: "'w env \<Rightarrow> reconciler \<Rightarrow> string \<Rightarrow> 'w sys \<Rightarrow> error option \<times> 'w sys" where
  "Reconcile env r req s =
     (case (case perform (GetCR req) (envGetCR env req) s of
              (Inl e, s) \<Rightarrow>
                if e = NotFound then (None, s)
                else (Some (Wrapf ''get HyperFleetConfig %q: %w'' [req] e), with_metrics (IncReconcileError ''get'') s)
            | (Inr cr, s) \<Rightarrow> (case reconcile_body env r cr s of (oc, s) \<Rightarrow> update_status env cr oc s)) of
        (err, s) \<Rightarrow> (err, with_metrics ObserveReconcile s))"

subsection \<open>Watches\<close>

datatype watch =
    For string
  | Owns string
  | Watches string

definition SetupWithManager_watches :: "watch list" where
  "SetupWithManager_watches = For ''HyperFleetConfig'' # map Owns NamespacedOperandTypes @ [Watches ''Secret'']"

definition mapSecretToConfig :: "reconciler \<Rightarrow> string \<Rightarrow> string list" where
  "mapSecretToConfig r objNamespace =
     (if objNamespace \<noteq> OperatorNamespace r then [] else [SingletonName])"

definition wrapHyperFleetConfigControllerSetupError :: "error option \<Rightarrow> error option" where
  "wrapHyperFleetConfigControllerSetupError err =
     (case err of None \<Rightarrow> None | Some e \<Rightarrow> Some (Wrapf ''complete hyperfleetconfig controller: %w'' [] e))"

subsection \<open>Kinds of calls\<close>

text \<open>A reconcile first gathers and then acts.\<close>

definition gathers :: "call \<Rightarrow> bool" where
  "gathers c = (case c of GetSecret _ _ \<Rightarrow> True | HTTPGet _ _ \<Rightarrow> True | _ \<Rightarrow> False)"

definition acts :: "call \<Rightarrow> bool" where
  "acts c = (case c of GetDeployment _ _ \<Rightarrow> True | Apply _ \<Rightarrow> True | Refresh _ \<Rightarrow> True | _ \<Rightarrow> False)"

text \<open>The phases of a reconcile after its first read, in their order.\<close>

datatype phase = Collecting | Discovering | Acting | Publishing

fun rank :: "phase \<Rightarrow> nat" where
  "rank Collecting = 0"
| "rank Discovering = 1"
| "rank Acting = 2"
| "rank Publishing = 3"

lemma rank_inject: "rank p = rank q \<longleftrightarrow> p = q"
  by (cases p; cases q) simp_all

instantiation phase :: linorder
begin

definition less_eq_phase :: "phase \<Rightarrow> phase \<Rightarrow> bool" where
  "less_eq_phase p q \<longleftrightarrow> rank p \<le> rank q"

definition less_phase :: "phase \<Rightarrow> phase \<Rightarrow> bool" where
  "less_phase p q \<longleftrightarrow> rank p < rank q"

instance
  by standard (auto simp: less_eq_phase_def less_phase_def rank_inject)

end

fun phase_of :: "call \<Rightarrow> phase" where
  "phase_of (GetCR _) = Collecting"
| "phase_of (GetSecret _ _) = Collecting"
| "phase_of (HTTPGet _ _) = Discovering"
| "phase_of (GetDeployment _ _) = Acting"
| "phase_of (Apply _) = Acting"
| "phase_of (Refresh _) = Acting"
| "phase_of (StatusUpdate _) = Publishing"

lemma acts_phase: "acts c \<longleftrightarrow> phase_of c = Acting"
  by (cases c) (simp_all add: acts_def)

lemma deployment_reads_act: "c \<in> set (deployment_reads obs) \<Longrightarrow> acts c"
  by (auto simp: deployment_reads_def acts_def)

lemma applied_gathers: "list_all gathers cs \<Longrightarrow> applied cs = []"
  by (induction cs) (auto simp: gathers_def applied_def split: call.splits)

text \<open>What is applied for a rendered object: the object with owner references and the two hash annotations.\<close>

definition decorated :: "'w env \<Rightarrow> obj \<Rightarrow> obj \<Rightarrow> bool" where
  "decorated env ob x \<longleftrightarrow> (\<exists>n h os. x = with_owners os (stamp_template env (stamp_annotation n h ob)))"

lemma decorated_key: "decorated env ob x \<Longrightarrow> obj_key x = obj_key ob"
  by (auto simp: decorated_def)

lemma list_all2_key: "list_all2 (decorated env) obs xs \<Longrightarrow> map obj_key xs = map obj_key obs"
  by (induction rule: list_all2_induct) (simp_all add: decorated_key)

text \<open>The frame of a step that may count one error.\<close>

definition counted :: "string \<Rightarrow> bool \<Rightarrow> 'w sys \<Rightarrow> 'w sys \<Rightarrow> bool" where
  "counted stage failing s s' \<longleftrightarrow> mReconcileErrors (metrics s') =
     (if failing then (mReconcileErrors (metrics s))(stage := mReconcileErrors (metrics s) stage + 1)
      else mReconcileErrors (metrics s))"

lemma counted_inc [simp]: "metrics s1 = metrics s \<Longrightarrow> counted stage True s (with_metrics (IncReconcileError stage) s1)"
  by (simp add: counted_def IncReconcileError_def)

lemma counted_same: "metrics s1 = metrics s \<Longrightarrow> counted stage False s s1"
  by (simp add: counted_def)

subsection \<open>The Secret reads\<close>

lemma get_secret_sel:
  assumes "get_secret env ns n s = (a, s')"
  shows "same_but_calls s s'" "metrics s' = metrics s" "calls s' = calls s @ [GetSecret ns n]"
  using assms by (auto simp: get_secret_def intro: perform_same)

lemma resolveSecretEntries_spec:
  "resolveSecretEntries (get_secret env) ns refs s = (res, s') \<Longrightarrow>
   same_but_calls s s' \<and> metrics s' = metrics s \<and>
   (\<exists>k. calls s' = calls s @ map (\<lambda>ref. GetSecret ns (SecretName ref)) (take k refs) \<and>
     (\<not> isl res \<longrightarrow> length refs \<le> k))"
proof (induction refs arbitrary: s res s')
  case (Cons ref refs)
  obtain a s1 where g: "get_secret env ns (SecretName ref) s = (a, s1)" by fastforce
  note sel = get_secret_sel [OF g]
  show ?case
  proof (cases "isl a \<and> projl a \<noteq> NotFound")
    case True
    with Cons.prems g have "isl res" "s' = s1" by (auto split: sum.splits)
    with sel show ?thesis by (intro conjI exI [of _ 1]) auto
  next
    case False
    obtain res1 s2 where r: "resolveSecretEntries (get_secret env) ns refs s1 = (res1, s2)" by fastforce
    with False Cons.prems g have "s' = s2" "isl res = isl res1"
      by (auto split: sum.splits if_splits)
    with Cons.IH [OF r] sel obtain k where "same_but_calls s s'" "metrics s' = metrics s"
      "calls s' = calls s @ map (\<lambda>ref. GetSecret ns (SecretName ref)) (take (Suc k) (ref # refs))"
      "\<not> isl res \<longrightarrow> length (ref # refs) \<le> Suc k"
      by (auto intro: same_but_calls_trans)
    then show ?thesis by blast
  qed
qed simp

lemma collect_secrets_spec:
  "collect_secrets env r cr cs entries missing s = ((err, entries', missing'), s') \<Longrightarrow>
   same_but_calls s s' \<and> counted ''secrets'' (err \<noteq> None) s s' \<and>
   mOperandRollouts (metrics s') = mOperandRollouts (metrics s) \<and> mAppliedConfig (metrics s') = mAppliedConfig (metrics s) \<and>
   mReconcileDuration (metrics s') = mReconcileDuration (metrics s) \<and>
   (\<exists>gs. calls s' = calls s @ gs \<and> (\<forall>g \<in> set gs. \<exists>c ref. c \<in> set cs \<and> ref \<in> set (comp_ReferencedSecrets c cr) \<and>
      g = GetSecret (OperatorNamespace r) (SecretName ref)) \<and>
     (err = None \<longrightarrow> gs = concat (map (\<lambda>c. map (\<lambda>ref. GetSecret (OperatorNamespace r) (SecretName ref)) (comp_ReferencedSecrets c cr)) cs)))"
proof (induction cs arbitrary: entries missing s)
  case (Cons c cs)
  obtain a s1 where g: "resolveSecretEntries (get_secret env) (OperatorNamespace r) (comp_ReferencedSecrets c cr) s = (a, s1)" by fastforce
  from resolveSecretEntries_spec [OF g] obtain k where k: "same_but_calls s s1" "metrics s1 = metrics s"
    "calls s1 = calls s @ map (\<lambda>ref. GetSecret (OperatorNamespace r) (SecretName ref)) (take k (comp_ReferencedSecrets c cr))"
    "\<not> isl a \<longrightarrow> length (comp_ReferencedSecrets c cr) \<le> k" by blast
  show ?case
  proof (cases a)
    case (Inl e)
    with Cons.prems g have "err \<noteq> None" "s' = with_metrics (IncReconcileError ''secrets'') s1" by auto
    with k show ?thesis by (auto dest!: in_set_takeD intro!: exI [of _ "map (\<lambda>ref. GetSecret (OperatorNamespace r) (SecretName ref)) (take k (comp_ReferencedSecrets c cr))"])
  next
    case (Inr es)
    with Cons.prems g have r: "collect_secrets env r cr cs (entries(comp_Name c \<mapsto> es))
            (missing @ map heId (filter (\<lambda>e. \<not> hePresent e) es)) s1 = ((err, entries', missing'), s')" by simp
    from Cons.IH [OF r] obtain gs where gs: "same_but_calls s1 s'" "counted ''secrets'' (err \<noteq> None) s1 s'"
      "mOperandRollouts (metrics s') = mOperandRollouts (metrics s1)" "mAppliedConfig (metrics s') = mAppliedConfig (metrics s1)"
      "mReconcileDuration (metrics s') = mReconcileDuration (metrics s1)"
      "calls s' = calls s1 @ gs" "\<forall>g \<in> set gs. \<exists>c ref. c \<in> set cs \<and> ref \<in> set (comp_ReferencedSecrets c cr) \<and>
      g = GetSecret (OperatorNamespace r) (SecretName ref)"
      "err = None \<longrightarrow> gs = concat (map (\<lambda>c. map (\<lambda>ref. GetSecret (OperatorNamespace r) (SecretName ref)) (comp_ReferencedSecrets c cr)) cs)"
      by blast
    let ?g = "map (\<lambda>ref. GetSecret (OperatorNamespace r) (SecretName ref)) (comp_ReferencedSecrets c cr)"
    have "calls s' = calls s @ (?g @ gs)" using k(3,4) gs(6) Inr by simp
    moreover have "\<forall>g \<in> set (?g @ gs). \<exists>c' ref. c' \<in> set (c # cs) \<and> ref \<in> set (comp_ReferencedSecrets c' cr) \<and>
      g = GetSecret (OperatorNamespace r) (SecretName ref)" using gs(7) by fastforce
    moreover have "err = None \<longrightarrow> ?g @ gs = concat (map (\<lambda>c. map (\<lambda>ref. GetSecret (OperatorNamespace r) (SecretName ref)) (comp_ReferencedSecrets c cr)) (c # cs))"
      using gs(8) by simp
    moreover have "same_but_calls s s'" by (rule same_but_calls_trans [OF k(1) gs(1)])
    ultimately show ?thesis using gs(2-5) k(2) unfolding counted_def by metis
  qed
qed (simp add: counted_def)


subsection \<open>One component\<close>

text \<open>The shape of an apply phase: only reads and writes of operands, the applied objects being a front
  part of the rendered ones.\<close>

definition applies :: "'w env \<Rightarrow> obj list \<Rightarrow> bool \<Rightarrow> call list \<Rightarrow> bool" where
  "applies env obs complete cs \<longleftrightarrow> list_all acts cs \<and>
     list_all2 (decorated env) (take (length (applied cs)) obs) (applied cs) \<and>
     (complete \<longrightarrow> length (applied cs) = length obs)"

lemma appliesI_decorated:
  assumes "list_all2 (\<lambda>x ob. \<exists>os. x = with_owners os ob) xs (take n (map (stamp_template env) (map (stamp_annotation a h) obs)))"
  shows "list_all2 (decorated env) (take n obs) xs"
proof -
  have "list_all2 (\<lambda>ob x. \<exists>os. x = with_owners os (stamp_template env (stamp_annotation a h ob))) (take n obs) xs"
    using assms by (auto simp: list_all2_conv_all_nth)
  then show ?thesis by (rule list_all2_mono) (auto simp: decorated_def)
qed

lemma reconcile_component_spec:
  assumes doc: "owner_documented env" and "reconcile_component env cr entries c s = (res, s')"
  shows "same_but_calls s s' \<and> mAppliedConfig (metrics s') = mAppliedConfig (metrics s) \<and>
    mReconcileDuration (metrics s') = mReconcileDuration (metrics s) \<and>
    (\<exists>stage \<in> {''render'', ''apply''}. counted stage (isl res) s s') \<and>
    (mOperandRollouts (metrics s') \<noteq> mOperandRollouts (metrics s) \<longrightarrow> \<not> isl res) \<and>
    (\<forall>k. fst k \<noteq> comp_Name c \<longrightarrow> mOperandRollouts (metrics s') k = mOperandRollouts (metrics s) k) \<and>
    (case comp_Render (envYAML env) c cr of
       Inl _ \<Rightarrow> isl res \<and> calls s' = calls s
     | Inr obs \<Rightarrow> \<exists>cs. calls s' = calls s @ cs \<and> applies env obs (\<not> isl res) cs) \<and>
    (\<forall>h cc. res = Inr (h, cc) \<longrightarrow> ccName cc = comp_Name c \<and>
       map cType (ccConditions cc) = [ConditionAvailable, ConditionProgressing])"
proof (cases "comp_Render (envYAML env) c cr")
  case (Inl e)
  with assms(2) show ?thesis by (auto simp: reconcile_component_def)
next
  case (Inr obs)
  obtain obs1 h where st: "stampConfigHash obs (comp_Rollout c) (entries_index entries (comp_Name c)) = (obs1, h)" by fastforce
  then have obs1: "obs1 = map (stamp_annotation (DeploymentName (comp_Rollout c)) h) obs"
    by (auto simp: stampConfigHash_def Let_def)
  obtain ev obs2 s1 where de: "detectRollouts env (comp_Name c) obs1 s = ((ev, obs2), s1)" by (metis surj_pair)
  note d = detectRollouts_spec [OF de]
  obtain obs3 err s2 where ap: "apply_Objects env cr obs2 s1 = ((obs3, err), s2)" by (metis surj_pair)
  from apply_Objects_spec [OF doc ap] obtain cs where a: "same_but_calls s1 s2" "metrics s2 = metrics s1"
    "calls s2 = calls s1 @ cs" "list_all2 (\<lambda>x ob. \<exists>os. x = with_owners os ob) (applied cs) (take (length (applied cs)) obs2)"
    "err = None \<longrightarrow> length (applied cs) = length obs2"
    "\<forall>c \<in> set cs. case c of Apply _ \<Rightarrow> True | Refresh _ \<Rightarrow> True | _ \<Rightarrow> False" by blast
  have obs2: "obs2 = map (stamp_template env) (map (stamp_annotation (DeploymentName (comp_Rollout c)) h) obs)"
    using d obs1 by simp
  have same: "same_but_calls s s2" using d a(1) same_but_calls_trans by blast
  have acts: "list_all acts cs" using a(6) by (auto simp: list_all_iff acts_def split: call.splits)
  have reads: "list_all acts (deployment_reads xs)" for xs
    by (simp add: list_all_iff deployment_reads_act)
  have dec: "list_all2 (decorated env) (take (length (applied cs)) obs) (applied cs)"
    using a(4) unfolding obs2 by (rule appliesI_decorated)
  show ?thesis
  proof (cases err)
    case (Some e)
    with assms(2) Inr st de ap have r: "isl res" "s' = with_metrics (IncReconcileError ''apply'') s2"
      by (auto simp: reconcile_component_def)
    have "applies env obs (\<not> isl res) (deployment_reads obs1 @ cs)"
      using r(1) acts reads dec by (simp add: applies_def)
    moreover have "calls s' = calls s @ deployment_reads obs1 @ cs" using r(2) d a(3) by simp
    moreover have "counted ''apply'' (isl res) s s'" using r d a(2) by simp
    ultimately show ?thesis using r same d a(2) Inr by auto
  next
    case None
    let ?s3 = "with_metrics (commitRollouts ev) s2"
    have r: "res = Inr (h, \<lparr>ccName = comp_Name c, ccConditions = comp_Conditions c obs3\<rparr>)"
        "s' = recordReadiness env (comp_Name c) obs3 ?s3"
      using assms(2) Inr st de ap None by (auto simp: reconcile_component_def)
    note rr = recordReadiness_spec [of ?s3 env "comp_Name c" obs3, folded r(2)]
    have "applies env obs (\<not> isl res) (deployment_reads obs1 @ cs @ deployment_reads obs3)"
      using r(1) acts reads dec a(5) None obs2 by (simp add: applies_def)
    moreover have "calls s' = calls s @ deployment_reads obs1 @ cs @ deployment_reads obs3" using rr d a(3) by simp
    moreover have "counted ''apply'' (isl res) s s'" using rr r d a(2) by (simp add: counted_def)
    moreover have "same_but_calls s s'" using same_but_calls_trans [OF same, of s'] rr by simp
    moreover have "mOperandRollouts (metrics s') k = mOperandRollouts (metrics s) k" if "fst k \<noteq> comp_Name c" for k
    proof -
      have "count_list ev k = 0" using d that by (auto simp: count_list_0_iff)
      with rr a(2) d show ?thesis by (simp add: commitRollouts_counts)
    qed
    ultimately show ?thesis using r rr d a(2) Inr any_component.condition_types [of c obs3] by auto
  qed
qed


lemma applies_append:
  assumes "applies env obs True cs" "applies env obs' b ds"
  shows "applies env (obs @ obs') b (cs @ ds)"
  using assms by (auto simp: applies_def intro!: list_all2_appendI)

lemma applies_Nil: "applies env [] b []"
  by (simp add: applies_def)

lemma reconcile_components_spec:
  assumes doc: "owner_documented env"
  shows "reconcile_components env cr entries cs hashes ccs s = ((err, hashes', ccs'), s') \<Longrightarrow>
    same_but_calls s s' \<and> mAppliedConfig (metrics s') = mAppliedConfig (metrics s) \<and>
    mReconcileDuration (metrics s') = mReconcileDuration (metrics s) \<and>
    (\<exists>stage \<in> {''render'', ''apply''}. counted stage (err \<noteq> None) s s') \<and>
    (\<exists>as new obss. calls s' = calls s @ as \<and> ccs' = ccs @ new \<and>
       map ccName new = map comp_Name (take (length new) cs) \<and> (err = None \<longrightarrow> length new = length cs) \<and>
       list_all (\<lambda>cc. map cType (ccConditions cc) = [ConditionAvailable, ConditionProgressing]) new \<and>
       (\<forall>k. fst k \<notin> ccName ` set new \<longrightarrow> mOperandRollouts (metrics s') k = mOperandRollouts (metrics s) k) \<and>
       map (\<lambda>c. comp_Render (envYAML env) c cr) (take (length obss) cs) = map Inr obss \<and>
       (err = None \<longrightarrow> length obss = length cs) \<and> applies env (concat obss) (err = None) as)"
proof (induction cs arbitrary: hashes ccs s)
  case Nil
  then show ?case
    by (intro conjI exI [of _ "[]"]) (auto simp: counted_def applies_Nil)
next
  case (Cons c cs)
  obtain res s1 where c: "reconcile_component env cr entries c s = (res, s1)" by fastforce
  note C = reconcile_component_spec [OF doc c]
  show ?case
  proof (cases res)
    case (Inl e)
    with Cons.prems c have r: "err = Some e" "ccs' = ccs" "s' = s1" by auto
    from C Inl obtain as obss where "calls s1 = calls s @ as"
      "map (\<lambda>c. comp_Render (envYAML env) c cr) (take (length obss) (c # cs)) = map Inr obss" "applies env (concat obss) False as"
    proof (cases "comp_Render (envYAML env) c cr")
      case (Inl e)
      with C that [of "[]" "[]"] show thesis by (simp add: applies_Nil)
    next
      case (Inr obs)
      with C obtain as where "calls s1 = calls s @ as" "applies env obs False as" using \<open>res = Inl e\<close> by auto
      with Inr that [of as "[obs]"] show thesis by simp
    qed
    moreover have "mOperandRollouts (metrics s') = mOperandRollouts (metrics s)" using C Inl r by auto
    ultimately show ?thesis using C r Inl by (intro conjI exI [of _ as] exI [of _ "[]"] exI [of _ obss]) auto
  next
    case (Inr hc)
    obtain h cc where hc: "hc = (h, cc)" by fastforce
    from Cons.prems c Inr hc have r: "reconcile_components env cr entries cs (hashes @ [h]) (ccs @ [cc]) s1 = ((err, hashes', ccs'), s')" by simp
    from C Inr obtain obs as where o: "comp_Render (envYAML env) c cr = Inr obs" "calls s1 = calls s @ as" "applies env obs True as"
      by (auto split: sum.splits)
    from Cons.IH [OF r] obtain bs new obss where IH: "same_but_calls s1 s'" "mAppliedConfig (metrics s') = mAppliedConfig (metrics s1)"
      "mReconcileDuration (metrics s') = mReconcileDuration (metrics s1)"
      "\<exists>stage \<in> {''render'', ''apply''}. counted stage (err \<noteq> None) s1 s'"
      "calls s' = calls s1 @ bs" "ccs' = (ccs @ [cc]) @ new" "map ccName new = map comp_Name (take (length new) cs)"
      "err = None \<longrightarrow> length new = length cs"
      "list_all (\<lambda>cc. map cType (ccConditions cc) = [ConditionAvailable, ConditionProgressing]) new"
      "\<forall>k. fst k \<notin> ccName ` set new \<longrightarrow> mOperandRollouts (metrics s') k = mOperandRollouts (metrics s1) k"
      "map (\<lambda>c. comp_Render (envYAML env) c cr) (take (length obss) cs) = map Inr obss"
      "err = None \<longrightarrow> length obss = length cs" "applies env (concat obss) (err = None) bs" by blast
    have errs: "mReconcileErrors (metrics s1) = mReconcileErrors (metrics s)" using C Inr by (auto simp: counted_def)
    have cc: "ccName cc = comp_Name c" "map cType (ccConditions cc) = [ConditionAvailable, ConditionProgressing]"
      using C Inr hc by auto
    have "same_but_calls s s'" using C IH(1) same_but_calls_trans by blast
    moreover have "\<exists>stage \<in> {''render'', ''apply''}. counted stage (err \<noteq> None) s s'"
      using IH(4) errs by (auto simp: counted_def)
    moreover have "applies env (concat (obs # obss)) (err = None) (as @ bs)"
      using applies_append [OF o(3) IH(13)] by simp
    moreover have "\<forall>k. fst k \<notin> ccName ` set (cc # new) \<longrightarrow> mOperandRollouts (metrics s') k = mOperandRollouts (metrics s) k"
      using IH(10) C cc(1) by simp
    moreover have "mAppliedConfig (metrics s') = mAppliedConfig (metrics s)"
      "mReconcileDuration (metrics s') = mReconcileDuration (metrics s)" using C IH(2,3) by simp_all
    ultimately show ?thesis
      using IH(5-9,11,12) o(1,2) cc
      by (intro conjI exI [of _ "as @ bs"] exI [of _ "cc # new"] exI [of _ "obs # obss"]) simp_all
  qed
qed


subsection \<open>The body\<close>

lemma reconcile_body_cases:
  assumes "reconcile_body env r cr s = (oc, s')"
  obtains (resolve) e where "Resolve (Bundle (Spec cr)) (bundle_config r) = Inl e"
      "oc = failed (Wrapf ''resolve components: %w'' [] e) [] []" "s' = with_metrics (IncReconcileError ''bundle'') s"
  | (secrets) cs0 e entries missing where "Resolve (Bundle (Spec cr)) (bundle_config r) = Inr cs0"
      "collect_secrets env r cr (SetAPIBaseURL cs0 (APIBaseURL cr (OperatorNamespace r))) Map.empty [] s = ((Some e, entries, missing), s')"
      "oc = failed e [] missing"
  | (discovery) cs0 e entries missing s1 s2 where "Resolve (Bundle (Spec cr)) (bundle_config r) = Inr cs0"
      "collect_secrets env r cr (SetAPIBaseURL cs0 (APIBaseURL cr (OperatorNamespace r))) Map.empty [] s = ((None, entries, missing), s1)"
      "resolveJWKSURL env r cr s1 = (Inl e, s2)" "s' = with_metrics (IncReconcileError ''discovery'') s2"
      "oc = failed (Wrapf ''resolve JWKS URL: %w'' [] e) [] (slices_Compact (slices_Sort missing))"
  | (comps) cs0 entries missing s1 s2 url err hashes ccs s3 where "Resolve (Bundle (Spec cr)) (bundle_config r) = Inr cs0"
      "collect_secrets env r cr (SetAPIBaseURL cs0 (APIBaseURL cr (OperatorNamespace r))) Map.empty [] s = ((None, entries, missing), s1)"
      "resolveJWKSURL env r cr s1 = (Inr url, s2)"
      "reconcile_components env cr entries
         (SetResolvedJWKSURL (SetAPIBaseURL cs0 (APIBaseURL cr (OperatorNamespace r))) url) [] [] s2 = ((err, hashes, ccs), s3)"
      "oc = \<lparr>ocError = err, ocReports = ccs, ocCollected = (err = None), ocMissing = slices_Compact (slices_Sort missing)\<rparr>"
      "s' = (if err = None then with_metrics (SetAppliedConfigHash (hashConfig (Spec cr) hashes)) s3 else s3)"
proof (cases "Resolve (Bundle (Spec cr)) (bundle_config r)")
  case (Inl e)
  with assms show thesis by (intro resolve) (auto simp: reconcile_body_def)
next
  case R: (Inr cs0)
  let ?cs = "SetAPIBaseURL cs0 (APIBaseURL cr (OperatorNamespace r))"
  obtain e entries missing s1 where c: "collect_secrets env r cr ?cs Map.empty [] s = ((e, entries, missing), s1)"
    by (metis surj_pair)
  obtain ju s2 where j: "resolveJWKSURL env r cr s1 = (ju, s2)" by fastforce
  show thesis
  proof (cases e)
    case (Some er)
    with assms R c show thesis by (intro secrets [OF R]) (auto simp: reconcile_body_def Let_def)
  next
    case e: None
    show thesis
    proof (cases ju)
      case (Inl er)
      with assms R c e j show thesis by (intro discovery [OF R]) (auto simp: reconcile_body_def Let_def)
    next
      case (Inr url)
      obtain err hashes ccs s3 where
        rc: "reconcile_components env cr entries (SetResolvedJWKSURL ?cs url) [] [] s2 = ((err, hashes, ccs), s3)"
        by (metis surj_pair)
      have "oc = \<lparr>ocError = err, ocReports = ccs, ocCollected = (err = None), ocMissing = slices_Compact (slices_Sort missing)\<rparr> \<and>
         s' = (if err = None then with_metrics (SetAppliedConfigHash (hashConfig (Spec cr) hashes)) s3 else s3)"
        using assms R c e j Inr rc by (cases err) (auto simp: reconcile_body_def Let_def failed_def)
      with R c e j Inr rc show thesis by (intro comps [of cs0 entries missing s1 url s2 err hashes ccs s3]) simp_all
    qed
  qed
qed

definition error_stages :: "string list" where
  "error_stages = [''get'', ''bundle'', ''secrets'', ''discovery'', ''render'', ''apply'']"

text \<open>The requests that a reconcile may send.\<close>

definition discovery_calls :: "reconciler \<Rightarrow> call list \<Rightarrow> bool" where
  "discovery_calls r gs \<longleftrightarrow> list_all (\<lambda>g. case g of HTTPGet c u \<Rightarrow>
       c = (case HTTPClient r of Some c \<Rightarrow> c | None \<Rightarrow> newDiscoveryHTTPClient) | _ \<Rightarrow> False) gs \<and> length gs \<le> 1"

lemma discovery_calls_gather: "discovery_calls r gs \<Longrightarrow> list_all gathers gs"
  by (auto simp: discovery_calls_def list_all_iff gathers_def split: call.splits)

lemma resolveJWKSURL_frame:
  assumes "resolveJWKSURL env r cr s = (res, s')" "client_ok s"
  shows "metrics s' = metrics s" "client_ok s'"
    and "\<exists>gs. calls s' = calls s @ gs \<and> discovery_calls r gs \<and> (\<not> needs_discovery cr \<longrightarrow> gs = [])"
proof -
  have "metrics s' = metrics s \<and> client_ok s' \<and>
    (\<exists>gs. calls s' = calls s @ gs \<and> discovery_calls r gs \<and> (\<not> needs_discovery cr \<longrightarrow> gs = []))"
  proof (cases "needs_discovery cr")
    case False
    with assms have "s' = s" by (auto simp: resolveJWKSURL_def needs_discovery_def split: if_splits)
    with assms show ?thesis by (simp add: discovery_calls_def)
  next
    case True
    let ?i = "Issuer (Auth (API (Spec cr)))"
    obtain dres s1 where d: "discoverJWKSURL env r ?i s = (dres, s1)" by fastforce
    note spec = discoverJWKSURL_spec [OF d]
    have "calls s' = calls s1 \<and> metrics s' = metrics s1 \<and> client_ok s' = client_ok s1"
      using True assms d
      by (auto simp: resolveJWKSURL_def needs_discovery_def Let_def cacheDiscovery_def client_ok_def split: sum.splits option.splits)
    with spec(2) spec(4) [OF assms(2)] True show ?thesis by (auto simp: discovery_calls_def)
  qed
  then show "metrics s' = metrics s" "client_ok s'"
    "\<exists>gs. calls s' = calls s @ gs \<and> discovery_calls r gs \<and> (\<not> needs_discovery cr \<longrightarrow> gs = [])" by blast+
qed

text \<open>The metrics do not depend on the client.\<close>

lemma resolveJWKSURL_metrics: "resolveJWKSURL env r cr s = (res, s') \<Longrightarrow> metrics s' = metrics s"
  by (cases "discoverJWKSURL env r (Issuer (Auth (API (Spec cr)))) s")
     (auto simp: resolveJWKSURL_def Let_def cacheDiscovery_def dest: discoverJWKSURL_spec(2) split: if_splits sum.splits option.splits)

lemma reconcile_body_counted:
  assumes doc: "owner_documented env" and "reconcile_body env r cr s = (oc, s')"
  shows "\<exists>stage \<in> set (tl error_stages). counted stage (ocError oc \<noteq> None) s s'"
    and "mReconcileDuration (metrics s') = mReconcileDuration (metrics s)"
    and "ocCollected oc \<longleftrightarrow> ocError oc = None"
    and "ocError oc \<noteq> None \<Longrightarrow> mAppliedConfig (metrics s') = mAppliedConfig (metrics s)"
    and "fst k \<notin> ccName ` set (ocReports oc) \<Longrightarrow> mOperandRollouts (metrics s') k = mOperandRollouts (metrics s) k"
proof -
  have "(\<exists>stage \<in> set (tl error_stages). counted stage (ocError oc \<noteq> None) s s') \<and>
    mReconcileDuration (metrics s') = mReconcileDuration (metrics s) \<and> (ocCollected oc \<longleftrightarrow> ocError oc = None) \<and>
    (ocError oc \<noteq> None \<longrightarrow> mAppliedConfig (metrics s') = mAppliedConfig (metrics s)) \<and>
    (fst k \<notin> ccName ` set (ocReports oc) \<longrightarrow> mOperandRollouts (metrics s') k = mOperandRollouts (metrics s) k)"
  using assms(2)
  proof (cases rule: reconcile_body_cases)
    case (resolve e)
    then show ?thesis by (auto simp: failed_def error_stages_def)
  next
    case (secrets cs0 e entries missing)
    with collect_secrets_spec [OF secrets(2)] show ?thesis by (auto simp: failed_def error_stages_def)
  next
    case (discovery cs0 e entries missing s1 s2)
    have "mReconcileErrors (metrics s1) = mReconcileErrors (metrics s)"
      using collect_secrets_spec [OF discovery(2)] by (simp add: counted_def)
    then have "counted ''discovery'' True s s'"
      using resolveJWKSURL_metrics [OF discovery(3)] discovery(4) by (simp add: counted_def IncReconcileError_def)
    with discovery collect_secrets_spec [OF discovery(2)] resolveJWKSURL_metrics [OF discovery(3)]
    show ?thesis by (auto simp: failed_def error_stages_def)
  next
    case (comps cs0 entries missing s1 s2 url err hashes ccs s3)
    note c = collect_secrets_spec [OF comps(2)] and j = resolveJWKSURL_metrics [OF comps(3)]
      and rc = reconcile_components_spec [OF doc comps(4)]
    have e: "mReconcileErrors (metrics s2) = mReconcileErrors (metrics s)" using c j by (simp add: counted_def)
    have m: "mReconcileDuration (metrics s3) = mReconcileDuration (metrics s)" "mAppliedConfig (metrics s3) = mAppliedConfig (metrics s)"
      using c j rc by simp_all
    have ro: "mOperandRollouts (metrics s2) = mOperandRollouts (metrics s)" using c j by simp
    from rc obtain new where "ccs = [] @ new" "\<forall>k. fst k \<notin> ccName ` set new \<longrightarrow> mOperandRollouts (metrics s3) k = mOperandRollouts (metrics s2) k"
      by blast
    then have "fst k \<notin> ccName ` set ccs \<longrightarrow> mOperandRollouts (metrics s3) k = mOperandRollouts (metrics s) k"
      using ro by (cases k) simp
    moreover from rc obtain stage where "stage \<in> {''render'', ''apply''}" "counted stage (err \<noteq> None) s2 s3" by blast
    with e comps(6) have "stage \<in> set (tl error_stages) \<and> counted stage (err \<noteq> None) s s'"
      by (auto simp: counted_def error_stages_def)
    ultimately show ?thesis using comps(5,6) m by auto
  qed
  then show "\<exists>stage \<in> set (tl error_stages). counted stage (ocError oc \<noteq> None) s s'"
    and "mReconcileDuration (metrics s') = mReconcileDuration (metrics s)"
    and "ocCollected oc \<longleftrightarrow> ocError oc = None"
    and "ocError oc \<noteq> None \<Longrightarrow> mAppliedConfig (metrics s') = mAppliedConfig (metrics s)"
    and "fst k \<notin> ccName ` set (ocReports oc) \<Longrightarrow> mOperandRollouts (metrics s') k = mOperandRollouts (metrics s) k"
    by blast+
qed


subsection \<open>The components of a reconcile\<close>

definition resolved_components :: "reconciler \<Rightarrow> HyperFleetConfig \<Rightarrow> string \<Rightarrow> bundle_Component list \<Rightarrow> bool" where
  "resolved_components r cr url cs \<longleftrightarrow> (\<exists>cs0. Resolve (Bundle (Spec cr)) (bundle_config r) = Inr cs0 \<and>
     cs = SetResolvedJWKSURL (SetAPIBaseURL cs0 (APIBaseURL cr (OperatorNamespace r))) url)"

lemma resolved_shape:
  assumes "resolved_components r cr url cs"
  obtains a ss where "cs = APIComponent a # map SentinelComponent ss" "acNamespace a = OperatorNamespace r"
    "list_all (\<lambda>s. seNamespace s = OperatorNamespace r) ss" "map seResourceType ss = map edPlural CloudCAPIEntities"
proof -
  from assms obtain cs0 where c: "Resolve (Bundle (Spec cr)) (bundle_config r) = Inr cs0"
    "cs = SetResolvedJWKSURL (SetAPIBaseURL cs0 (APIBaseURL cr (OperatorNamespace r))) url"
    by (auto simp: resolved_components_def)
  show thesis
  proof (rule prepared [OF c(1), of "APIBaseURL cr (OperatorNamespace r)" url])
    fix br a ss
    assume "SetResolvedJWKSURL (SetAPIBaseURL cs0 (APIBaseURL cr (OperatorNamespace r))) url = APIComponent a # map SentinelComponent ss"
      "a = \<lparr>acImage = bcAPIImage (bundle_config r), acNamespace = bcNamespace (bundle_config r), acEntities = CloudCAPIEntities, acResolvedJWKSURL = url\<rparr>"
      "ss = map (\<lambda>e. \<lparr>seImage = bcSentinelImage (bundle_config r), seNamespace = bcNamespace (bundle_config r), seResourceType = edPlural e,
        seAPIBaseURL = APIBaseURL cr (OperatorNamespace r), seBrokerInfo = br, seParentKind = edParentKind e\<rparr>) CloudCAPIEntities"
    then show thesis
      by (intro that [of a ss]) (simp_all add: c(2) bundle_config_def list_all_iff comp_def)
  qed
qed

lemma resolved_names:
  assumes "resolved_components r cr url cs"
  shows "distinct (map comp_Name cs)" "list_all (\<lambda>c. comp_Namespace c = OperatorNamespace r) cs"
proof -
  show "distinct (map comp_Name cs)"
  proof (rule resolved_shape [OF assms])
    fix a ss
    assume cs: "cs = APIComponent a # map SentinelComponent ss" and ss: "map seResourceType ss = map edPlural CloudCAPIEntities"
    have "map comp_Name (map SentinelComponent ss) = map (\<lambda>x. ''sentinel-'' @ x) (map seResourceType ss)"
      by (simp add: sentinel_Name_def sentinel_ComponentName_def comp_def)
    then show ?thesis unfolding cs ss by (simp add: api_Name_def api_ComponentName_def CloudCAPIEntities_sel)
  qed
  show "list_all (\<lambda>c. comp_Namespace c = OperatorNamespace r) cs"
    by (rule resolved_shape [OF assms]) (simp add: list_all_iff)
qed

lemma distinct_concat_take:
  assumes "distinct (concat xs)" shows "distinct (concat (take n xs))"
  using assms by (metis append_take_drop_id concat_append distinct_append)

text \<open>The keys of the whole bundle depend on the namespace only.\<close>

definition bundle_object_keys :: "string \<Rightarrow> (string \<times> string \<times> string) list list" where
  "bundle_object_keys ns = api_object_keys ns # map (sentinel_object_keys ns) (map edPlural CloudCAPIEntities)"

lemma resolved_key_list:
  assumes "resolved_components r cr url cs" "map (\<lambda>c. comp_Render yaml c cr) (take (length obss) cs) = map Inr obss"
  shows "map obj_key (concat obss) = concat (take (length obss) (bundle_object_keys (OperatorNamespace r)))"
proof (rule resolved_shape [OF assms(1)])
  fix a ss
  assume c: "cs = APIComponent a # map SentinelComponent ss" "acNamespace a = OperatorNamespace r"
    "list_all (\<lambda>s. seNamespace s = OperatorNamespace r) ss" "map seResourceType ss = map edPlural CloudCAPIEntities"
  show ?thesis
  proof (cases obss)
    case (Cons obs obss')
    with assms(2) c(1) have a: "api_Render yaml a cr = Inr obs"
      and s: "map (\<lambda>c. comp_Render yaml c cr) (map SentinelComponent (take (length obss') ss)) = map Inr obss'"
      by (simp_all add: take_map)
    have "concat (map (map obj_key) obss') =
        concat (map (sentinel_object_keys (OperatorNamespace r)) (map seResourceType (take (length obss') ss)))"
      by (rule sentinels_keys [OF s]) (use c(3) in \<open>auto simp: list_all_iff dest: in_set_takeD\<close>)
    also have "map seResourceType (take (length obss') ss) = take (length obss') (map edPlural CloudCAPIEntities)"
      by (simp add: c(4) flip: take_map)
    finally show ?thesis
      using api_keys [OF a] Cons by (simp add: bundle_object_keys_def c(2) api_object_keys_def map_concat take_map)
  qed simp
qed

lemma resolved_keys:
  assumes "resolved_components r cr url cs" "map (\<lambda>c. comp_Render yaml c cr) (take (length obss) cs) = map Inr obss"
  shows "distinct (map obj_key (concat obss))"
    and "ob \<in> set (concat obss) \<Longrightarrow> Namespace (obj_meta ob) = OperatorNamespace r"
proof -
  show "distinct (map obj_key (concat obss))" unfolding resolved_key_list [OF assms]
    by (rule distinct_concat_take) (use bundle_keys_distinct [of "OperatorNamespace r"] in \<open>simp add: bundle_object_keys_def\<close>)
  assume "ob \<in> set (concat obss)"
  then obtain obs where "obs \<in> set obss" "ob \<in> set obs" by auto
  then obtain i where i: "i < length obss" "ob \<in> set (obss ! i)" by (metis in_set_conv_nth)
  from assms(2) have "length obss \<le> length cs" by (metis length_map length_take min.cobounded1)
  with i(1) have ic: "i < length cs" by simp
  from arg_cong [OF assms(2), of "\<lambda>l. l ! i"] i(1) ic have r: "comp_Render yaml (cs ! i) cr = Inr (obss ! i)" by simp
  have "comp_Namespace (cs ! i) = OperatorNamespace r"
    using resolved_names(2) [OF assms(1)] ic by (simp add: list_all_length)
  with any_component.in_namespace [OF r i(2)] show "Namespace (obj_meta ob) = OperatorNamespace r" by simp
qed

subsection \<open>The calls of a reconcile\<close>

definition secret_calls :: "reconciler \<Rightarrow> call list \<Rightarrow> bool" where
  "secret_calls r gs \<longleftrightarrow> list_all (\<lambda>g. case g of GetSecret ns _ \<Rightarrow> ns = OperatorNamespace r | _ \<Rightarrow> False) gs"

lemma secret_calls_gather: "secret_calls r gs \<Longrightarrow> list_all gathers gs"
  by (auto simp: secret_calls_def list_all_iff gathers_def split: call.splits)

lemma secret_callsI:
  "\<forall>g \<in> set gs. \<exists>c ref. c \<in> set cs \<and> ref \<in> R c \<and> g = GetSecret (OperatorNamespace r) (SecretName ref) \<Longrightarrow> secret_calls r gs"
  by (auto simp: secret_calls_def list_all_iff)

lemma collect_secrets_calls:
  assumes "collect_secrets env r cr cs entries missing s = (x, s')"
  shows "\<exists>gs. calls s' = calls s @ gs \<and> secret_calls r gs"
proof -
  obtain err entries' missing' where x: "x = (err, entries', missing')" by (metis surj_pair)
  from collect_secrets_spec [OF assms [unfolded x]] obtain gs where gs: "calls s' = calls s @ gs"
    "\<forall>g \<in> set gs. \<exists>c ref. c \<in> set cs \<and> ref \<in> set (comp_ReferencedSecrets c cr) \<and>
       g = GetSecret (OperatorNamespace r) (SecretName ref)" by blast
  have "secret_calls r gs" by (rule secret_callsI) (rule gs(2))
  with gs(1) show ?thesis by blast
qed

lemma client_ok_metrics [simp]: "client_ok (with_metrics f s) = client_ok s"
  by (simp add: client_ok_def)

lemma same_client_ok: "same_but_calls s s' \<Longrightarrow> client_ok s \<Longrightarrow> client_ok s'"
  by (simp add: same_but_calls_def client_ok_def)

lemma reconcile_body_trace:
  assumes doc: "owner_documented env" and "reconcile_body env r cr s = (oc, s')" and ok: "client_ok s"
  obtains gs hs as obss url cs where "calls s' = calls s @ gs @ hs @ as" "secret_calls r gs" "discovery_calls r hs"
    "client_ok s'" "hs \<noteq> [] \<Longrightarrow> needs_discovery cr"
    "applies env (concat obss) (ocError oc = None) as"
    "obss \<noteq> [] \<or> ocReports oc \<noteq> [] \<or> ocError oc = None \<Longrightarrow> resolved_components r cr url cs"
    "map (\<lambda>c. comp_Render (envYAML env) c cr) (take (length obss) cs) = map Inr obss"
    "map ccName (ocReports oc) = map comp_Name (take (length (ocReports oc)) cs)"
    "ocError oc = None \<Longrightarrow> length obss = length cs \<and> length (ocReports oc) = length cs"
    "list_all (\<lambda>cc. map cType (ccConditions cc) = [ConditionAvailable, ConditionProgressing]) (ocReports oc)"
    "ocError oc = None \<Longrightarrow> cache_ok s \<Longrightarrow> (url = [] \<longleftrightarrow> \<not> needs_discovery cr) \<and>
      (url \<noteq> [] \<longrightarrow> verified_jwks (Issuer (Auth (API (Spec cr)))) url)"
  using assms(2)
proof (cases rule: reconcile_body_cases)
  case (resolve e)
  then have oc: "ocError oc \<noteq> None" "ocReports oc = []" and s': "calls s' = calls s" "client_ok s' = client_ok s"
    by (simp_all add: failed_def)
  show thesis
    by (rule that [of "[]" "[]" "[]" "[]" "[]" "[]"])
       (use oc s' ok in \<open>simp_all add: applies_Nil secret_calls_def discovery_calls_def\<close>)
next
  case (secrets cs0 e entries missing)
  note c = collect_secrets_spec [OF secrets(2)]
  obtain gs where gs: "calls s' = calls s @ gs" "secret_calls r gs" using collect_secrets_calls [OF secrets(2)] by blast
  have "client_ok s'" using c ok same_client_ok by blast
  moreover have "ocError oc \<noteq> None" "ocReports oc = []" by (simp_all add: secrets(3) failed_def)
  ultimately show thesis
    by (intro that [of gs "[]" "[]" "[]" "[]" "[]"]) (simp_all add: gs applies_Nil discovery_calls_def)
next
  case (discovery cs0 e entries missing s1 s2)
  note c = collect_secrets_spec [OF discovery(2)]
  obtain gs where gs: "calls s1 = calls s @ gs" "secret_calls r gs" using collect_secrets_calls [OF discovery(2)] by blast
  have "client_ok s1" using c ok same_client_ok by blast
  note j = resolveJWKSURL_frame [OF discovery(3) this]
  then obtain hs where hs: "calls s2 = calls s1 @ hs" "discovery_calls r hs" "\<not> needs_discovery cr \<longrightarrow> hs = []" by blast
  have "client_ok s'" "calls s' = calls s2" using j(2) discovery(4) by simp_all
  moreover have "ocError oc \<noteq> None" "ocReports oc = []" by (simp_all add: discovery(5) failed_def)
  ultimately show thesis using hs(3)
    by (intro that [of gs hs "[]" "[]" "[]" "[]"]) (auto simp: gs hs(1,2) applies_Nil)
next
  case (comps cs0 entries missing s1 s2 url err hashes ccs s3)
  let ?cs = "SetResolvedJWKSURL (SetAPIBaseURL cs0 (APIBaseURL cr (OperatorNamespace r))) url"
  note c = collect_secrets_spec [OF comps(2)]
  obtain gs where gs: "calls s1 = calls s @ gs" "secret_calls r gs" using collect_secrets_calls [OF comps(2)] by blast
  have "client_ok s1" using c ok same_client_ok by blast
  note j = resolveJWKSURL_frame [OF comps(3) this]
  then obtain hs where hs: "calls s2 = calls s1 @ hs" "discovery_calls r hs" "\<not> needs_discovery cr \<longrightarrow> hs = []" by blast
  note rk = reconcile_components_spec [OF doc comps(4)]
  from rk obtain as new obss where k:
    "calls s3 = calls s2 @ as" "ccs = [] @ new" "map ccName new = map comp_Name (take (length new) ?cs)"
    "err = None \<longrightarrow> length new = length ?cs"
    "list_all (\<lambda>cc. map cType (ccConditions cc) = [ConditionAvailable, ConditionProgressing]) new"
    "map (\<lambda>c. comp_Render (envYAML env) c cr) (take (length obss) ?cs) = map Inr obss"
    "err = None \<longrightarrow> length obss = length ?cs" "applies env (concat obss) (err = None) as" by blast
  have rc: "resolved_components r cr url ?cs" using comps(1) by (auto simp: resolved_components_def)
  have "client_ok s3" using rk j(2) same_client_ok by blast
  then have "client_ok s'" using comps(6) by simp
  moreover have "calls s' = calls s3" using comps(6) by simp
  moreover have "cache_ok s \<Longrightarrow> (url = [] \<longleftrightarrow> \<not> needs_discovery cr) \<and>
      (url \<noteq> [] \<longrightarrow> verified_jwks (Issuer (Auth (API (Spec cr)))) url)"
  proof -
    assume "cache_ok s"
    then have "cache_ok s1" using c by (simp add: cache_ok_def same_but_calls_def)
    from resolveJWKSURL_verified [OF this comps(3)] show ?thesis by blast
  qed
  moreover have "ocError oc = err" "ocReports oc = new" using comps(5) k(2) by simp_all
  ultimately show thesis using gs hs k rc
    by (intro that [of gs hs as obss url ?cs]) simp_all
qed

lemma update_status_calls:
  assumes "update_status env cr oc s = (err, s')"
  shows "\<exists>us. calls s' = calls s @ us \<and> metrics s' = metrics s \<and> same_but_calls s s' \<and>
    (us = [] \<and> err = ocError oc \<and> \<not> snd (aggregateStatus (envSetStatusCondition env (world s)) cr (ocReports oc) (ocCollected oc) (ocMissing oc) (ocError oc)) \<or>
     (\<exists>cr'. us = [StatusUpdate cr'] \<and>
       aggregateStatus (envSetStatusCondition env (world s)) cr (ocReports oc) (ocCollected oc) (ocMissing oc) (ocError oc) = (cr', True) \<and>
       (err = None \<longrightarrow> ocError oc = None)))"
  using assms perform_same
  by (fastforce simp: update_status_def split: prod.splits option.splits if_splits)

end
