(* ===== verification/Startup.thy ===== *)
theory Startup
  imports Service_Monitor Controller
begin

section \<open>Process start\<close>

text \<open>
  \<^verbatim>\<open>cmd/main.go\<close> and \<^verbatim>\<open>internal/version/version.go\<close>: from flags and environment variables to a running
  manager.  Everything that \<^verbatim>\<open>main\<close> asks of controller-runtime is a step that may fail, \<open>run\<close> being the
  parameter that says which; the first failure ends the process with exit code 1.
\<close>

subsection \<open>Flags\<close>

record flags =
  flMetricsAddr :: string
  flProbeAddr :: string
  flEnableLeaderElection :: bool
  flSecureMetrics :: bool
  flServiceMonitorEnabled :: bool
  flCASecretName :: string
  flCASecretKey :: string
  flServerName :: string
  flAuthorizationSecretName :: string
  flAuthorizationSecretKey :: string
  flWebhookCertPath :: string
  flWebhookCertName :: string
  flWebhookCertKey :: string
  flMetricsCertPath :: string
  flMetricsCertName :: string
  flMetricsCertKey :: string
  flEnableHTTP2 :: bool

definition default_flags :: flags where
  "default_flags = \<lparr>
     flMetricsAddr = '':9090'', flProbeAddr = '':8080'', flEnableLeaderElection = False, flSecureMetrics = False,
     flServiceMonitorEnabled = True, flCASecretName = [], flCASecretKey = [], flServerName = [],
     flAuthorizationSecretName = [], flAuthorizationSecretKey = [], flWebhookCertPath = [],
     flWebhookCertName = ''tls.crt'', flWebhookCertKey = ''tls.key'', flMetricsCertPath = [],
     flMetricsCertName = ''tls.crt'', flMetricsCertKey = ''tls.key'', flEnableHTTP2 = False\<rparr>"

subsection \<open>The broker from the environment\<close>

text \<open>A regular expression that is a sequence of bounded repetitions of character classes, anchored on
  both sides.\<close>

fun re_match :: "((char \<Rightarrow> bool) \<times> nat \<times> nat) list \<Rightarrow> string \<Rightarrow> bool" where
  "re_match [] s = (s = [])"
| "re_match ((p, lo, hi) # ps) s =
     list_ex (\<lambda>k. lo \<le> k \<and> k \<le> length s \<and> list_all p (take k s) \<and> re_match ps (drop k s)) [0..<Suc hi]"

definition is_lower :: "char \<Rightarrow> bool" where
  "is_lower c = (97 \<le> (of_char c :: nat) \<and> (of_char c :: nat) \<le> 122)"

definition gcpProjectIDRegexp :: "((char \<Rightarrow> bool) \<times> nat \<times> nat) list" where
  "gcpProjectIDRegexp =
     [(is_lower, 1, 1), (\<lambda>c. is_lower c \<or> is_digit c \<or> c = CHR ''-'', 4, 28), (\<lambda>c. is_lower c \<or> is_digit c, 1, 1)]"

text \<open>An unset variable reads as the empty text.\<close>

definition quoted :: "string \<Rightarrow> string" where
  "quoted s = [CHR 0x27] @ s @ [CHR 0x27]"

definition envToBrokerInfo :: "(string \<Rightarrow> string) \<Rightarrow> BrokerInfo result" where
  "envToBrokerInfo getenv =
     (let brokerType0 = getenv BrokerTypeEnv in
      if brokerType0 \<noteq> [] \<and> brokerType0 \<noteq> BrokerTypeRabbitMQ \<and> brokerType0 \<noteq> BrokerTypeGooglePubSub then
        Inl (Errorf (''BROKER_TYPE must be set to either '' @ quoted ''rabbitmq'' @ '' or '' @ quoted ''googlepubsub'') [])
      else let brokerType = (if brokerType0 = [] then DefaultBrokerType else brokerType0) in
        if brokerType = BrokerTypeGooglePubSub then
          let brokerProjectID = getenv BrokerGooglePubSubProjectIDEnv in
          if brokerProjectID = [] then
            Inl (Errorf (''BROKER_GOOGLEPUBSUB_PROJECT_ID must be set and non-empty if broker type is '' @ quoted ''googlepubsub'') [])
          else if \<not> re_match gcpProjectIDRegexp brokerProjectID then
            Inl (Errorf ''BROKER_GOOGLEPUBSUB_PROJECT_ID: %q is not a valid GCP project ID'' [brokerProjectID])
          else Inr \<lparr>biType = brokerType, biProjectID = brokerProjectID\<rparr>
        else Inr \<lparr>biType = brokerType, biProjectID = []\<rparr>)"

subsection \<open>The cache scope\<close>

text \<open>Kinds with the namespaces that their informers list and watch.\<close>

definition namespacedCacheByObject :: "string \<Rightarrow> (string \<times> string list) list" where
  "namespacedCacheByObject operatorNamespace =
     (''Secret'', [operatorNamespace]) # map (\<lambda>k. (k, [operatorNamespace])) NamespacedOperandTypes"

subsection \<open>Paths\<close>

text \<open>\<^verbatim>\<open>filepath.Join\<close>: empty elements are dropped, the rest is joined and cleaned lexically.\<close>

definition clean_step :: "bool \<Rightarrow> string \<Rightarrow> string list \<Rightarrow> string list" where
  "clean_step rooted c out =
     (if c = [] \<or> c = ''.'' then out
      else if c = ''..'' then
        (if out \<noteq> [] \<and> last out \<noteq> ''..'' then butlast out else if rooted then out else out @ [c])
      else out @ [c])"

definition filepath_Clean :: "string \<Rightarrow> string" where
  "filepath_Clean path =
     (let rooted = (path \<noteq> [] \<and> hd path = CHR ''/'');
          out = fold (clean_step rooted) (split_byte (CHR ''/'') path []) []
      in if rooted then ''/'' @ strings_Join out ''/'' else if out = [] then ''.'' else strings_Join out ''/'')"

definition filepath_Join :: "string list \<Rightarrow> string" where
  "filepath_Join elems =
     (let es = filter (\<lambda>e. e \<noteq> []) elems in if es = [] then [] else filepath_Clean (strings_Join es ''/''))"

subsection \<open>Steps\<close>

type_synonym cert_pair = "string \<times> string"

datatype tls_opt = DisableHTTP2 | GetCertificate cert_pair

record manager_options =
  moMetricsBindAddress :: string
  moMetricsSecureServing :: bool
  moMetricsTLSOpts :: "tls_opt list"
  moMetricsAuthFilter :: bool
  moWebhookTLSOpts :: "tls_opt list"
  moHealthProbeBindAddress :: string
  moLeaderElection :: bool
  moLeaderElectionID :: string
  moCacheByObject :: "(string \<times> string list) list"

datatype runnable = SMBootstrapper string ScrapeConfig | CertWatcher cert_pair

datatype step =
    MetricsInit
  | NewCertWatcher cert_pair
  | GetConfig
  | NewManager manager_options
  | SetupController reconciler
  | AddRunnable runnable
  | AddHealthzCheck string
  | AddReadyzCheck string
  | StartManager
  | Fatal error

text \<open>Publishing the initial metrics cannot fail; a fatal step always does.\<close>

definition step_result :: "(step \<Rightarrow> error option) \<Rightarrow> step \<Rightarrow> error option" where
  "step_result run st = (case st of Fatal e \<Rightarrow> Some e | MetricsInit \<Rightarrow> None | _ \<Rightarrow> run st)"

text \<open>The exit code and the steps attempted.\<close>

fun run_steps :: "(step \<Rightarrow> error option) \<Rightarrow> step list \<Rightarrow> nat \<times> step list" where
  "run_steps run [] = (0, [])"
| "run_steps run (st # sts) =
     (case step_result run st of
        Some e \<Rightarrow> (1, [st])
      | None \<Rightarrow> (case run_steps run sts of (code, done_steps) \<Rightarrow> (code, st # done_steps)))"

definition cert_pair_of :: "string \<Rightarrow> string \<Rightarrow> string \<Rightarrow> cert_pair option" where
  "cert_pair_of path name key =
     (if length path > 0 then Some (filepath_Join [path, name], filepath_Join [path, key]) else None)"

definition option_list :: "'a option \<Rightarrow> 'a list" where
  "option_list x = (case x of None \<Rightarrow> [] | Some a \<Rightarrow> [a])"

definition operator_namespace :: "(string \<Rightarrow> string) \<Rightarrow> string" where
  "operator_namespace getenv =
     (if getenv ''OPERATOR_NAMESPACE'' = [] then ''hyperfleet-system'' else getenv ''OPERATOR_NAMESPACE'')"

definition webhook_cert :: "flags \<Rightarrow> cert_pair option" where
  "webhook_cert fl = cert_pair_of (flWebhookCertPath fl) (flWebhookCertName fl) (flWebhookCertKey fl)"

definition metrics_cert :: "flags \<Rightarrow> cert_pair option" where
  "metrics_cert fl = cert_pair_of (flMetricsCertPath fl) (flMetricsCertName fl) (flMetricsCertKey fl)"

definition manager_options_of :: "flags \<Rightarrow> string \<Rightarrow> manager_options" where
  "manager_options_of fl operatorNamespace =
     (let tlsOpts = (if \<not> flEnableHTTP2 fl then [DisableHTTP2] else []) in
      \<lparr>moMetricsBindAddress = flMetricsAddr fl, moMetricsSecureServing = flSecureMetrics fl,
       moMetricsTLSOpts = tlsOpts @ map GetCertificate (option_list (metrics_cert fl)),
       moMetricsAuthFilter = flSecureMetrics fl,
       moWebhookTLSOpts = tlsOpts @ map GetCertificate (option_list (webhook_cert fl)),
       moHealthProbeBindAddress = flProbeAddr fl, moLeaderElection = flEnableLeaderElection fl,
       moLeaderElectionID = ''85932bfd.redhat.com'',
       moCacheByObject = namespacedCacheByObject operatorNamespace\<rparr>)"

definition scrape_config_of :: "flags \<Rightarrow> ScrapeConfig" where
  "scrape_config_of fl = \<lparr>scSecure = flSecureMetrics fl,
     scServingCertificateConfigured = (flMetricsCertPath fl \<noteq> []),
     scTLSCASecretName = flCASecretName fl, scTLSCASecretKey = flCASecretKey fl, scServerName = flServerName fl,
     scAuthorizationSecretName = flAuthorizationSecretName fl, scAuthorizationSecretKey = flAuthorizationSecretKey fl\<rparr>"

definition monitor_steps :: "flags \<Rightarrow> string \<Rightarrow> step list" where
  "monitor_steps fl operatorNamespace =
     (if flMetricsAddr fl \<noteq> ''0'' \<and> flServiceMonitorEnabled fl then
        (case Validate (scrape_config_of fl) of
           Some e \<Rightarrow> [Fatal e]
         | None \<Rightarrow> [AddRunnable (SMBootstrapper operatorNamespace (scrape_config_of fl))])
      else [])"

text \<open>After the manager exists: the images, the broker, the controller and the runnables.  A fatal step
  ends the list for good, so what follows it is never attempted.\<close>

definition reconciler_of :: "(string \<Rightarrow> string) \<Rightarrow> BrokerInfo \<Rightarrow> reconciler" where
  "reconciler_of getenv b = \<lparr>OperatorNamespace = operator_namespace getenv, APIImage = getenv api_RelatedImageEnv,
     SentinelImage = getenv sentinel_RelatedImageEnv, rBrokerInfo = Some b, HTTPClient = None\<rparr>"

definition controller_steps :: "flags \<Rightarrow> (string \<Rightarrow> string) \<Rightarrow> step list" where
  "controller_steps fl getenv =
     (if getenv sentinel_RelatedImageEnv = [] then [Fatal (Errorf ''RELATED_IMAGE_HYPERFLEET_SENTINEL not set'' [])]
      else case envToBrokerInfo getenv of
          Inl e \<Rightarrow> [Fatal e]
        | Inr b \<Rightarrow> [SetupController (reconciler_of getenv b)] @ monitor_steps fl (operator_namespace getenv) @
            map (\<lambda>p. AddRunnable (CertWatcher p)) (option_list (metrics_cert fl) @ option_list (webhook_cert fl)) @
            [AddHealthzCheck ''healthz'', AddReadyzCheck ''readyz'', StartManager])"

definition main_steps :: "flags \<Rightarrow> (string \<Rightarrow> string) \<Rightarrow> step list" where
  "main_steps fl getenv =
     [MetricsInit] @ map NewCertWatcher (option_list (webhook_cert fl) @ option_list (metrics_cert fl)) @
     [GetConfig, NewManager (manager_options_of fl (operator_namespace getenv))] @ controller_steps fl getenv"

definition main :: "(step \<Rightarrow> error option) \<Rightarrow> flags \<Rightarrow> (string \<Rightarrow> string) \<Rightarrow> nat \<times> step list" where
  "main run fl getenv = run_steps run (main_steps fl getenv)"

subsection \<open>Version\<close>

text \<open>The build information that the binary carries, if any: module version and settings.\<close>

record build_info =
  bdMainVersion :: string
  bdSettings :: "(string \<times> string) list"

definition Version :: "string \<Rightarrow> build_info option \<Rightarrow> string" where
  "Version injected info =
     (if injected \<noteq> [] then injected
      else case info of
          Some i \<Rightarrow> if bdMainVersion i \<noteq> [] \<and> bdMainVersion i \<noteq> ''(devel)'' then bdMainVersion i else ''dev''
        | None \<Rightarrow> ''dev'')"

definition shortSHA :: "string \<Rightarrow> string" where
  "shortSHA sha = (if length sha > 7 then take 7 sha else sha)"

definition Commit :: "string \<Rightarrow> build_info option \<Rightarrow> string" where
  "Commit injected info =
     (if injected \<noteq> [] then shortSHA injected
      else case info of
          Some i \<Rightarrow> (case find (\<lambda>(k, _). k = ''vcs.revision'') (bdSettings i) of
              Some (_, v) \<Rightarrow> shortSHA v
            | None \<Rightarrow> ''unknown'')
        | None \<Rightarrow> ''unknown'')"

definition commonLabels :: "string \<Rightarrow> build_info option \<Rightarrow> (string \<times> string) list" where
  "commonLabels injected info = [(''component'', ''operator''), (''version'', Version injected info)]"


subsection \<open>The regular expression\<close>

lemma re_match_split:
  "re_match ((p, lo, hi) # ps) s \<longleftrightarrow>
     (\<exists>u v. s = u @ v \<and> lo \<le> length u \<and> length u \<le> hi \<and> list_all p u \<and> re_match ps v)"
proof
  assume "re_match ((p, lo, hi) # ps) s"
  then obtain k where k: "k \<in> set [0..<Suc hi]"
    "lo \<le> k \<and> k \<le> length s \<and> list_all p (take k s) \<and> re_match ps (drop k s)"
    unfolding re_match.simps list_ex_iff by blast
  then show "\<exists>u v. s = u @ v \<and> lo \<le> length u \<and> length u \<le> hi \<and> list_all p u \<and> re_match ps v"
    by (intro exI [of _ "take k s"] exI [of _ "drop k s"]) auto
next
  assume "\<exists>u v. s = u @ v \<and> lo \<le> length u \<and> length u \<le> hi \<and> list_all p u \<and> re_match ps v"
  then obtain u v where "s = u @ v" "lo \<le> length u" "length u \<le> hi" "list_all p u" "re_match ps v" by blast
  then show "re_match ((p, lo, hi) # ps) s"
    by (auto simp: list_ex_iff intro!: bexI [of _ "length u"])
qed

text \<open>The project identifiers that the comment beside the expression describes.\<close>

definition valid_project_id :: "string \<Rightarrow> bool" where
  "valid_project_id p \<longleftrightarrow> 6 \<le> length p \<and> length p \<le> 30 \<and>
     list_all (\<lambda>c. is_lower c \<or> is_digit c \<or> c = CHR ''-'') p \<and> is_lower (hd p) \<and> last p \<noteq> CHR ''-''"

lemma length_one: "Suc 0 \<le> length u \<and> length u \<le> Suc 0 \<longleftrightarrow> (\<exists>x. u = [x])"
  by (cases u) auto

lemma gcpProjectIDRegexp_iff: "re_match gcpProjectIDRegexp p \<longleftrightarrow> valid_project_id p"
proof
  assume "re_match gcpProjectIDRegexp p"
  then obtain x m y where p: "p = x # m @ [y]" "is_lower x" "4 \<le> length m" "length m \<le> 28"
    "list_all (\<lambda>c. is_lower c \<or> is_digit c \<or> c = CHR ''-'') m" "is_lower y \<or> is_digit y"
    unfolding gcpProjectIDRegexp_def re_match_split by (auto simp: length_one length_Suc_conv le_Suc_eq)
  moreover from p(6) have "y \<noteq> CHR ''-''" by (auto simp: is_lower_def is_digit_def)
  ultimately show "valid_project_id p" by (simp add: valid_project_id_def)
next
  assume v: "valid_project_id p"
  then obtain x q where q: "p = x # q" "q \<noteq> []" unfolding valid_project_id_def by (cases p; cases "tl p") auto
  then obtain m y where p: "p = [x] @ m @ [y]" by (cases q rule: rev_cases) auto
  with v have "is_lower x" "4 \<le> length m" "length m \<le> 28"
    "list_all (\<lambda>c. is_lower c \<or> is_digit c \<or> c = CHR ''-'') m" "is_lower y \<or> is_digit y"
    by (auto simp: valid_project_id_def)
  then show "re_match gcpProjectIDRegexp p"
    unfolding gcpProjectIDRegexp_def re_match_split
    by (intro exI [of _ "[x]"] exI [of _ "m @ [y]"] conjI exI [of _ m] exI [of _ "[y]"] exI [of _ "[]"]) (simp_all add: p)
qed

subsection \<open>The broker\<close>

lemma envToBrokerInfo_cases:
  assumes "envToBrokerInfo getenv = Inr b"
  shows "usable_broker b \<and> biType b = (if getenv BrokerTypeEnv = [] then BrokerTypeRabbitMQ else getenv BrokerTypeEnv) \<and>
    biProjectID b = (if biType b = BrokerTypeGooglePubSub then getenv BrokerGooglePubSubProjectIDEnv else [])"
  using assms by (auto simp: envToBrokerInfo_def Let_def usable_broker_def DefaultBrokerType_def split: if_splits)

text \<open>
  C36: The environment yields a broker exactly when its type is unset (then RabbitMQ), RabbitMQ, or
  Google Pub/Sub with a project identifier of 6 to 30 lower-case letters, digits and hyphens that
  starts with a letter and does not end with a hyphen.  The broker has that type, a project
  identifier only for Pub/Sub, and is one that every Sentinel can render.
\<close>

theorem broker_from_environment:
  "case envToBrokerInfo getenv of
     Inr b \<Rightarrow> usable_broker b \<and>
       biType b = (if getenv BrokerTypeEnv = [] then BrokerTypeRabbitMQ else getenv BrokerTypeEnv) \<and>
       biProjectID b = (if biType b = BrokerTypeGooglePubSub then getenv BrokerGooglePubSubProjectIDEnv else []) \<and>
       \<not> (biType b = BrokerTypeGooglePubSub \<and> \<not> valid_project_id (biProjectID b))
   | Inl _ \<Rightarrow> getenv BrokerTypeEnv \<notin> {[], BrokerTypeRabbitMQ, BrokerTypeGooglePubSub} \<or>
       getenv BrokerTypeEnv = BrokerTypeGooglePubSub \<and> \<not> valid_project_id (getenv BrokerGooglePubSubProjectIDEnv)"
proof (cases "envToBrokerInfo getenv")
  case (Inl e)
  have "\<not> valid_project_id []" by (simp add: valid_project_id_def)
  with Inl show ?thesis
    by (auto simp: envToBrokerInfo_def Let_def gcpProjectIDRegexp_iff DefaultBrokerType_def split: if_splits)
next
  case (Inr b)
  moreover from Inr have "\<not> (biType b = BrokerTypeGooglePubSub \<and> \<not> valid_project_id (biProjectID b))"
    by (auto simp: envToBrokerInfo_def Let_def gcpProjectIDRegexp_iff DefaultBrokerType_def split: if_splits)
  ultimately show ?thesis using envToBrokerInfo_cases [OF Inr] by simp
qed

subsection \<open>The steps of a start\<close>

definition step_ok :: "(step \<Rightarrow> error option) \<Rightarrow> step \<Rightarrow> bool" where
  "step_ok run st \<longleftrightarrow> step_result run st = None"

lemma run_steps_spec:
  "run_steps run sts = (code, att) \<Longrightarrow>
     prefix att sts \<and> list_all (step_ok run) (butlast att) \<and>
     (if code = 0 then att = sts \<and> list_all (step_ok run) sts else code = 1 \<and> att \<noteq> [] \<and> \<not> step_ok run (last att))"
proof (induction sts arbitrary: code att)
  case (Cons st sts)
  obtain code1 att1 where r: "run_steps run sts = (code1, att1)" by fastforce
  show ?case
  proof (cases "step_ok run st")
    case True
    with Cons.prems r have "code = code1" "att = st # att1"
      by (auto simp: step_ok_def split: prod.splits)
    with Cons.IH [OF r] True show ?thesis by auto
  next
    case False
    with Cons.prems have "code = 1" "att = [st]"
      by (auto simp: step_ok_def split: option.splits)
    with False show ?thesis by simp
  qed
qed simp

lemma run_steps_ok: "list_all (step_ok run) sts \<Longrightarrow> run_steps run sts = (0, sts)"
  by (induction sts) (auto simp: step_ok_def)

lemma start_last: "StartManager \<in> set att \<Longrightarrow> prefix att (pre @ [StartManager]) \<Longrightarrow> StartManager \<notin> set pre \<Longrightarrow>
    att = pre @ [StartManager]"
  by (auto simp: prefix_snoc dest: set_mono_prefix)

definition earlier_steps :: "flags \<Rightarrow> (string \<Rightarrow> string) \<Rightarrow> BrokerInfo \<Rightarrow> step list" where
  "earlier_steps fl getenv b = [MetricsInit] @ map NewCertWatcher (option_list (webhook_cert fl) @ option_list (metrics_cert fl)) @
     [GetConfig, NewManager (manager_options_of fl (operator_namespace getenv)), SetupController (reconciler_of getenv b)] @
     monitor_steps fl (operator_namespace getenv) @
     map (\<lambda>p. AddRunnable (CertWatcher p)) (option_list (metrics_cert fl) @ option_list (webhook_cert fl)) @
     [AddHealthzCheck ''healthz'', AddReadyzCheck ''readyz'']"

lemma StartManager_not_in [simp]: "StartManager \<notin> set (earlier_steps fl getenv b)"
  by (auto simp: earlier_steps_def monitor_steps_def split: option.splits if_splits)

lemma main_steps_start:
  assumes "StartManager \<in> set (main_steps fl getenv)"
  obtains b where "getenv sentinel_RelatedImageEnv \<noteq> []" "envToBrokerInfo getenv = Inr b"
    "main_steps fl getenv = earlier_steps fl getenv b @ [StartManager]"
  using assms by (auto simp: main_steps_def controller_steps_def earlier_steps_def split: if_splits sum.splits)

lemma main_started:
  assumes "main run fl getenv = (code, att)" "StartManager \<in> set att"
  obtains b where "getenv sentinel_RelatedImageEnv \<noteq> []" "envToBrokerInfo getenv = Inr b"
    "att = earlier_steps fl getenv b @ [StartManager]" "list_all (step_ok run) (earlier_steps fl getenv b)"
    "code = (if run StartManager = None then 0 else 1)"
proof -
  note spec = run_steps_spec [OF assms(1) [unfolded main_def]]
  then have "prefix att (main_steps fl getenv)" by blast
  with assms(2) have "StartManager \<in> set (main_steps fl getenv)" using set_mono_prefix by blast
  then show thesis
  proof (rule main_steps_start)
    fix b assume b: "getenv sentinel_RelatedImageEnv \<noteq> []" "envToBrokerInfo getenv = Inr b"
      "main_steps fl getenv = earlier_steps fl getenv b @ [StartManager]"
    with spec assms(2) have att: "att = earlier_steps fl getenv b @ [StartManager]" by (auto intro: start_last)
    with spec b(3) have ok: "list_all (step_ok run) (earlier_steps fl getenv b)" by auto
    moreover from spec have "code = (if run StartManager = None then 0 else 1)"
      using b(3) att by (auto simp: step_ok_def step_result_def split: if_splits)
    ultimately show thesis by (intro that [OF b(1,2) att])
  qed
qed

text \<open>
  C26: The manager is started only by a process that is configured: with a Sentinel image, a usable
  broker, a reconciler set up with exactly these and the operator's namespace, and with every
  earlier step, health and readiness checks included, having succeeded.  Starting it is the last
  step, and its result is the exit code.  The ServiceMonitor bootstrap was added exactly if metrics
  and the bootstrap are enabled, and then with a valid scrape configuration.
\<close>

theorem start_requires_configuration:
  assumes "main run fl getenv = (code, att)" "StartManager \<in> set att"
  shows "getenv sentinel_RelatedImageEnv \<noteq> [] \<and>
    (\<exists>b before. envToBrokerInfo getenv = Inr b \<and> usable_broker b \<and>
       att = before @ [StartManager] \<and> list_all (\<lambda>st. step_result run st = None) before \<and>
       {r. SetupController r \<in> set before} = {reconciler_of getenv b} \<and>
       AddHealthzCheck ''healthz'' \<in> set before \<and> AddReadyzCheck ''readyz'' \<in> set before) \<and>
    code = (if run StartManager = None then 0 else 1) \<and>
    {(ns, c). AddRunnable (SMBootstrapper ns c) \<in> set att} =
      (if flMetricsAddr fl \<noteq> ''0'' \<and> flServiceMonitorEnabled fl
       then {(operator_namespace getenv, scrape_config_of fl)} \<inter> {(_, c). Validate c = None} else {}) \<and>
    (flMetricsAddr fl \<noteq> ''0'' \<and> flServiceMonitorEnabled fl \<longrightarrow> Validate (scrape_config_of fl) = None)"
proof (rule main_started [OF assms])
  fix b
  assume b: "getenv sentinel_RelatedImageEnv \<noteq> []" "envToBrokerInfo getenv = Inr b"
    "att = earlier_steps fl getenv b @ [StartManager]" "list_all (step_ok run) (earlier_steps fl getenv b)"
    "code = (if run StartManager = None then 0 else 1)"
  have v: "flMetricsAddr fl \<noteq> ''0'' \<and> flServiceMonitorEnabled fl \<longrightarrow> Validate (scrape_config_of fl) = None"
    using b(4) by (auto simp: earlier_steps_def monitor_steps_def step_ok_def step_result_def split: option.splits)
  have "{r. SetupController r \<in> set (earlier_steps fl getenv b)} = {reconciler_of getenv b}"
    by (auto simp: earlier_steps_def monitor_steps_def split: option.splits)
  moreover have "{(ns, c). AddRunnable (SMBootstrapper ns c) \<in> set att} =
      (if flMetricsAddr fl \<noteq> ''0'' \<and> flServiceMonitorEnabled fl
       then {(operator_namespace getenv, scrape_config_of fl)} \<inter> {(_, c). Validate c = None} else {})"
    using v by (auto simp: b(3) earlier_steps_def monitor_steps_def)
  moreover have "AddHealthzCheck ''healthz'' \<in> set (earlier_steps fl getenv b)"
    "AddReadyzCheck ''readyz'' \<in> set (earlier_steps fl getenv b)" by (simp_all add: earlier_steps_def)
  ultimately show ?thesis using b v envToBrokerInfo_cases [OF b(2)] unfolding step_ok_def by blast
qed

definition example_getenv :: "string \<Rightarrow> string" where
  "example_getenv = (\<lambda>_. [])(sentinel_RelatedImageEnv := ''s:1'')"

abbreviation example_broker :: BrokerInfo where
  "example_broker \<equiv> \<lparr>biType = BrokerTypeRabbitMQ, biProjectID = []\<rparr>"

lemma example_main:
  "main (\<lambda>_. None) default_flags example_getenv =
     (0, earlier_steps default_flags example_getenv example_broker @ [StartManager])"
proof -
  have b: "envToBrokerInfo example_getenv = Inr example_broker"
    by (simp add: envToBrokerInfo_def example_getenv_def DefaultBrokerType_def broker_consts sentinel_RelatedImageEnv_def
        BrokerTypeEnv_def)
  have v: "Validate (scrape_config_of default_flags) = None"
    by (simp add: Validate_def scrape_config_of_def default_flags_def)
  have s: "main_steps default_flags example_getenv = earlier_steps default_flags example_getenv example_broker @ [StartManager]"
    using b by (simp add: main_steps_def controller_steps_def earlier_steps_def) (simp add: example_getenv_def)
  have "list_all (step_ok (\<lambda>_. None)) (main_steps default_flags example_getenv)"
    unfolding s by (auto simp: earlier_steps_def monitor_steps_def v step_ok_def step_result_def list_all_iff)
  then show ?thesis by (simp add: main_def run_steps_ok flip: s)
qed

theorem start_requires_configuration_witness:
  "\<exists>att. main (\<lambda>_. None) default_flags example_getenv = (0, att) \<and>
     (\<exists>b before. att = before @ [StartManager] \<and> SetupController (reconciler_of example_getenv b) \<in> set before)"
proof -
  have "StartManager \<in> set (earlier_steps default_flags example_getenv example_broker @ [StartManager])" by simp
  from start_requires_configuration [OF example_main this] obtain b before where
    "earlier_steps default_flags example_getenv example_broker @ [StartManager] = before @ [StartManager]"
    "{r. SetupController r \<in> set before} = {reconciler_of example_getenv b}" by meson
  with example_main show ?thesis by (intro exI [of _ "before @ [StartManager]"]) auto
qed

theorem broker_from_environment_witness:
  "\<exists>b. envToBrokerInfo example_getenv = Inr b \<and> usable_broker b"
proof -
  have "envToBrokerInfo example_getenv = Inr example_broker"
    by (simp add: envToBrokerInfo_def example_getenv_def DefaultBrokerType_def broker_consts sentinel_RelatedImageEnv_def
        BrokerTypeEnv_def)
  with broker_from_environment [of example_getenv] show ?thesis by simp
qed

subsection \<open>Servers and cache\<close>

lemma option_list_set: "set (map f (option_list x)) = f ` set_option x"
  by (auto simp: option_list_def split: option.splits)

text \<open>
  The options of the manager: HTTP/2 is off on both servers unless it was enabled; each server uses
  its own certificate, when one is configured, and no other; the metrics endpoint is served
  with authentication exactly when it is served securely.  The informers of the controller are confined: every
  kind that the controller owns or reads Secrets of, and only those, is cached, once, for the
  operator's namespace alone.
\<close>

theorem manager_confined:
  "let mo = manager_options_of fl ns in
     (DisableHTTP2 \<in> set (moMetricsTLSOpts mo) \<longleftrightarrow> \<not> flEnableHTTP2 fl) \<and>
     (DisableHTTP2 \<in> set (moWebhookTLSOpts mo) \<longleftrightarrow> \<not> flEnableHTTP2 fl) \<and>
     {p. GetCertificate p \<in> set (moMetricsTLSOpts mo)} = set_option (metrics_cert fl) \<and>
     {p. GetCertificate p \<in> set (moWebhookTLSOpts mo)} = set_option (webhook_cert fl) \<and>
     (moMetricsAuthFilter mo \<longleftrightarrow> moMetricsSecureServing mo) \<and>
     set (moCacheByObject mo) = {k. Owns k \<in> set SetupWithManager_watches \<or> Watches k \<in> set SetupWithManager_watches} \<times> {[ns]} \<and>
     distinct (map fst (moCacheByObject mo))"
proof -
  have "set (namespacedCacheByObject ns) = {k. Owns k \<in> set SetupWithManager_watches \<or> Watches k \<in> set SetupWithManager_watches} \<times> {[ns]}"
    by (auto simp: namespacedCacheByObject_def SetupWithManager_watches_def)
  moreover have "distinct (map fst (namespacedCacheByObject ns))"
    by (simp add: namespacedCacheByObject_def NamespacedOperandTypes_def comp_def)
  ultimately show ?thesis
    by (auto simp: Let_def manager_options_of_def option_list_set option_list_def split: option.splits)
qed

end
