(* ===== verification/Recovery.thy ===== *)
theory Recovery
  imports Controller
begin

section \<open>Reconciling in a healthy world\<close>

text \<open>
  What the operator needs from the world outside to succeed, as a contract, and that it is enough: in a
  healthy world a reconcile with a usable configuration returns no error, whatever the operator's own
  state, so that an outage never outlives its cause.
\<close>

subsection \<open>The contract\<close>

text \<open>
  \<open>ok\<close> are the healthy states of the world.  Every call keeps the world healthy; reading the resource gives the
  spec that is to be reconciled, with any status; a Secret may be absent, but a read of one gives an
  answer; a Deployment may be absent and reading it may fail, which only affects metrics; and writes succeed.
\<close>

locale healthy_world =
  fixes env :: "'w env" and cr :: HyperFleetConfig and ok :: "'w \<Rightarrow> bool"
  assumes reads: "ok w \<Longrightarrow> envGetCR env n w = (x, w') \<Longrightarrow> ok w' \<and> (\<exists>st. x = Inr (cr\<lparr>Status := st\<rparr>))"
    and secrets: "ok w \<Longrightarrow> envGetSecret env ns n w = (y, w') \<Longrightarrow> ok w' \<and> (\<forall>e. y = Inl e \<longrightarrow> e = NotFound)"
    and deployments: "ok w \<Longrightarrow> envGetDeployment env ns n w = (d, w') \<Longrightarrow> ok w'"
    and applies: "ok w \<Longrightarrow> envApply env ob w = (e, w') \<Longrightarrow> ok w' \<and> e = None"
    and refreshes: "ok w \<Longrightarrow> envRefresh env ob w = (z, w') \<Longrightarrow> ok w' \<and> \<not> isl z"
    and updates: "ok w \<Longrightarrow> envStatusUpdate env cr' w = (e, w') \<Longrightarrow> ok w' \<and> e = None"
    and requests: "ok w \<Longrightarrow> envHTTPDo env c url w = (resp, w') \<Longrightarrow> ok w'"
    and owners: "\<not> isl (envSetControllerReference env (cr\<lparr>Status := st\<rparr>) ob)"
    and converts: "envToUnstructured env ob = None"
    and marshals: "\<not> isl (envYAML env j)"

text \<open>A key-set URL can be had: none is needed, one is cached, or every request for one is answered well.\<close>

definition discoverable :: "'w env \<Rightarrow> ('w \<Rightarrow> bool) \<Rightarrow> HyperFleetConfig \<Rightarrow> 'w sys \<Rightarrow> bool" where
  "discoverable env ok cr s \<longleftrightarrow> (let i = Issuer (Auth (API (Spec cr))); url = TrimSuffix i ''/'' @ oidcDiscoveryPath in
     \<not> needs_discovery cr \<or> (\<exists>u. discoveryCache s i = Some u \<and> u \<noteq> []) \<or>
     (NewRequest url = None \<and> (\<forall>c w. ok w \<longrightarrow> (\<exists>resp u w'. envHTTPDo env c url w = (Inr resp, w') \<and>
        check_response (TrimSuffix i ''/'') url resp = Inr u))))"

text \<open>A reconciler that can render the cloud bundle.\<close>

definition configured :: "reconciler \<Rightarrow> bool" where
  "configured r \<longleftrightarrow> SentinelImage r \<noteq> [] \<and> (\<exists>b. rBrokerInfo r = Some b \<and> usable_broker b)"

lemma needs_discovery_status [simp]: "needs_discovery (cr\<lparr>Status := st\<rparr>) = needs_discovery cr"
  by (simp add: needs_discovery_def AuthEnabled_def)

lemma discoverable_frame:
  "discoveryCache s' = discoveryCache s \<Longrightarrow> discoverable env ok (cr\<lparr>Status := st\<rparr>) s' = discoverable env ok cr s"
  by (simp add: discoverable_def)

context healthy_world
begin

subsection \<open>The parts of a reconcile\<close>

lemma perform_ok:
  assumes "perform c f s = (a, s')" "ok (world s)" "\<And>w. f (world s) = (a, w) \<Longrightarrow> ok w \<and> P"
  shows "ok (world s') \<and> P"
  using perform_step [OF assms(1)] assms(3) by blast

lemma secrets_ok:
  "ok (world s) \<Longrightarrow> \<exists>es s'. resolveSecretEntries (get_secret env) ns refs s = (Inr es, s') \<and> ok (world s')"
proof (induction refs arbitrary: s)
  case (Cons ref refs)
  obtain a s1 where g: "get_secret env ns (SecretName ref) s = (a, s1)" by fastforce
  then have "ok (world s1) \<and> (\<forall>e. a = Inl e \<longrightarrow> e = NotFound)"
    unfolding get_secret_def by (rule perform_ok) (use Cons.prems secrets in auto)
  moreover from this obtain es s2 where "resolveSecretEntries (get_secret env) ns refs s1 = (Inr es, s2)" "ok (world s2)"
    using Cons.IH by blast
  ultimately show ?case using g by (cases a) auto
qed simp

lemma collect_ok:
  "ok (world s) \<Longrightarrow> \<exists>entries' missing' s'. collect_secrets env r cr' cs entries missing s = ((None, entries', missing'), s') \<and> ok (world s')"
proof (induction cs arbitrary: s entries missing)
  case (Cons c cs)
  from secrets_ok [OF Cons.prems] obtain es s1 where
    "resolveSecretEntries (get_secret env) (OperatorNamespace r) (comp_ReferencedSecrets c cr') s = (Inr es, s1)" "ok (world s1)" by blast
  with Cons.IH [OF this(2)] show ?case by simp
qed simp

lemma discovery_ok:
  assumes "ok (world s)" "discoverable env ok cr' s"
  shows "\<exists>url s'. resolveJWKSURL env r cr' s = (Inr url, s') \<and> ok (world s') \<and> (needs_discovery cr' \<longrightarrow> url \<noteq> [])"
proof (cases "needs_discovery cr'")
  case False
  with assms(1) show ?thesis by (auto simp: resolveJWKSURL_def needs_discovery_def)
next
  case True
  let ?i = "Issuer (Auth (API (Spec cr')))" let ?u = "TrimSuffix ?i ''/'' @ oidcDiscoveryPath"
  obtain res s1 where d: "discoverJWKSURL env r ?i s = (res, s1)" by fastforce
  have w: "ok (world s1)"
  proof (rule discoverJWKSURL_cases [OF d])
    fix c s2 resp
    assume c: "discovery_client r s = (c, s2)" "perform (HTTPGet c ?u) (envHTTPDo env c ?u) s2 = (resp, s1)"
    from discovery_client_sel(4) [OF c(1)] perform_step [OF c(2)] requests assms(1) show ?thesis by metis
  qed (use assms(1) in simp)
  have ne: "u \<noteq> []" if "res = Inr u" for u using discoverJWKSURL_spec(3) [OF d that] by (simp add: verified_jwks_def)
  have c: "discoveryCache s1 ?i = discoveryCache s ?i" using discoverJWKSURL_spec(1) [OF d] by simp
  show ?thesis
  proof (cases res)
    case (Inr u)
    with True d w ne show ?thesis
      by (auto simp: resolveJWKSURL_def needs_discovery_def Let_def cacheDiscovery_def)
  next
    case (Inl e)
    have "\<exists>u. discoveryCache s ?i = Some u \<and> u \<noteq> []"
    proof (rule ccontr)
      assume "\<nexists>u. discoveryCache s ?i = Some u \<and> u \<noteq> []"
      with assms(2) True have a: "NewRequest ?u = None" "\<And>c w. ok w \<Longrightarrow> \<exists>resp u w'. envHTTPDo env c ?u w = (Inr resp, w') \<and>
        check_response (TrimSuffix ?i ''/'') ?u resp = Inr u" by (simp_all add: discoverable_def Let_def)
      obtain c s2 where dc: "discovery_client r s = (c, s2)" by fastforce
      from a(2) [of "world s2" c] discovery_client_sel(4) [OF dc] assms(1) obtain resp u w' where
        h: "envHTTPDo env c ?u (world s2) = (Inr resp, w')" "check_response (TrimSuffix ?i ''/'') ?u resp = Inr u" by metis
      with a(1) d dc Inl show False by (simp add: discoverJWKSURL_def Let_def perform_def)
    qed
    with Inl True d w c show ?thesis
      by (auto simp: resolveJWKSURL_def needs_discovery_def Let_def cachedDiscovery_def)
  qed
qed

lemma deployment_ok: "get_deployment env ns n s = (d, s') \<Longrightarrow> ok (world s) \<Longrightarrow> ok (world s')"
  unfolding get_deployment_def by (drule perform_step) (rule deployments)

lemma detect_ok:
  "detectRollouts env operand obs s = (x, s') \<Longrightarrow> ok (world s) \<Longrightarrow> ok (world s')"
proof (induction obs arbitrary: s x s')
  case (Cons ob obs)
  show ?case
  proof (cases "is_deployment ob")
    case True
    then obtain d where d: "ob = DeploymentObj d" by (cases ob) (auto simp: is_deployment_def)
    let ?d = "stampTemplateHash d (hashPodTemplate env d)"
    obtain live s1 where l: "get_deployment env (Namespace (depMeta ?d)) (Name (depMeta ?d)) s = (live, s1)" by fastforce
    obtain y s2 where r: "detectRollouts env operand obs s1 = (y, s2)" by fastforce
    from Cons.prems l r have "s' = s2" by (cases y) (auto simp: d Let_def)
    with Cons.IH [OF r] deployment_ok [OF l] Cons.prems(2) show ?thesis by blast
  next
    case False
    with Cons show ?thesis by (cases ob) (auto simp: is_deployment_def split: prod.splits)
  qed
qed simp

lemma readiness_ok: "ok (world s) \<Longrightarrow> ok (world (recordReadiness env operand obs s))"
proof (induction obs arbitrary: s)
  case (Cons ob obs)
  show ?case
  proof (cases "is_deployment ob")
    case True
    then obtain d where d: "ob = DeploymentObj d" by (cases ob) (auto simp: is_deployment_def)
    obtain live s1 where l: "get_deployment env (Namespace (depMeta d)) (Name (depMeta d)) s = (live, s1)" by fastforce
    from deployment_ok [OF l Cons.prems] l show ?thesis
      by (auto simp: d intro!: Cons.IH split: sum.splits)
  next
    case False
    with Cons show ?thesis by (cases ob) (auto simp: is_deployment_def)
  qed
qed simp

lemma apply_ok:
  "ok (world s) \<Longrightarrow> \<exists>obs' s'. apply_Objects env (cr\<lparr>Status := st\<rparr>) obs s = ((obs', None), s') \<and> ok (world s')"
proof (induction obs arbitrary: s)
  case (Cons ob obs)
  from owners [of st ob] obtain ob1 where o: "envSetControllerReference env (cr\<lparr>Status := st\<rparr>) ob = Inr ob1"
    by (cases "envSetControllerReference env (cr\<lparr>Status := st\<rparr>) ob") auto
  obtain e s1 where a: "perform (Apply ob1) (envApply env ob1) s = (e, s1)" by fastforce
  then have e: "ok (world s1) \<and> e = None" by (rule perform_ok) (use Cons.prems applies in auto)
  obtain z s2 where f: "perform (Refresh ob1) (envRefresh env ob1) s1 = (z, s2)" by fastforce
  then have z: "ok (world s2) \<and> \<not> isl z" by (rule perform_ok) (use e refreshes in auto)
  then obtain ob2 where "z = Inr ob2" by (cases z) auto
  with o a e f converts have "apply_object env (cr\<lparr>Status := st\<rparr>) ob s = ((ob2, None), s2)" by (simp add: apply_object_def Let_def)
  with Cons.IH [of s2] z show ?case by auto
qed simp

lemma component_ok:
  assumes "ok (world s)" "comp_Render (envYAML env) c (cr\<lparr>Status := st\<rparr>) = Inr obs"
  shows "\<exists>h cc s'. reconcile_component env (cr\<lparr>Status := st\<rparr>) entries c s = (Inr (h, cc), s') \<and> ok (world s')"
proof -
  obtain obs1 h where st: "stampConfigHash obs (comp_Rollout c) (entries_index entries (comp_Name c)) = (obs1, h)" by fastforce
  obtain ev obs2 s1 where de: "detectRollouts env (comp_Name c) obs1 s = ((ev, obs2), s1)" by (metis surj_pair)
  from apply_ok [OF detect_ok [OF de assms(1)]] obtain obs3 s2 where
    "apply_Objects env (cr\<lparr>Status := st\<rparr>) obs2 s1 = ((obs3, None), s2)" "ok (world s2)" by blast
  with assms st de readiness_ok show ?thesis by (simp add: reconcile_component_def)
qed

lemma components_ok:
  assumes "ok (world s)" "map (\<lambda>c. comp_Render (envYAML env) c (cr\<lparr>Status := st\<rparr>)) cs = map Inr obss"
  shows "\<exists>hashes' ccs' s'. reconcile_components env (cr\<lparr>Status := st\<rparr>) entries cs hashes ccs s = ((None, hashes', ccs'), s') \<and> ok (world s')"
  using assms
proof (induction cs arbitrary: obss hashes ccs s)
  case (Cons c cs)
  then obtain obs obss' where o: "comp_Render (envYAML env) c (cr\<lparr>Status := st\<rparr>) = Inr obs"
    "map (\<lambda>c. comp_Render (envYAML env) c (cr\<lparr>Status := st\<rparr>)) cs = map Inr obss'" by (cases obss) auto
  from component_ok [OF Cons.prems(1) o(1)] obtain h cc s1 where
    "reconcile_component env (cr\<lparr>Status := st\<rparr>) entries c s = (Inr (h, cc), s1)" "ok (world s1)" by blast
  with Cons.IH [OF this(2) o(2)] show ?case by simp
qed simp

subsection \<open>The whole reconcile\<close>

lemma body_ok:
  assumes "ok (world s)" "discoverable env ok cr s" "configured r" "Bundle (Spec cr) = BundleCloudCAPI"
  shows "\<exists>oc s'. reconcile_body env r (cr\<lparr>Status := st\<rparr>) s = (oc, s') \<and> ocError oc = None \<and> ok (world s')"
proof -
  let ?cr = "cr\<lparr>Status := st\<rparr>"
  from assms(3) obtain b where b: "rBrokerInfo r = Some b" "usable_broker b" "SentinelImage r \<noteq> []" by (auto simp: configured_def)
  obtain cs0 where cs0: "Resolve (Bundle (Spec ?cr)) (bundle_config r) = Inr cs0"
    using b(1) assms(4) by (auto simp: Resolve_iff bundle_config_def)
  let ?cs = "SetAPIBaseURL cs0 (APIBaseURL ?cr (OperatorNamespace r))"
  from collect_ok [OF assms(1)] obtain entries missing s1 where
    c: "collect_secrets env r ?cr ?cs Map.empty [] s = ((None, entries, missing), s1)" "ok (world s1)" by blast
  have "discoveryCache s1 = discoveryCache s" using collect_secrets_spec [OF c(1)] by (auto simp: same_but_calls_def)
  with assms(2) have "discoverable env ok ?cr s1" by (simp add: discoverable_frame)
  from discovery_ok [OF c(2) this] obtain url s2 where
    j: "resolveJWKSURL env r ?cr s1 = (Inr url, s2)" "ok (world s2)" "needs_discovery ?cr \<longrightarrow> url \<noteq> []" by blast
  have "\<exists>obss. map (\<lambda>c. comp_Render (envYAML env) c ?cr) (SetResolvedJWKSURL ?cs url) = map Inr obss \<and>
    distinct (concat (map (map obj_key) obss)) \<and>
    list_all (list_all (\<lambda>ob. obj_kind ob \<in> set NamespacedOperandTypes)) obss"
    by (rule bundle_rendered [OF cs0 marshals]) (use b j(3) in \<open>auto simp: bundle_config_def needs_discovery_def\<close>)
  then obtain obss where "map (\<lambda>c. comp_Render (envYAML env) c ?cr) (SetResolvedJWKSURL ?cs url) = map Inr obss" by blast
  from components_ok [OF j(2) this] obtain hashes ccs s3 where
    "reconcile_components env ?cr entries (SetResolvedJWKSURL ?cs url) [] [] s2 = ((None, hashes, ccs), s3)" "ok (world s3)" by blast
  with cs0 c(1) j(1) show ?thesis by (simp add: reconcile_body_def Let_def)
qed

lemma update_ok:
  assumes "ok (world s)" "ocError oc = None"
  shows "\<exists>s'. update_status env cr' oc s = (None, s') \<and> ok (world s')"
proof -
  obtain cr1 ch where ag: "aggregateStatus (envSetStatusCondition env (world s)) cr' (ocReports oc) (ocCollected oc) (ocMissing oc) (ocError oc) = (cr1, ch)"
    by fastforce
  obtain e s1 where p: "perform (StatusUpdate cr1) (envStatusUpdate env cr1) s = (e, s1)" by fastforce
  then have "ok (world s1) \<and> e = None" by (rule perform_ok) (use assms(1) updates in auto)
  with ag p assms show ?thesis by (simp add: update_status_def)
qed

lemma reconcile_ok:
  assumes "ok (world s)" "discoverable env ok cr s" "configured r" "Bundle (Spec cr) = BundleCloudCAPI"
  shows "\<exists>s'. Reconcile env r req s = (None, s') \<and> ok (world s')"
proof -
  obtain x s1 where g: "perform (GetCR req) (envGetCR env req) s = (x, s1)" by fastforce
  then have "ok (world s1) \<and> (\<exists>st. x = Inr (cr\<lparr>Status := st\<rparr>))" by (rule perform_ok) (use assms(1) reads in auto)
  then obtain st where x: "ok (world s1)" "x = Inr (cr\<lparr>Status := st\<rparr>)" by blast
  have "discoverable env ok cr s1" using assms(2) g by (simp add: discoverable_def)
  from body_ok [OF x(1) this assms(3,4)] obtain oc s2 where
    b: "reconcile_body env r (cr\<lparr>Status := st\<rparr>) s1 = (oc, s2)" "ocError oc = None" "ok (world s2)" by blast
  from update_ok [OF b(3,2)] obtain s3 where "update_status env (cr\<lparr>Status := st\<rparr>) oc s2 = (None, s3)" "ok (world s3)" by blast
  with g x(2) b(1) show ?thesis by (simp add: Reconcile_def)
qed

end

subsection \<open>An example\<close>

interpretation example_healthy: healthy_world "example_env cr" cr "\<lambda>_. True" for cr
  by unfold_locales (auto simp: example_env_def intro: exI [of _ "Status cr"])

end
