(* ===== verification/Controller_Properties.thy ===== *)
theory Controller_Properties
  imports Recovery
begin

section \<open>Correctness of a reconcile\<close>

text \<open>
  The properties of \<^verbatim>\<open>Reconcile\<close> as a whole: the order of its calls, what a successful and a failed one
  leave behind, and the invariants of the states that the operator process can reach.
\<close>

subsection \<open>The whole reconcile\<close>

lemma Reconcile_cases:
  assumes "Reconcile env r req s = (err, s')"
  obtains (gone) s1 where "perform (GetCR req) (envGetCR env req) s = (Inl NotFound, s1)" "err = None"
      "s' = with_metrics ObserveReconcile s1"
  | (unread) e s1 where "perform (GetCR req) (envGetCR env req) s = (Inl e, s1)" "e \<noteq> NotFound" "err \<noteq> None"
      "s' = with_metrics ObserveReconcile (with_metrics (IncReconcileError ''get'') s1)"
  | (found) cr s1 oc s2 s3 where "perform (GetCR req) (envGetCR env req) s = (Inr cr, s1)"
      "reconcile_body env r cr s1 = (oc, s2)" "update_status env cr oc s2 = (err, s3)"
      "s' = with_metrics ObserveReconcile s3"
proof -
  obtain res s1 where g: "perform (GetCR req) (envGetCR env req) s = (res, s1)" by fastforce
  show thesis
  proof (cases res)
    case (Inl e)
    with assms g show thesis
      by (cases "e = NotFound") (auto simp: Reconcile_def intro: gone unread)
  next
    case (Inr cr)
    obtain oc s2 where b: "reconcile_body env r cr s1 = (oc, s2)" by fastforce
    obtain err1 s3 where u: "update_status env cr oc s2 = (err1, s3)" by fastforce
    from assms g Inr b u show thesis by (intro found [of cr s1 oc s2 s3]) (simp_all add: Reconcile_def)
  qed
qed

lemma call_groups:
  "secret_calls r gs \<Longrightarrow> applied gs = []" "discovery_calls r hs \<Longrightarrow> applied hs = []"
  by (auto dest: secret_calls_gather discovery_calls_gather applied_gathers)

lemma group_phases:
  "secret_calls r gs \<Longrightarrow> g \<in> set gs \<Longrightarrow> phase_of g = Collecting"
  "discovery_calls r gs \<Longrightarrow> g \<in> set gs \<Longrightarrow> phase_of g = Discovering"
  by (cases g; force simp: secret_calls_def discovery_calls_def list_all_iff)+

lemma phases_sorted:
  assumes "secret_calls r gs" "discovery_calls r hs" "list_all acts as" "us = [] \<or> (\<exists>cr'. us = [StatusUpdate cr'])"
  shows "sorted (map phase_of (gs @ hs @ as @ us))"
proof -
  have "\<forall>g \<in> set gs. phase_of g = Collecting" "\<forall>h \<in> set hs. phase_of h = Discovering"
    "\<forall>a \<in> set as. phase_of a = Acting" "\<forall>u \<in> set us. phase_of u = Publishing"
    using group_phases(1) [OF assms(1)] group_phases(2) [OF assms(2)] assms(3,4) by (auto simp: list_all_iff acts_phase)
  moreover have "sorted (map phase_of xs)" if "\<forall>x \<in> set xs. phase_of x = p" for xs p
    using that by (induction xs) auto
  ultimately show ?thesis by (auto simp: sorted_append less_eq_phase_def)
qed

lemma applied_StatusUpdates: "us = [] \<or> (\<exists>cr. us = [StatusUpdate cr]) \<Longrightarrow> applied us = []"
  by auto

text \<open>
  C27: A reconcile gathers before it acts.  When it reads the resource it makes, in this order: the read
  of the resource; reads of Secrets, all in the operator's namespace; at most one discovery
  request, through the configured client, and only when discovery is needed; reads and
  server-side applies of operands; at most one status update, last.  Whatever happens, the objects applied have
  pairwise distinct kinds, namespaces and names, all lie in the operator's namespace and are of a
  kind that the controller watches.
\<close>

theorem reconcile_gathers_then_acts:
  assumes "owner_documented env" "client_ok s" "fst (envGetCR env req (world s)) = Inr cr"
    and "Reconcile env r req s = (err, s')"
  shows "\<exists>gs hs as us. calls s' = calls s @ [GetCR req] @ gs @ hs @ as @ us \<and>
    secret_calls r gs \<and> discovery_calls r hs \<and> (hs \<noteq> [] \<longrightarrow> needs_discovery cr) \<and> list_all acts as \<and>
    (us = [] \<or> (\<exists>cr'. us = [StatusUpdate cr'])) \<and>
    sorted (map phase_of (gs @ hs @ as @ us)) \<and>
    distinct (map obj_key (applied as)) \<and>
    list_all (\<lambda>ob. Namespace (obj_meta ob) = OperatorNamespace r \<and> obj_kind ob \<in> set NamespacedOperandTypes) (applied as)"
  using assms(4)
proof (cases rule: Reconcile_cases)
  case (found cr1 s1 oc s2 s3)
  have cr: "cr1 = cr" using perform_result [OF found(1)] assms(3) by simp
  have c1: "client_ok s1" "calls s1 = calls s @ [GetCR req]"
    using found(1) assms(2) by (auto simp: client_ok_def)
  show ?thesis
  proof (rule reconcile_body_trace [OF assms(1) found(2) c1(1)])
    fix gs hs as obss url cs
    assume t: "calls s2 = calls s1 @ gs @ hs @ as" "secret_calls r gs" "discovery_calls r hs"
      "hs \<noteq> [] \<Longrightarrow> needs_discovery cr1" "applies env (concat obss) (ocError oc = None) as"
      "obss \<noteq> [] \<or> ocReports oc \<noteq> [] \<or> ocError oc = None \<Longrightarrow> resolved_components r cr1 url cs"
      "map (\<lambda>c. comp_Render (envYAML env) c cr1) (take (length obss) cs) = map Inr obss"
  from update_status_calls [OF found(3)] obtain us where
    u: "calls s3 = calls s2 @ us" "us = [] \<or> (\<exists>cr'. us = [StatusUpdate cr'])" by blast
  let ?n = "length (applied as)"
  have d: "list_all2 (decorated env) (take ?n (concat obss)) (applied as)" and a: "list_all acts as"
    using t(5) by (simp_all add: applies_def)
  have k: "map obj_key (applied as) = take ?n (map obj_key (concat obss))"
    using list_all2_key [OF d] by (simp add: take_map)
  have "distinct (map obj_key (concat obss)) \<and>
      list_all (\<lambda>ob. Namespace (obj_meta ob) = OperatorNamespace r) (concat obss)"
  proof (cases "obss = []")
    case False
    with t(6) have "resolved_components r cr1 url cs" by simp
    from resolved_keys [OF this t(7)] show ?thesis by (simp add: list_all_iff)
  qed simp
  then have dist: "distinct (map obj_key (applied as))"
    and ns: "\<forall>k \<in> set (map obj_key (concat obss)). fst (snd k) = OperatorNamespace r"
    unfolding k by (simp_all add: list_all_iff obj_key_def)
  have "\<forall>k \<in> set (map obj_key (applied as)). fst (snd k) = OperatorNamespace r"
    unfolding k using ns by (intro ballI, elim bspec) (rule in_set_takeD)
  then have "list_all (\<lambda>ob. Namespace (obj_meta ob) = OperatorNamespace r \<and> obj_kind ob \<in> set NamespacedOperandTypes) (applied as)"
    by (simp add: list_all_iff obj_key_def kind_watched)
  with t(1-4) u a dist c1(2) found(4) cr phases_sorted [OF t(2,3) a u(2)] show ?thesis
    by (intro exI [of _ gs] exI [of _ hs] exI [of _ as] exI [of _ us]) simp
  qed
next
  case (gone s1)
  with perform_result [OF gone(1)] assms(3) show ?thesis by simp
next
  case (unread e s1)
  with perform_result [OF unread(1)] assms(3) show ?thesis by simp
qed


lemma Reconcile_applies:
  assumes "owner_documented env" "client_ok s" "cache_ok s" "fst (envGetCR env req (world s)) = Inr cr"
    and "Reconcile env r req s = (None, s')"
  shows "\<exists>cs url obss new. resolved_components r cr url cs \<and>
    map (\<lambda>c. comp_Render (envYAML env) c cr) cs = map Inr obss \<and>
    calls s' = calls s @ new \<and> list_all2 (decorated env) (concat obss) (applied new) \<and>
    (url = [] \<longleftrightarrow> \<not> needs_discovery cr) \<and>
    (needs_discovery cr \<longrightarrow> verified_jwks (Issuer (Auth (API (Spec cr)))) url)"
  using assms(5)
proof (cases rule: Reconcile_cases)
  case (found cr1 s1 oc s2 s3)
  have cr: "cr1 = cr" using perform_result [OF found(1)] assms(4) by simp
  have c1: "client_ok s1" "cache_ok s1" "calls s1 = calls s @ [GetCR req]"
    using found(1) assms(2,3) by (auto simp: client_ok_def cache_ok_def)
  from update_status_calls [OF found(3)] obtain us where
    u: "calls s3 = calls s2 @ us" "us = [] \<or> (\<exists>cr'. us = [StatusUpdate cr'])" "ocError oc = None" by fastforce
  show ?thesis
  proof (rule reconcile_body_trace [OF assms(1) found(2) c1(1)])
    fix gs hs as obss url cs
    assume t: "calls s2 = calls s1 @ gs @ hs @ as" "secret_calls r gs" "discovery_calls r hs"
      "applies env (concat obss) (ocError oc = None) as"
      "obss \<noteq> [] \<or> ocReports oc \<noteq> [] \<or> ocError oc = None \<Longrightarrow> resolved_components r cr1 url cs"
      "map (\<lambda>c. comp_Render (envYAML env) c cr1) (take (length obss) cs) = map Inr obss"
      "ocError oc = None \<Longrightarrow> length obss = length cs \<and> length (ocReports oc) = length cs"
      "ocError oc = None \<Longrightarrow> cache_ok s1 \<Longrightarrow> (url = [] \<longleftrightarrow> \<not> needs_discovery cr1) \<and>
      (url \<noteq> [] \<longrightarrow> verified_jwks (Issuer (Auth (API (Spec cr1)))) url)"
    have "calls s' = calls s @ [GetCR req] @ gs @ hs @ as @ us" using found(4) t(1) c1(3) u(1) by simp
    moreover have "applied ([GetCR req] @ gs @ hs @ as @ us) = applied as"
      using call_groups(1) [OF t(2)] call_groups(2) [OF t(3)] applied_StatusUpdates [OF u(2)] by simp
    moreover have "list_all2 (decorated env) (concat obss) (applied as)"
      using t(4) u(3) unfolding applies_def by (metis take_all_iff order_refl)
    ultimately show ?thesis using t(5-8) u(3) c1(2) cr by (metis take_all_iff order_refl)
  qed
next
  case (gone s1)
  with perform_result [OF gone(1)] assms(4) show ?thesis by simp
next
  case (unread e s1)
  then show ?thesis by simp
qed

text \<open>
  A reconcile that returns no error has applied the whole bundle: the bundle resolved, every component
  rendered with the key-set URL of this reconcile, and the objects applied are those rendered, all
  of them, in order, up to owner references and the two hash annotations.  The key-set URL is absent
  exactly when none is needed, and verified for the configured issuer otherwise.
\<close>

theorem reconcile_success:
  assumes "owner_documented env" "client_ok s" "cache_ok s" "fst (envGetCR env req (world s)) = Inr cr"
    and "Reconcile env r req s = (None, s')"
  shows "\<exists>cs url obss new. resolved_components r cr url cs \<and>
    map (\<lambda>c. comp_Render (envYAML env) c cr) cs = map Inr obss \<and>
    calls s' = calls s @ new \<and> list_all2 (decorated env) (concat obss) (applied new) \<and>
    (url = [] \<longleftrightarrow> \<not> needs_discovery cr) \<and>
    (needs_discovery cr \<longrightarrow> verified_jwks (Issuer (Auth (API (Spec cr)))) url)"
  using assms by (rule Reconcile_applies)

lemma Reconcile_counted:
  assumes "owner_documented env" "Reconcile env r req s = (err, s')"
  shows "mReconcileDuration (metrics s') = mReconcileDuration (metrics s) + 1 \<and>
    (\<exists>stage \<in> set error_stages. \<exists>failing. counted stage failing s s' \<and>
      (failing \<longrightarrow> err \<noteq> None \<and> mAppliedConfig (metrics s') = mAppliedConfig (metrics s)) \<and>
      (err \<noteq> None \<and> \<not> failing \<longrightarrow> (\<exists>cr'. last (calls s') = StatusUpdate cr')))"
  using assms(2)
proof (cases rule: Reconcile_cases)
  case (gone s1)
  then have "counted ''get'' False s s'" by (simp add: counted_def)
  with gone show ?thesis by (auto simp: error_stages_def)
next
  case (unread e s1)
  then have "counted ''get'' True s s'" by (simp add: counted_def IncReconcileError_def)
  with unread show ?thesis by (auto simp: error_stages_def)
next
  case (found cr s1 oc s2 s3)
  note b = reconcile_body_counted [OF assms(1) found(2)]
  from b(1) obtain stage where stage: "stage \<in> set error_stages" "counted stage (ocError oc \<noteq> None) s1 s2"
    by (auto simp: error_stages_def)
  from update_status_calls [OF found(3)] obtain us where
    u: "calls s3 = calls s2 @ us" "metrics s3 = metrics s2"
      "us = [] \<and> err = ocError oc \<or> (\<exists>cr'. us = [StatusUpdate cr'] \<and> (err = None \<longrightarrow> ocError oc = None))" by blast
  have "counted stage (ocError oc \<noteq> None) s s'"
    using stage(2) u(2) found(1,4) by (simp add: counted_def)
  moreover have "err \<noteq> None \<and> \<not> ocError oc \<noteq> None \<longrightarrow> (\<exists>cr'. last (calls s') = StatusUpdate cr')"
    using u(1,3) found(4) by auto
  moreover have "ocError oc \<noteq> None \<longrightarrow> err \<noteq> None" using u(3) by auto
  moreover have "mReconcileDuration (metrics s') = mReconcileDuration (metrics s) + 1"
    using b(2) u(2) found(1,4) by simp
  moreover have "ocError oc \<noteq> None \<longrightarrow> mAppliedConfig (metrics s') = mAppliedConfig (metrics s)"
    using b(4) u(2) found(1,4) by simp
  ultimately show ?thesis using stage(1) by blast
qed

text \<open>
  C28: Every reconcile is observed once in the latency histogram, and a failure is counted under exactly one
  of the documented stages; the one failure that no stage counts is that of the status update
  itself, which is then the last call.  A counted failure leaves the applied-config gauge alone.
\<close>

theorem reconcile_errors_counted:
  assumes "owner_documented env" "Reconcile env r req s = (err, s')"
  shows "mReconcileDuration (metrics s') = mReconcileDuration (metrics s) + 1 \<and>
    (\<exists>stage \<in> set error_stages. \<exists>failing. counted stage failing s s' \<and>
      (failing \<longrightarrow> err \<noteq> None \<and> mAppliedConfig (metrics s') = mAppliedConfig (metrics s)) \<and>
      (err \<noteq> None \<and> \<not> failing \<longrightarrow> (\<exists>cr'. last (calls s') = StatusUpdate cr')))"
  using assms by (rule Reconcile_counted)

text \<open>
  When the resource is gone, a reconcile reads it, succeeds, and does nothing else: no other call,
  no metric but the latency, no change of the reconciler's cache and client.
\<close>

theorem reconcile_not_found:
  assumes "envGetCR env req (world s) = (Inl NotFound, w)"
  shows "Reconcile env r req s =
    (None, s\<lparr>world := w, calls := calls s @ [GetCR req], metrics := ObserveReconcile (metrics s)\<rparr>)"
  using assms by (simp add: Reconcile_def perform_def with_metrics_def)

subsection \<open>An example reconcile\<close>

abbreviation example_cr :: HyperFleetConfig where "example_cr \<equiv> example_config None None None"

abbreviation example_world :: "unit env" where "example_world \<equiv> example_env example_cr"

lemma example_env_sel [simp]:
  "envGetCR (example_env cr) n w = (Inr cr, w)" "envGetSecret (example_env cr) n m w = (Inr ''7'', w)"
  "envGetDeployment (example_env cr) n m w = (Inl NotFound, w)" "envApply (example_env cr) ob w = (None, w)"
  "envRefresh (example_env cr) ob w = (Inr ob, w)" "envStatusUpdate (example_env cr) c w = (None, w)"
  "envSetControllerReference (example_env cr) c ob = Inr ob" "envToUnstructured (example_env cr) ob = None"
  "envYAML (example_env cr) = (\<lambda>_. Inr ''y'')" "envSetStatusCondition (example_env cr) w = example_ssc 5"
  by (simp_all add: example_env_def)

lemma example_owner: "owner_documented (example_env cr)"
proof -
  have "\<exists>os. ob = with_owners os ob" for ob
    by (intro exI [of _ "OwnerReferences (obj_meta ob)"]) (cases ob; simp add: with_owners_def)
  then show ?thesis by (simp add: owner_documented_def)
qed

text \<open>The world of the example is healthy, so a reconcile in it succeeds.\<close>

lemma example_configured: "configured example_reconciler"
  by (simp add: configured_def example_reconciler_def usable_broker_def broker_consts)

lemma example_discoverable:
  "discoverable (example_env cr) (\<lambda>_. True) (example_config None None tls) s"
  by (simp add: discoverable_def Let_def example_env_def example_provider)

lemma example_reconcile:
  fixes s :: "unit sys"
  shows "\<exists>s'. Reconcile (example_env (example_config None None tls)) example_reconciler ''cluster'' s = (None, s')"
  using example_healthy.reconcile_ok [OF _ example_discoverable example_configured] by simp

lemma example_initial: "client_ok (init_sys w)" "cache_ok (init_sys w)"
  by (simp_all add: client_ok_def cache_ok_def init_sys_def)

theorem reconcile_gathers_then_acts_witness:
  "\<exists>err s' gs hs as us. Reconcile example_world example_reconciler ''cluster'' (init_sys ()) = (err, s') \<and>
     calls s' = [GetCR ''cluster''] @ gs @ hs @ as @ us \<and> secret_calls example_reconciler gs \<and> list_all acts as"
proof -
  obtain err s' where r: "Reconcile example_world example_reconciler ''cluster'' (init_sys ()) = (err, s')" by fastforce
  have "fst (envGetCR example_world ''cluster'' (world (init_sys ()))) = Inr example_cr" by simp
  from reconcile_gathers_then_acts [OF example_owner example_initial(1) this r] obtain gs hs as us where
    "calls s' = calls (init_sys ()) @ [GetCR ''cluster''] @ gs @ hs @ as @ us" "secret_calls example_reconciler gs" "list_all acts as"
    by blast
  with r show ?thesis by (intro exI [of _ err] exI [of _ s'] exI [of _ gs] exI [of _ hs] exI [of _ as] exI [of _ us]) (simp add: init_sys_def)
qed

theorem reconcile_success_witness:
  "\<exists>s' cs url obss. Reconcile example_world example_reconciler ''cluster'' (init_sys ()) = (None, s') \<and>
     resolved_components example_reconciler example_cr url cs \<and> url \<noteq> [] \<and>
     map (\<lambda>c. comp_Render (\<lambda>_. Inr ''y'') c example_cr) cs = map Inr obss \<and>
     list_all2 (decorated example_world) (concat obss) (applied (calls s'))"
proof -
  obtain s' where r: "Reconcile example_world example_reconciler ''cluster'' (init_sys ()) = (None, s')"
    using example_reconcile by blast
  have "fst (envGetCR example_world ''cluster'' (world (init_sys ()))) = Inr example_cr" by simp
  from reconcile_success [OF example_owner example_initial this r] obtain cs url obss new where
    "resolved_components example_reconciler example_cr url cs"
    "map (\<lambda>c. comp_Render (envYAML example_world) c example_cr) cs = map Inr obss"
    "calls s' = calls (init_sys ()) @ new" "list_all2 (decorated example_world) (concat obss) (applied new)"
    "url = [] \<longleftrightarrow> \<not> needs_discovery example_cr" by blast
  with r show ?thesis
    by (intro exI [of _ s'] exI [of _ cs] exI [of _ url] exI [of _ obss])
       (simp add: init_sys_def needs_discovery_def AuthEnabled_def)
qed

theorem reconcile_errors_counted_witness:
  "\<exists>s'. Reconcile example_world example_reconciler ''cluster'' (init_sys ()) = (None, s') \<and>
     mReconcileDuration (metrics s') = 1"
proof -
  obtain s' where r: "Reconcile example_world example_reconciler ''cluster'' (init_sys ()) = (None, s')"
    using example_reconcile by blast
  from reconcile_errors_counted [OF example_owner r] r show ?thesis
    by (auto simp: init_sys_def zero_metrics_def)
qed

theorem reconcile_not_found_witness:
  "\<exists>s'. Reconcile (example_world\<lparr>envGetCR := \<lambda>_ w. (Inl NotFound, w)\<rparr>) example_reconciler ''cluster'' (init_sys ()) = (None, s') \<and>
     calls s' = [GetCR ''cluster'']"
  using reconcile_not_found [of "example_world\<lparr>envGetCR := \<lambda>_ w. (Inl NotFound, w)\<rparr>" "''cluster''" "init_sys ()" "()" example_reconciler]
  by (simp add: init_sys_def)

end
