(* ===== verification/Reconcile_Status.thy ===== *)
theory Reconcile_Status
  imports Controller_Properties
begin

section \<open>What a reconcile publishes\<close>

text \<open>
  The status that the resource carries after a reconcile, as one reconcile leaves it: the one it
  wrote, or the one it read when nothing changed.  A counted failure leaves the published health
  alone; a success publishes a status that is consistent in itself and names the missing Secrets.
\<close>

subsection \<open>The status that is left\<close>

definition status_updates :: "call list \<Rightarrow> HyperFleetConfig list" where
  "status_updates cs = concat (map (\<lambda>c. case c of StatusUpdate cr \<Rightarrow> [cr] | _ \<Rightarrow> []) cs)"

lemma status_updates_simps [simp]:
  "status_updates [] = []" "status_updates (cs @ ds) = status_updates cs @ status_updates ds"
  "status_updates (StatusUpdate cr # cs) = cr # status_updates cs" "status_updates (GetCR n # cs) = status_updates cs"
  by (simp_all add: status_updates_def)

lemma status_updates_groups:
  "list_all gathers gs \<Longrightarrow> status_updates gs = []" "list_all acts as \<Longrightarrow> status_updates as = []"
  by (auto simp: status_updates_def list_all_iff gathers_def acts_def split: call.splits)

definition left_by :: "HyperFleetConfig \<Rightarrow> call list \<Rightarrow> HyperFleetConfig" where
  "left_by cr cs = (case status_updates cs of [] \<Rightarrow> cr | cr' # _ \<Rightarrow> cr')"

subsection \<open>More on the aggregation\<close>

lemma aggregateStatus_degraded:
  assumes "ssc_documented ssc" "distinct (map cType (Conditions (Status cr)))"
    and "aggregateStatus ssc cr ccs collected missing err = (cr', changed)"
  shows "(\<exists>d. find_cond ConditionDegraded (Conditions (Status cr')) = Some d \<and>
      same_content d (stamped (crGeneration cr) (degradedCondition missing err))) \<and>
    (\<not> changed \<longrightarrow> Conditions (Status cr') = Conditions (Status cr))"
proof (rule aggregateStatus_cases [OF assms(3)])
  fix conds ch0
  assume s: "set_conditions ssc (crGeneration cr) (rolled_up ccs collected missing err) (Conditions (Status cr)) False = (conds, ch0)"
    and r: "\<not> collected \<Longrightarrow> cr' = cr\<lparr>Status := (Status cr)\<lparr>Conditions := conds\<rparr>\<rparr> \<and> changed = ch0"
      "collected \<Longrightarrow> cr' = cr\<lparr>Status := \<lparr>ObservedGeneration = crGeneration cr, Conditions = conds,
        Components = merged_entries ssc cr ccs\<rparr>\<rparr> \<and>
      (changed \<longleftrightarrow> ch0 \<or> SortFunc ccName (Components (Status cr)) \<noteq> merged_entries ssc cr ccs \<or>
         ObservedGeneration (Status cr) \<noteq> crGeneration cr)"
  have c: "Conditions (Status cr') = conds" "\<not> changed \<longrightarrow> \<not> ch0" using r by (cases collected; simp)+
  have "degradedCondition missing err \<in> set (rolled_up ccs collected missing err)" by (simp add: rolled_up_def)
  with set_conditions_spec [OF assms(1,2) rolled_up_types s] c show ?thesis by fastforce
qed

lemma merged_entries_all:
  assumes "ssc_documented ssc" "wf_status (Status cr)" "wf_reports ccs"
  shows "(\<forall>e \<in> set (merged_entries ssc cr ccs). \<forall>c \<in> set (ccConditions e). cType c = t \<longrightarrow> cStatus c = v) \<longleftrightarrow>
    (\<forall>e \<in> set ccs. \<forall>c \<in> set (ccConditions e). cType c = t \<longrightarrow> cStatus c = v)"
proof -
  let ?m = "merge_entry ssc (crGeneration cr) (Components (Status cr))"
  have "(\<forall>c \<in> set (ccConditions (?m e)). cType c = t \<longrightarrow> cStatus c = v) \<longleftrightarrow>
      (\<forall>c \<in> set (ccConditions e). cType c = t \<longrightarrow> cStatus c = v)" if e: "e \<in> set ccs" for e
  proof -
    have wfc: "list_all (\<lambda>e. distinct (map cType (ccConditions e))) (Components (Status cr))"
      and wfe: "distinct (map cType (ccConditions e))"
      using assms e by (auto simp: wf_status_def wf_reports_def list_all_iff)
    note m = merge_entry_spec [OF assms(1) wfc wfe, where g = "crGeneration cr"]
    have one: "\<exists>x \<in> set (ccConditions (?m e)). cType x = cType c \<and> cStatus x = cStatus c" if "c \<in> set (ccConditions e)" for c
      using m(4) that by (fastforce simp: same_content_def dest: find_cond_Some)
    have two: "\<exists>c \<in> set (ccConditions e). cType c = cType x \<and> cStatus c = cStatus x" if x: "x \<in> set (ccConditions (?m e))" for x
    proof -
      from x m(3) obtain c where c: "c \<in> set (ccConditions e)" "cType c = cType x" by (metis (no_types) image_iff list.set_map)
      from m(4) c(1) obtain y where "find_cond (cType c) (ccConditions (?m e)) = Some y" "cStatus y = cStatus c"
        by (fastforce simp: same_content_def)
      with find_cond_distinct [OF m(2) x] c show ?thesis by auto
    qed
    from one two show ?thesis by metis
  qed
  then show ?thesis by (simp add: merged_entries_def)
qed

text \<open>A status whose top-level conditions agree with its own component entries.\<close>

definition status_consistent :: "HyperFleetConfigStatus \<Rightarrow> bool" where
  "status_consistent st \<longleftrightarrow> (\<exists>a p. find_cond ConditionAvailable (Conditions st) = Some a \<and>
     find_cond ConditionProgressing (Conditions st) = Some p \<and>
     (cStatus a = ConditionTrue \<longleftrightarrow> (\<forall>e \<in> set (Components st). \<forall>c \<in> set (ccConditions e).
        cType c = ConditionAvailable \<longrightarrow> cStatus c = ConditionTrue)) \<and>
     (cStatus p = ConditionFalse \<longleftrightarrow> (\<forall>e \<in> set (Components st). \<forall>c \<in> set (ccConditions e).
        cType c = ConditionProgressing \<longrightarrow> cStatus c = ConditionFalse)))"

lemma aggregateStatus_consistent:
  assumes "ssc_documented ssc" "wf_status (Status cr)" "wf_reports ccs"
    and "aggregateStatus ssc cr ccs True missing err = (cr', changed)"
  shows "status_consistent (Status cr')" "set (map ccName (Components (Status cr'))) = set (map ccName ccs)"
    "\<not> changed \<Longrightarrow> ObservedGeneration (Status cr) = crGeneration cr \<and> Conditions (Status cr) = Conditions (Status cr') \<and>
       set (Components (Status cr)) = set (Components (Status cr'))"
proof -
  have d: "distinct (map cType (Conditions (Status cr)))" using assms(2) by (simp add: wf_status_def)
  have m: "Components (Status cr') = merged_entries ssc cr ccs \<and>
      (\<not> changed \<longrightarrow> SortFunc ccName (Components (Status cr)) = merged_entries ssc cr ccs \<and>
         ObservedGeneration (Status cr) = crGeneration cr)"
    by (rule aggregateStatus_cases [OF assms(4)]) auto
  note c = aggregateStatus_complete [OF assms(1) d assms(4)] and all = merged_entries_all [OF assms(1-3)]
  show "status_consistent (Status cr')"
    unfolding status_consistent_def m [THEN conjunct1] all using c by blast
  show "set (map ccName (Components (Status cr'))) = set (map ccName ccs)"
    unfolding m [THEN conjunct1] merged_entries_names by simp
  assume "\<not> changed"
  with m have "SortFunc ccName (Components (Status cr)) = Components (Status cr')"
    "ObservedGeneration (Status cr) = crGeneration cr" by simp_all
  moreover from this(1) have "set (Components (Status cr)) = set (Components (Status cr'))" by (metis set_SortFunc)
  ultimately show "ObservedGeneration (Status cr) = crGeneration cr \<and> Conditions (Status cr) = Conditions (Status cr') \<and>
       set (Components (Status cr)) = set (Components (Status cr'))"
    using aggregateStatus_degraded [OF assms(1) d assms(4)] \<open>\<not> changed\<close> by simp
qed


lemma consistent_same:
  assumes "status_consistent st" "Conditions st' = Conditions st" "set (Components st') = set (Components st)"
  shows "status_consistent st'"
  using assms by (simp add: status_consistent_def)

subsection \<open>The missing Secrets\<close>

text \<open>Secrets that do not change while a reconcile reads them: each read has one answer.\<close>

definition secrets_fixed :: "'w env \<Rightarrow> (string \<Rightarrow> string \<Rightarrow> string result) \<Rightarrow> bool" where
  "secrets_fixed env get \<longleftrightarrow> (\<forall>ns n w. fst (envGetSecret env ns n w) = get ns n)"

definition missing_roles ::
  "(string \<Rightarrow> string \<Rightarrow> string result) \<Rightarrow> reconciler \<Rightarrow> HyperFleetConfig \<Rightarrow> bundle_Component list \<Rightarrow> string list" where
  "missing_roles get r cr cs = concat (map (\<lambda>c. map Role (filter (\<lambda>ref.
     get (OperatorNamespace r) (SecretName ref) = Inl NotFound) (comp_ReferencedSecrets c cr))) cs)"

lemma resolveSecretEntries_missing:
  assumes "secrets_fixed env get"
  shows "resolveSecretEntries (get_secret env) ns refs s = (Inr es, s') \<Longrightarrow>
    map heId (filter (\<lambda>e. \<not> hePresent e) es) = map Role (filter (\<lambda>ref. get ns (SecretName ref) = Inl NotFound) refs)"
proof (induction refs arbitrary: s es s')
  case (Cons ref refs)
  obtain a s1 where g: "get_secret env ns (SecretName ref) s = (a, s1)" by fastforce
  then have a: "a = get ns (SecretName ref)"
    using assms unfolding get_secret_def secrets_fixed_def by (metis perform_result)
  obtain res s2 where r: "resolveSecretEntries (get_secret env) ns refs s1 = (res, s2)" by fastforce
  have "\<exists>es1 e. res = Inr es1 \<and> es = e # es1 \<and> heId e = Role ref \<and> (hePresent e \<longleftrightarrow> a \<noteq> Inl NotFound)"
    using Cons.prems g r
    by (cases a; cases res) (auto simp: absent_entry_def present_entry_def split: if_splits)
  then obtain es1 e where e: "res = Inr es1" "es = e # es1" "heId e = Role ref" "hePresent e \<longleftrightarrow> a \<noteq> Inl NotFound"
    by blast
  from Cons.IH [OF r [unfolded e(1)]] show ?case by (simp add: e(2,3,4) flip: a)
qed simp

lemma collect_secrets_missing:
  assumes "secrets_fixed env get"
  shows "collect_secrets env r cr cs entries missing s = ((None, entries', missing'), s') \<Longrightarrow>
    missing' = missing @ missing_roles get r cr cs"
proof (induction cs arbitrary: entries missing s)
  case (Cons c cs)
  obtain a s1 where g: "resolveSecretEntries (get_secret env) (OperatorNamespace r) (comp_ReferencedSecrets c cr) s = (a, s1)"
    by fastforce
  with Cons.prems obtain es where a: "a = Inr es"
    "collect_secrets env r cr cs (entries(comp_Name c \<mapsto> es))
            (missing @ map heId (filter (\<lambda>e. \<not> hePresent e) es)) s1 = ((None, entries', missing'), s')"
    by (cases a) auto
  from Cons.IH [OF a(2)] resolveSecretEntries_missing [OF assms g [unfolded a(1)]]
  show ?case by (simp add: missing_roles_def)
qed (simp add: missing_roles_def)

text \<open>The references do not depend on the URLs that are threaded through.\<close>

lemma missing_roles_url:
  "missing_roles get r cr (SetResolvedJWKSURL cs url) = missing_roles get r cr cs"
  by (induction cs) (auto simp: missing_roles_def api_ReferencedSecrets_def split: bundle_Component.splits)

subsection \<open>The outcome of the body\<close>

lemma reconcile_body_outcome:
  assumes "reconcile_body env r cr s = (oc, s')" "ocError oc = None" "owner_documented env"
  obtains cs url where "resolved_components r cr url cs" "map ccName (ocReports oc) = map comp_Name cs"
    "\<And>get. secrets_fixed env get \<Longrightarrow> ocMissing oc = slices_Compact (slices_Sort (missing_roles get r cr cs))" "ocCollected oc"
    "wf_reports (ocReports oc)"
  using assms(1)
proof (cases rule: reconcile_body_cases)
  case (comps cs0 entries missing s1 s2 url err hashes ccs s3)
  let ?cs = "SetResolvedJWKSURL (SetAPIBaseURL cs0 (APIBaseURL cr (OperatorNamespace r))) url"
  have rc: "resolved_components r cr url ?cs" using comps(1) by (auto simp: resolved_components_def)
  have e: "err = None" using comps(5) assms(2) by simp
  from reconcile_components_spec [OF assms(3) comps(4)] e obtain new where
    new: "ccs = [] @ new" "map ccName new = map comp_Name (take (length new) ?cs)" "length new = length ?cs"
      "list_all (\<lambda>cc. map cType (ccConditions cc) = [ConditionAvailable, ConditionProgressing]) new" by blast
  then have names: "map ccName ccs = map comp_Name ?cs" by simp
  have "wf_reports ccs"
    using resolved_names(1) [OF rc] names new(1,4) by (auto simp: wf_reports_def list_all_iff)
  moreover have "missing = missing_roles get r cr ?cs" if "secrets_fixed env get" for get
    using collect_secrets_missing [OF that comps(2)] by (simp add: missing_roles_url)
  ultimately show thesis using rc names comps(5) e by (intro that [of url ?cs]) simp_all
qed (use assms(2) in \<open>auto simp: failed_def\<close>)


subsection \<open>The whole reconcile\<close>

lemma calls_prefix_body:
  assumes "owner_documented env" "reconcile_body env r cr s = (oc, s')" "client_ok s"
  obtains new where "calls s' = calls s @ new" "status_updates new = []"
proof (rule reconcile_body_trace [OF assms])
  fix gs hs as obss
  assume "calls s' = calls s @ gs @ hs @ as" "secret_calls r gs" "discovery_calls r hs"
    "applies env (concat obss) (ocError oc = None) as"
  moreover from this have "list_all gathers gs" "list_all gathers hs" "list_all acts as"
    by (auto simp: applies_def dest: secret_calls_gather discovery_calls_gather)
  ultimately show thesis by (intro that [of "gs @ hs @ as"]) (simp_all add: status_updates_groups)
qed

lemma Reconcile_found:
  assumes "owner_documented env" "client_ok s" "fst (envGetCR env req (world s)) = Inr cr"
    and "Reconcile env r req s = (err, s')"
  obtains s1 oc s2 new where "reconcile_body env r cr s1 = (oc, s2)" "client_ok s1" "metrics s1 = metrics s"
    "same_but_calls s s1"
    "calls s' = calls s @ new" "mReconcileErrors (metrics s') = mReconcileErrors (metrics s2)"
    "err = None \<Longrightarrow> ocError oc = None"
    "\<exists>w cr' ch. aggregateStatus (envSetStatusCondition env w) cr (ocReports oc) (ocCollected oc) (ocMissing oc) (ocError oc) = (cr', ch) \<and>
       status_updates new = (if ch then [cr'] else [])"
  using assms(4)
proof (cases rule: Reconcile_cases)
  case (found cr1 s1 oc s2 s3)
  have cr: "cr1 = cr" using perform_result [OF found(1)] assms(3) by simp
  have c1: "client_ok s1" "metrics s1 = metrics s" "calls s1 = calls s @ [GetCR req]"
    using found(1) assms(2) by (auto simp: client_ok_def)
  from calls_prefix_body [OF assms(1) found(2) c1(1)] obtain bs where
    b: "calls s2 = calls s1 @ bs" "status_updates bs = []" .
  obtain cr' ch where ag: "aggregateStatus (envSetStatusCondition env (world s2)) cr1 (ocReports oc) (ocCollected oc) (ocMissing oc) (ocError oc) = (cr', ch)"
    by fastforce
  from update_status_calls [OF found(3)] ag obtain us where
    u: "calls s3 = calls s2 @ us" "metrics s3 = metrics s2" "us = (if ch then [StatusUpdate cr'] else [])" "err = None \<longrightarrow> ocError oc = None"
    by fastforce
  have "same_but_calls s s1" using found(1) by (rule perform_same)
  moreover have "calls s' = calls s @ [GetCR req] @ bs @ us" using found(4) u(1) b(1) c1(3) by simp
  moreover have "status_updates ([GetCR req] @ bs @ us) = (if ch then [cr'] else [])" using b(2) u(3) by simp
  moreover have "mReconcileErrors (metrics s') = mReconcileErrors (metrics s2)" using found(4) u(2) by simp
  ultimately show thesis using found(2) c1(1,2) u(4) ag unfolding cr by (intro that) blast+
qed (use assms(3) in \<open>auto dest: perform_result\<close>)

text \<open>
  C18: A reconcile that fails in any counted stage never touches the health that it did not compute: of
  the published status only the Degraded condition may change, which is then True, carries the
  current generation and has one of the two failure reasons; Available, Progressing, the component
  entries and the observed generation stay as they were read, and so does the spec.
\<close>

theorem failed_reconcile_keeps_health:
  assumes "owner_documented env" "\<And>w. ssc_documented (envSetStatusCondition env w)" "client_ok s"
    and "fst (envGetCR env req (world s)) = Inr cr" "wf_status (Status cr)"
    and "Reconcile env r req s = (err, s')" "mReconcileErrors (metrics s') \<noteq> mReconcileErrors (metrics s)"
  shows "\<exists>new d. calls s' = calls s @ new \<and> length (status_updates new) \<le> 1 \<and>
    left_by cr new = cr\<lparr>Status := (Status cr)\<lparr>Conditions := Conditions (Status (left_by cr new))\<rparr>\<rparr> \<and>
    (\<forall>t. t \<noteq> ConditionDegraded \<longrightarrow>
       find_cond t (Conditions (Status (left_by cr new))) = find_cond t (Conditions (Status cr))) \<and>
    find_cond ConditionDegraded (Conditions (Status (left_by cr new))) = Some d \<and> cStatus d = ConditionTrue \<and>
    cReason d \<in> {ReasonReferencedSecretMissing, ReasonReconcileError} \<and> cObservedGeneration d = crGeneration cr"
proof (rule Reconcile_found [OF assms(1,3,4,6)])
  fix s1 oc s2 new
  assume b: "reconcile_body env r cr s1 = (oc, s2)" "client_ok s1" "metrics s1 = metrics s" "calls s' = calls s @ new"
      "mReconcileErrors (metrics s') = mReconcileErrors (metrics s2)"
    and ag: "\<exists>w cr' ch. aggregateStatus (envSetStatusCondition env w) cr (ocReports oc) (ocCollected oc) (ocMissing oc) (ocError oc) = (cr', ch) \<and>
       status_updates new = (if ch then [cr'] else [])"
  note c = reconcile_body_counted [OF assms(1) b(1)]
  from c(1) obtain stage where "counted stage (ocError oc \<noteq> None) s1 s2" by blast
  with assms(7) b(3,5) have e: "ocError oc \<noteq> None" by (auto simp: counted_def)
  with c(3) have nc: "ocCollected oc = False" by simp
  from ag obtain w cr' ch where a: "aggregateStatus (envSetStatusCondition env w) cr (ocReports oc) False (ocMissing oc) (ocError oc) = (cr', ch)"
    "status_updates new = (if ch then [cr'] else [])" unfolding nc by blast
  have "distinct (map cType (Conditions (Status cr)))" using assms(5) by (simp add: wf_status_def)
  note i = aggregateStatus_incomplete [OF assms(2) this a(1)]
  then have "left_by cr new = cr'" using a(2) by (auto simp: left_by_def)
  with i b(4) a(2) e show ?thesis by (intro exI [of _ new]) auto
qed

text \<open>
  C19: A reconcile that succeeds leaves a published status of the current generation that is consistent
  in itself: Available and Progressing are the roll-up of the component entries beside them, and
  there is one entry for each component of the bundle.  If the Secrets do not change meanwhile,
  Degraded is True exactly when a Secret that some component references does not exist, and its
  message lists the roles of the missing Secrets, sorted and without repetition.
\<close>

theorem successful_reconcile_publishes:
  assumes "owner_documented env" "\<And>w. ssc_documented (envSetStatusCondition env w)" "client_ok s"
    and "fst (envGetCR env req (world s)) = Inr cr" "wf_status (Status cr)"
    and "Reconcile env r req s = (None, s')"
  shows "\<exists>new cs url d. calls s' = calls s @ new \<and> resolved_components r cr url cs \<and>
    ObservedGeneration (Status (left_by cr new)) = crGeneration cr \<and>
    status_consistent (Status (left_by cr new)) \<and>
    set (map ccName (Components (Status (left_by cr new)))) = set (map comp_Name cs) \<and>
    find_cond ConditionDegraded (Conditions (Status (left_by cr new))) = Some d \<and>
    (\<forall>get. secrets_fixed env get \<longrightarrow>
       (cStatus d = ConditionTrue \<longleftrightarrow> (\<exists>c \<in> set cs. \<exists>ref \<in> set (comp_ReferencedSecrets c cr).
          get (OperatorNamespace r) (SecretName ref) = Inl NotFound)) \<and>
       (cStatus d = ConditionTrue \<longrightarrow> cMessage d =
          ''referenced secret(s) missing in the operator'' @ [CHR 0x27] @ ''s namespace: '' @
          strings_Join (slices_Compact (slices_Sort (missing_roles get r cr cs))) '', ''))"
proof (rule Reconcile_found [OF assms(1,3,4,6)])
  fix s1 oc s2 new
  assume b: "reconcile_body env r cr s1 = (oc, s2)" "client_ok s1" "calls s' = calls s @ new"
    and e: "None = None \<Longrightarrow> ocError oc = None"
    and ag: "\<exists>w cr' ch. aggregateStatus (envSetStatusCondition env w) cr (ocReports oc) (ocCollected oc) (ocMissing oc) (ocError oc) = (cr', ch) \<and>
       status_updates new = (if ch then [cr'] else [])"
  have e: "ocError oc = None" using e by simp
  show ?thesis
  proof (rule reconcile_body_outcome [OF b(1) e assms(1)])
    fix cs url
    assume o: "resolved_components r cr url cs" "map ccName (ocReports oc) = map comp_Name cs"
      and missing: "\<And>get. secrets_fixed env get \<Longrightarrow> ocMissing oc = slices_Compact (slices_Sort (missing_roles get r cr cs))"
      and oc: "ocCollected oc" "wf_reports (ocReports oc)"
    from ag obtain w cr' ch where a: "aggregateStatus (envSetStatusCondition env w) cr (ocReports oc) True (ocMissing oc) None = (cr', ch)"
      "status_updates new = (if ch then [cr'] else [])" using oc(1) e by auto
    have wf: "distinct (map cType (Conditions (Status cr)))" using assms(5) by (simp add: wf_status_def)
    note ac = aggregateStatus_consistent [OF assms(2) assms(5) oc(2) a(1)]
    note de = aggregateStatus_degraded [OF assms(2) wf a(1)] and com = aggregateStatus_complete [OF assms(2) wf a(1)]
    from de obtain d where d: "find_cond ConditionDegraded (Conditions (Status cr')) = Some d"
      "same_content d (stamped (crGeneration cr) (degradedCondition (ocMissing oc) None))" by blast
    have same: "Conditions (Status (left_by cr new)) = Conditions (Status cr')"
        "set (Components (Status (left_by cr new))) = set (Components (Status cr'))"
        "ObservedGeneration (Status (left_by cr new)) = crGeneration cr"
      using a(2) ac(3) com by (cases ch; simp add: left_by_def)+
    have "(cStatus d = ConditionTrue \<longleftrightarrow> (\<exists>c \<in> set cs. \<exists>ref \<in> set (comp_ReferencedSecrets c cr).
          get (OperatorNamespace r) (SecretName ref) = Inl NotFound)) \<and>
       (cStatus d = ConditionTrue \<longrightarrow> cMessage d =
          ''referenced secret(s) missing in the operator'' @ [CHR 0x27] @ ''s namespace: '' @
          strings_Join (slices_Compact (slices_Sort (missing_roles get r cr cs))) '', '')" if g: "secrets_fixed env get" for get
    proof -
      have "missing_roles get r cr cs \<noteq> [] \<longleftrightarrow> (\<exists>c \<in> set cs. \<exists>ref \<in> set (comp_ReferencedSecrets c cr).
         get (OperatorNamespace r) (SecretName ref) = Inl NotFound)"
        by (auto simp: missing_roles_def filter_empty_conv)
      moreover have "cStatus d = ConditionTrue \<longleftrightarrow> missing_roles get r cr cs \<noteq> []"
        using d(2) by (simp add: same_content_def degraded_status missing [OF g])
      moreover have "missing_roles get r cr cs \<noteq> [] \<longrightarrow> cMessage d =
         ''referenced secret(s) missing in the operator'' @ [CHR 0x27] @ ''s namespace: '' @
         strings_Join (slices_Compact (slices_Sort (missing_roles get r cr cs))) '', ''"
        using d(2) by (simp add: same_content_def degradedCondition_def missing [OF g] condition_def)
      ultimately show ?thesis by simp
    qed
    moreover have "status_consistent (Status (left_by cr new))"
      by (rule consistent_same [OF ac(1) same(1,2)])
    moreover have "set (map ccName (Components (Status (left_by cr new)))) = set (map comp_Name cs)"
      using ac(2) same(2) o(2) by (metis list.set_map)
    ultimately show ?thesis using b(3) o(1) same(1,3) d(1)
      by (intro exI [of _ new] exI [of _ cs] exI [of _ url] exI [of _ d]) simp
  qed
qed


subsection \<open>Witnesses\<close>

lemma example_ssc_env: "ssc_documented (envSetStatusCondition example_world w)"
  by (simp add: example_ssc_documented)

theorem failed_reconcile_keeps_health_witness:
  "\<exists>err s' d. Reconcile example_world (example_reconciler\<lparr>rBrokerInfo := None\<rparr>) ''cluster'' (init_sys ()) = (err, s') \<and>
     find_cond ConditionDegraded (Conditions (Status (left_by example_cr (calls s')))) = Some d \<and> cStatus d = ConditionTrue"
proof -
  let ?r = "example_reconciler\<lparr>rBrokerInfo := None\<rparr>"
  obtain err s' where r: "Reconcile example_world ?r ''cluster'' (init_sys ()) = (err, s')" by fastforce
  have cr: "fst (envGetCR example_world ''cluster'' (world (init_sys ()))) = Inr example_cr" by simp
  have "isl (Resolve (Bundle (Spec example_cr)) (bundle_config ?r))"
    by (cases "Resolve (Bundle (Spec example_cr)) (bundle_config ?r)") (auto simp: Resolve_iff bundle_config_def)
  then obtain e where e: "Resolve BundleCloudCAPI (bundle_config ?r) = Inl e" by (auto simp: isl_def)
  have m: "mReconcileErrors (metrics s') \<noteq> mReconcileErrors (metrics (init_sys ()))"
  proof (rule Reconcile_found [OF example_owner example_initial(1) cr r])
    fix s1 oc s2
    assume b: "reconcile_body example_world ?r example_cr s1 = (oc, s2)" "metrics s1 = metrics (init_sys ())"
      "mReconcileErrors (metrics s') = mReconcileErrors (metrics s2)"
    have "s2 = with_metrics (IncReconcileError ''bundle'') s1" using b(1) e by (simp add: reconcile_body_def)
    then have "mReconcileErrors (metrics s') ''bundle'' = Suc (mReconcileErrors (metrics (init_sys ())) ''bundle'')"
      using b(2,3) by (simp add: IncReconcileError_def)
    then show ?thesis by (metis n_not_Suc_n)
  qed
  from failed_reconcile_keeps_health [OF example_owner example_ssc_env example_initial(1) cr example_wf(2) r m]
  obtain new d where "calls s' = calls (init_sys ()) @ new"
    "find_cond ConditionDegraded (Conditions (Status (left_by example_cr new))) = Some d" "cStatus d = ConditionTrue" by blast
  with r show ?thesis by (intro exI [of _ err] exI [of _ s'] exI [of _ d]) (simp add: init_sys_def)
qed

theorem successful_reconcile_publishes_witness:
  "\<exists>s' d. Reconcile example_world example_reconciler ''cluster'' (init_sys ()) = (None, s') \<and>
     find_cond ConditionDegraded (Conditions (Status (left_by example_cr (calls s')))) = Some d \<and> cStatus d \<noteq> ConditionTrue"
proof -
  obtain s' where r: "Reconcile example_world example_reconciler ''cluster'' (init_sys ()) = (None, s')"
    using example_reconcile by blast
  have cr: "fst (envGetCR example_world ''cluster'' (world (init_sys ()))) = Inr example_cr" by simp
  have fx: "secrets_fixed example_world (\<lambda>_ _. Inr ''7'')" by (simp add: secrets_fixed_def)
  from successful_reconcile_publishes [OF example_owner example_ssc_env example_initial(1) cr example_wf(2) r]
  obtain new cs d where n: "calls s' = calls (init_sys ()) @ new"
    "find_cond ConditionDegraded (Conditions (Status (left_by example_cr new))) = Some d"
    and m: "\<forall>get. secrets_fixed example_world get \<longrightarrow> (cStatus d = ConditionTrue \<longleftrightarrow>
       (\<exists>c \<in> set cs. \<exists>ref \<in> set (comp_ReferencedSecrets c example_cr).
          get (OperatorNamespace example_reconciler) (SecretName ref) = Inl NotFound))" by blast
  from m fx have d: "cStatus d \<noteq> ConditionTrue" by auto
  from n(1) have "new = calls s'" by (simp add: init_sys_def)
  with r n(2) d show ?thesis by blast
qed

end
