(* ===== verification/Process_Lifetime.thy ===== *)
theory Process_Lifetime
  imports Startup Reconcile_Status
begin

section \<open>The life of the process\<close>

text \<open>
  The states that a running operator can reach: it starts with empty caches and published build
  information, the world moves in any way between reconciles, and reconciles run one at a time for
  any request (controller-runtime's default of one worker).  The invariants hold in every reachable
  state, by rule induction.
\<close>

subsection \<open>Reachable states\<close>

inductive process_step :: "'w env \<Rightarrow> reconciler \<Rightarrow> 'w sys \<Rightarrow> 'w sys \<Rightarrow> bool" for env :: "'w env" and r :: reconciler where
  moved: "process_step env r s (s\<lparr>world := w\<rparr>)"
| reconciled: "Reconcile env r req s = (err, s') \<Longrightarrow> process_step env r s s'"

inductive_cases process_stepE: "process_step env r s s'"

inductive reachable :: "'w env \<Rightarrow> reconciler \<Rightarrow> 'w sys \<Rightarrow> bool" for env :: "'w env" and r :: reconciler where
  start: "reachable env r ((init_sys w)\<lparr>metrics := metrics_Init commit goVersion zero_metrics\<rparr>)"
| step: "reachable env r s \<Longrightarrow> process_step env r s s' \<Longrightarrow> reachable env r s'"

subsection \<open>Where the calls of a reconcile go\<close>

text \<open>The documented behaviour of a refresh by key: it returns the object of that key.\<close>

definition refresh_documented :: "'w env \<Rightarrow> bool" where
  "refresh_documented env \<longleftrightarrow> (\<forall>ob w ob' w'. envRefresh env ob w = (Inr ob', w') \<longrightarrow> obj_key ob' = obj_key ob)"

text \<open>A call, other than the first read of the resource, that stays in the operator's namespace and
  uses the client that the reconciler is to use.\<close>

definition confined :: "reconciler \<Rightarrow> call \<Rightarrow> bool" where
  "confined r c \<longleftrightarrow> (case c of
       GetCR _ \<Rightarrow> False
     | GetSecret ns _ \<Rightarrow> ns = OperatorNamespace r
     | GetDeployment ns _ \<Rightarrow> ns = OperatorNamespace r
     | Apply ob \<Rightarrow> Namespace (obj_meta ob) = OperatorNamespace r
     | Refresh ob \<Rightarrow> Namespace (obj_meta ob) = OperatorNamespace r
     | StatusUpdate _ \<Rightarrow> True
     | HTTPGet c _ \<Rightarrow> c = (case HTTPClient r of Some c \<Rightarrow> c | None \<Rightarrow> newDiscoveryHTTPClient))"

definition calls_confined :: "reconciler \<Rightarrow> 'w sys \<Rightarrow> 'w sys \<Rightarrow> bool" where
  "calls_confined r s s' \<longleftrightarrow> (\<exists>cs. calls s' = calls s @ cs \<and> list_all (confined r) cs)"

lemma calls_confined_refl: "calls s' = calls s \<Longrightarrow> calls_confined r s s'"
  by (simp add: calls_confined_def)

lemma calls_confined_trans: "calls_confined r s t \<Longrightarrow> calls_confined r t u \<Longrightarrow> calls_confined r s u"
  by (auto simp: calls_confined_def)

lemma calls_confined_metrics [simp]: "calls_confined r s (with_metrics f t) = calls_confined r s t"
  "calls_confined r (with_metrics f s) t = calls_confined r s t"
  by (simp_all add: calls_confined_def)

lemma perform_confined: "perform c f s = (a, s') \<Longrightarrow> confined r c \<Longrightarrow> calls_confined r s s'"
  by (auto simp: calls_confined_def)

definition objs_in :: "string \<Rightarrow> obj list \<Rightarrow> bool" where
  "objs_in ns obs \<longleftrightarrow> list_all (\<lambda>ob. Namespace (obj_meta ob) = ns) obs"

lemma objs_in_simps [simp]: "objs_in ns []" "objs_in ns (ob # obs) \<longleftrightarrow> Namespace (obj_meta ob) = ns \<and> objs_in ns obs"
  by (simp_all add: objs_in_def)

lemma deployment_reads_confined: "objs_in (OperatorNamespace r) obs \<Longrightarrow> list_all (confined r) (deployment_reads obs)"
  by (induction obs) (auto simp: confined_def)

lemma same_key_namespace: "obj_key ob' = obj_key ob \<Longrightarrow> Namespace (obj_meta ob') = Namespace (obj_meta ob)"
  by (simp add: obj_key_def)

lemma apply_object_confined:
  assumes "owner_documented env" "refresh_documented env" "apply_object env cr ob s = ((ob', err), s')"
    and "Namespace (obj_meta ob) = OperatorNamespace r"
  shows "calls_confined r s s' \<and> (err = None \<longrightarrow> Namespace (obj_meta ob') = OperatorNamespace r)"
proof -
  have ns: "Namespace (obj_meta ob1) = OperatorNamespace r" if "envSetControllerReference env cr ob = Inr ob1" for ob1
  proof -
    from assms(1) that obtain os where "ob1 = with_owners os ob" unfolding owner_documented_def by blast
    then show ?thesis using same_key_namespace [OF obj_key_with_owners] assms(4) by simp
  qed
  show ?thesis
  proof (rule apply_object_cases [OF assms(3)])
    fix ob1 s1 e
    assume a: "envSetControllerReference env cr ob = Inr ob1" "perform (Apply ob1) (envApply env ob1) s = (Some e, s1)"
      "err = Some (Wrapf ''apply %s %q: %w'' [obj_kind ob, Name (obj_meta ob)] e)" "s' = s1"
    then show ?thesis using perform_confined [OF a(2), of r] ns by (simp add: confined_def)
  next
    fix ob1 s1 res
    assume a: "envSetControllerReference env cr ob = Inr ob1" "perform (Apply ob1) (envApply env ob1) s = (None, s1)"
      "perform (Refresh ob1) (envRefresh env ob1) s1 = (res, s')"
      "case res of Inl _ \<Rightarrow> err \<noteq> None | Inr ob2 \<Rightarrow> ob' = ob2 \<and> err = None"
    have "confined r (Apply ob1)" "confined r (Refresh ob1)" using ns [OF a(1)] by (simp_all add: confined_def)
    with perform_confined [OF a(2)] perform_confined [OF a(3)] calls_confined_trans have "calls_confined r s s'" by blast
    moreover have "Namespace (obj_meta ob') = OperatorNamespace r" if "err = None"
    proof -
      from a(4) that have "res = Inr ob'" by (auto split: sum.splits)
      with perform_step [OF a(3)] have "envRefresh env ob1 (world s1) = (Inr ob', world s')" by simp
      with assms(2) have "obj_key ob' = obj_key ob1" unfolding refresh_documented_def by blast
      from same_key_namespace [OF this] ns [OF a(1)] show ?thesis by simp
    qed
    ultimately show ?thesis by blast
  qed (simp_all add: calls_confined_refl)
qed

lemma apply_Objects_confined:
  assumes "owner_documented env" "refresh_documented env"
  shows "apply_Objects env cr obs s = ((obs', err), s') \<Longrightarrow> objs_in (OperatorNamespace r) obs \<Longrightarrow>
    calls_confined r s s' \<and> (err = None \<longrightarrow> objs_in (OperatorNamespace r) obs')"
proof (induction obs arbitrary: s obs')
  case (Cons ob obs)
  obtain ob1 e s1 where o: "apply_object env cr ob s = ((ob1, e), s1)" by (metis surj_pair)
  from Cons.prems(2) have "Namespace (obj_meta ob) = OperatorNamespace r" by simp
  note O = apply_object_confined [OF assms o this]
  show ?case
  proof (cases e)
    case None
    obtain obs2 e2 s2 where r: "apply_Objects env cr obs s1 = ((obs2, e2), s2)" by (metis surj_pair)
    with Cons.prems(1) o None have eq: "obs' = ob1 # obs2" "e2 = err" "s2 = s'" by auto
    from r [unfolded eq(2,3)] Cons.prems(2) have "calls_confined r s1 s' \<and> (err = None \<longrightarrow> objs_in (OperatorNamespace r) obs2)"
      by (intro Cons.IH) simp_all
    with O None eq show ?thesis by (auto intro: calls_confined_trans)
  next
    case (Some er)
    with Cons.prems(1) o have "s' = s1" "err = Some er" by auto
    with O show ?thesis by simp
  qed
qed (auto simp: calls_confined_refl)

lemma reconcile_component_confined:
  assumes "owner_documented env" "refresh_documented env" "reconcile_component env cr entries c s = (res, s')"
    and "comp_Namespace c = OperatorNamespace r"
  shows "calls_confined r s s'"
proof (cases "comp_Render (envYAML env) c cr")
  case (Inl e)
  with assms(3) show ?thesis by (auto simp: reconcile_component_def calls_confined_refl)
next
  case (Inr obs)
  obtain obs1 h where st: "stampConfigHash obs (comp_Rollout c) (entries_index entries (comp_Name c)) = (obs1, h)" by fastforce
  obtain ev obs2 s1 where de: "detectRollouts env (comp_Name c) obs1 s = ((ev, obs2), s1)" by (metis surj_pair)
  obtain obs3 err s2 where ap: "apply_Objects env cr obs2 s1 = ((obs3, err), s2)" by (metis surj_pair)
  note D = detectRollouts_spec [OF de]
  have "objs_in (OperatorNamespace r) obs"
    using any_component.in_namespace [OF Inr] assms(4) by (auto simp: objs_in_def list_all_iff)
  moreover have "obs1 = map (stamp_annotation (DeploymentName (comp_Rollout c)) h) obs"
    using st by (auto simp: stampConfigHash_def Let_def)
  ultimately have o1: "objs_in (OperatorNamespace r) obs1" by (simp add: objs_in_def list_all_iff)
  then have o2: "objs_in (OperatorNamespace r) obs2"
    using D by (simp add: objs_in_def list_all_iff same_key_namespace [OF obj_key_stamp_template])
  note A = apply_Objects_confined [OF assms(1,2) ap o2]
  have c1: "calls_confined r s s1" using D deployment_reads_confined [OF o1] by (auto simp: calls_confined_def)
  show ?thesis
  proof (cases err)
    case (Some e)
    with assms(3) Inr st de ap have "s' = with_metrics (IncReconcileError ''apply'') s2"
      by (auto simp: reconcile_component_def)
    with A c1 show ?thesis by (auto intro: calls_confined_trans)
  next
    case None
    with assms(3) Inr st de ap have s': "s' = recordReadiness env (comp_Name c) obs3 (with_metrics (commitRollouts ev) s2)"
      by (auto simp: reconcile_component_def)
    have "calls_confined r s2 s'"
      using recordReadiness_spec [of "with_metrics (commitRollouts ev) s2" env "comp_Name c" obs3, folded s']
        deployment_reads_confined A None by (auto simp: calls_confined_def)
    with A c1 show ?thesis by (blast intro: calls_confined_trans)
  qed
qed

lemma reconcile_components_confined:
  assumes "owner_documented env" "refresh_documented env"
  shows "reconcile_components env cr entries cs hashes ccs s = (x, s') \<Longrightarrow>
    list_all (\<lambda>c. comp_Namespace c = OperatorNamespace r) cs \<Longrightarrow> calls_confined r s s'"
proof (induction cs arbitrary: hashes ccs s)
  case (Cons c cs)
  obtain res s1 where c: "reconcile_component env cr entries c s = (res, s1)" by fastforce
  from Cons.prems(2) have "comp_Namespace c = OperatorNamespace r" by simp
  note C = reconcile_component_confined [OF assms c this]
  show ?case
  proof (cases res)
    case (Inl e)
    with Cons.prems c C show ?thesis by auto
  next
    case (Inr hc)
    obtain h cc where "hc = (h, cc)" by fastforce
    with Cons.prems c Inr have "calls_confined r s1 s'" by (intro Cons.IH [of "hashes @ [h]" "ccs @ [cc]"]) simp_all
    with C show ?thesis by (rule calls_confined_trans)
  qed
qed (auto simp: calls_confined_refl)


lemma groups_confined:
  "secret_calls r gs \<Longrightarrow> list_all (confined r) gs" "discovery_calls r hs \<Longrightarrow> list_all (confined r) hs"
  by (auto simp: secret_calls_def discovery_calls_def confined_def list_all_iff split: call.splits)

lemma reconcile_body_confined:
  assumes doc: "owner_documented env" "refresh_documented env" and "reconcile_body env r cr s = (oc, s')" "client_ok s"
  shows "calls_confined r s s'"
proof -
  have sec: "calls_confined r s t \<and> client_ok t"
    if "collect_secrets env r cr cs entries missing s = (x, t)" for cs entries missing x t
  proof -
    obtain err en mi where x: "x = (err, en, mi)" by (metis surj_pair)
    from collect_secrets_calls [OF that] obtain gs where "calls t = calls s @ gs" "secret_calls r gs" by blast
    then have "calls_confined r s t" using groups_confined(1) unfolding calls_confined_def by blast
    moreover have "same_but_calls s t" using collect_secrets_spec [OF that [unfolded x]] by blast
    ultimately show ?thesis using same_client_ok assms(4) by blast
  qed
  have dis: "calls_confined r t u" if "resolveJWKSURL env r cr t = (x, u)" "client_ok t" for x t u
  proof -
    from resolveJWKSURL_frame(3) [OF that] obtain gs where "calls u = calls t @ gs" "discovery_calls r gs" by blast
    then show ?thesis using groups_confined(2) unfolding calls_confined_def by blast
  qed
  from assms(3) show ?thesis
  proof (cases rule: reconcile_body_cases)
    case (resolve e)
    then show ?thesis by (simp add: calls_confined_refl)
  next
    case (secrets cs0 e entries missing)
    from sec [OF secrets(2)] show ?thesis by simp
  next
    case (discovery cs0 e entries missing s1 s2)
    from sec [OF discovery(2)] dis [OF discovery(3)] discovery(4) show ?thesis by (auto intro: calls_confined_trans)
  next
    case (comps cs0 entries missing s1 s2 url err hashes ccs s3)
    have "resolved_components r cr url (SetResolvedJWKSURL (SetAPIBaseURL cs0 (APIBaseURL cr (OperatorNamespace r))) url)"
      using comps(1) by (auto simp: resolved_components_def)
    from reconcile_components_confined [OF doc comps(4) resolved_names(2) [OF this]]
      sec [OF comps(2)] dis [OF comps(3)] have "calls_confined r s s3" by (blast intro: calls_confined_trans)
    with comps(6) show ?thesis by simp
  qed
qed

lemma Reconcile_confined:
  assumes "owner_documented env" "refresh_documented env" "Reconcile env r req s = (err, s')" "client_ok s"
  shows "\<exists>new. calls s' = calls s @ GetCR req # new \<and> list_all (confined r) new"
  using assms(3)
proof (cases rule: Reconcile_cases)
  case (found cr s1 oc s2 s3)
  have "client_ok s1" using found(1) assms(4) by (simp add: client_ok_def)
  from reconcile_body_confined [OF assms(1,2) found(2) this] obtain bs where
    b: "calls s2 = calls s1 @ bs" "list_all (confined r) bs" unfolding calls_confined_def by blast
  from update_status_calls [OF found(3)] obtain us where
    "calls s3 = calls s2 @ us" "us = [] \<or> (\<exists>cr'. us = [StatusUpdate cr'])" by blast
  then have "calls s3 = calls s2 @ us" "list_all (confined r) us" by (auto simp: confined_def)
  with b found(1,4) show ?thesis by (intro exI [of _ "bs @ us"]) simp
qed auto

subsection \<open>The cache, the client and the metrics\<close>

lemma resolveJWKSURL_cache:
  assumes "cache_ok s" "resolveJWKSURL env r cr s = (res, s')"
  shows "cache_ok s'"
proof (cases res)
  case (Inr url)
  with assms resolveJWKSURL_verified show ?thesis by blast
next
  case (Inl e)
  obtain dres s1 where d: "discoverJWKSURL env r (Issuer (Auth (API (Spec cr)))) s = (dres, s1)" by fastforce
  have "discoveryCache s' = discoveryCache s"
    using assms(2) Inl d discoverJWKSURL_spec(1) [OF d]
    by (auto simp: resolveJWKSURL_def Let_def split: if_splits sum.splits option.splits)
  with assms(1) show ?thesis by (simp add: cache_ok_def)
qed

lemma cache_ok_same: "same_but_calls s s' \<Longrightarrow> cache_ok s' = cache_ok s"
  by (simp add: cache_ok_def same_but_calls_def)

lemma reconcile_body_state:
  assumes doc: "owner_documented env" and "reconcile_body env r cr s = (oc, s')" "client_ok s" "cache_ok s"
  shows "client_ok s' \<and> cache_ok s' \<and>
    (mAppliedConfig (metrics s') = mAppliedConfig (metrics s) \<or> (\<exists>h. mAppliedConfig (metrics s') = [h \<mapsto> 1]))"
  using assms(2)
proof (cases rule: reconcile_body_cases)
  case (resolve e)
  with assms(3,4) show ?thesis by (simp add: cache_ok_def)
next
  case (secrets cs0 e entries missing)
  note c = collect_secrets_spec [OF secrets(2)]
  with assms(3,4) show ?thesis using same_client_ok cache_ok_same by blast
next
  case (discovery cs0 e entries missing s1 s2)
  note c = collect_secrets_spec [OF discovery(2)]
  with assms(3,4) have "client_ok s1" "cache_ok s1" using same_client_ok cache_ok_same by blast+
  with resolveJWKSURL_frame [OF discovery(3)] resolveJWKSURL_cache [OF _ discovery(3)] c discovery(4)
  show ?thesis by (simp add: cache_ok_def)
next
  case (comps cs0 entries missing s1 s2 url err hashes ccs s3)
  note c = collect_secrets_spec [OF comps(2)] and rk = reconcile_components_spec [OF doc comps(4)]
  from c assms(3,4) have "client_ok s1" "cache_ok s1" using same_client_ok cache_ok_same by blast+
  with resolveJWKSURL_frame [OF comps(3)] resolveJWKSURL_cache [OF _ comps(3)] have
    j: "client_ok s2" "cache_ok s2" "metrics s2 = metrics s1" by simp_all
  with rk have "client_ok s3" "cache_ok s3" using same_client_ok cache_ok_same by blast+
  then show ?thesis using comps(6) c rk j(3) by (auto simp: cache_ok_def)
qed

text \<open>The operands that a reconcile can name.\<close>

definition operand_names :: "string list" where
  "operand_names = api_ComponentName # map (\<lambda>e. sentinel_ComponentName @ ''-'' @ edPlural e) CloudCAPIEntities"

lemma resolved_operands:
  assumes "resolved_components r cr url cs" "c \<in> set cs"
  shows "comp_Name c \<in> set operand_names"
proof (rule resolved_shape [OF assms(1)])
  fix a ss
  assume cs: "cs = APIComponent a # map SentinelComponent ss" and ss: "map seResourceType ss = map edPlural CloudCAPIEntities"
  from assms(2) consider "c = APIComponent a" | x where "x \<in> set ss" "c = SentinelComponent x" unfolding cs by auto
  then show ?thesis
  proof cases
    case 2
    then have "seResourceType x \<in> set (map edPlural CloudCAPIEntities)" unfolding ss [symmetric] by simp
    with 2 show ?thesis by (auto simp: operand_names_def sentinel_Name_def)
  qed (simp add: operand_names_def api_Name_def)
qed

lemma reconcile_body_operands:
  assumes "owner_documented env" "reconcile_body env r cr s = (oc, s')" "client_ok s"
  shows "fst k \<notin> set operand_names \<Longrightarrow> mOperandRollouts (metrics s') k = mOperandRollouts (metrics s) k"
proof (rule reconcile_body_counted(5) [OF assms(1,2)])
  assume k: "fst k \<notin> set operand_names"
  have "ccName ` set (ocReports oc) \<subseteq> set operand_names"
  proof (rule reconcile_body_trace [OF assms])
    fix obss url cs
    assume "obss \<noteq> [] \<or> ocReports oc \<noteq> [] \<or> ocError oc = None \<Longrightarrow> resolved_components r cr url cs"
      and n: "map ccName (ocReports oc) = map comp_Name (take (length (ocReports oc)) cs)"
    moreover have "ccName ` set (ocReports oc) \<subseteq> comp_Name ` set cs"
      using arg_cong [OF n, of set] by (auto dest: in_set_takeD)
    moreover have "comp_Name ` set cs \<subseteq> set operand_names" if "resolved_components r cr url cs"
      using resolved_operands [OF that] by blast
    ultimately show ?thesis by (cases "ocReports oc = []") (simp, blast)
  qed
  with k show "fst k \<notin> ccName ` set (ocReports oc)" by blast
qed


subsection \<open>The invariant\<close>

definition resource_reads :: "call list \<Rightarrow> nat" where
  "resource_reads cs = length (filter (\<lambda>c. case c of GetCR _ \<Rightarrow> True | _ \<Rightarrow> False) cs)"

lemma resource_reads_confined: "list_all (confined r) cs \<Longrightarrow> resource_reads cs = 0"
  by (auto simp: resource_reads_def list_all_iff confined_def filter_empty_conv split: call.splits)

lemma resource_reads_append [simp]: "resource_reads (cs @ ds) = resource_reads cs + resource_reads ds"
  "resource_reads (GetCR n # cs) = Suc (resource_reads cs)" "resource_reads [] = 0"
  by (simp_all add: resource_reads_def)

definition stage_errors :: "metrics \<Rightarrow> nat" where
  "stage_errors m = sum_list (map (mReconcileErrors m) error_stages)"

lemma stage_errors_counted:
  assumes "counted stage failing s s'" "stage \<in> set error_stages"
  shows "stage_errors (metrics s') = stage_errors (metrics s) + (if failing then 1 else 0)"
    and "x \<notin> set error_stages \<Longrightarrow> mReconcileErrors (metrics s') x = mReconcileErrors (metrics s) x"
  using assms by (auto simp: stage_errors_def counted_def error_stages_def)

definition process_inv :: "'w env \<Rightarrow> reconciler \<Rightarrow> 'w sys \<Rightarrow> bool" where
  "process_inv env r s \<longleftrightarrow> client_ok s \<and> cache_ok s \<and>
     list_all (\<lambda>c. (\<exists>n. c = GetCR n) \<or> confined r c) (calls s) \<and>
     mReconcileDuration (metrics s) = resource_reads (calls s) \<and>
     stage_errors (metrics s) \<le> mReconcileDuration (metrics s) \<and>
     (\<forall>x. x \<notin> set error_stages \<longrightarrow> mReconcileErrors (metrics s) x = 0) \<and>
     (mAppliedConfig (metrics s) = Map.empty \<or> (\<exists>h. mAppliedConfig (metrics s) = [h \<mapsto> 1])) \<and>
     (\<forall>k. fst k \<notin> set operand_names \<longrightarrow> mOperandRollouts (metrics s) k = 0)"

lemma process_invD:
  assumes "process_inv env r s"
  shows "client_ok s" "cache_ok s" "list_all (\<lambda>c. (\<exists>n. c = GetCR n) \<or> confined r c) (calls s)"
    "mReconcileDuration (metrics s) = resource_reads (calls s)"
    "stage_errors (metrics s) \<le> mReconcileDuration (metrics s)"
    "\<forall>x. x \<notin> set error_stages \<longrightarrow> mReconcileErrors (metrics s) x = 0"
    "mAppliedConfig (metrics s) = Map.empty \<or> (\<exists>h. mAppliedConfig (metrics s) = [h \<mapsto> 1])"
    "\<forall>k. fst k \<notin> set operand_names \<longrightarrow> mOperandRollouts (metrics s) k = 0"
  by (insert assms, unfold process_inv_def, (elim conjE, assumption)+)

lemma process_inv_start: "process_inv env r ((init_sys w)\<lparr>metrics := metrics_Init c g zero_metrics\<rparr>)"
  by (simp add: process_inv_def init_sys_def metrics_Init_def zero_metrics_def client_ok_def cache_ok_def stage_errors_def)

lemma process_inv_moved: "process_inv env r s \<Longrightarrow> process_inv env r (s\<lparr>world := w\<rparr>)"
  by (simp add: process_inv_def client_ok_def cache_ok_def)

lemma Reconcile_state:
  assumes "owner_documented env" "Reconcile env r req s = (err, s')" "client_ok s" "cache_ok s"
  shows "client_ok s' \<and> cache_ok s' \<and>
    (mAppliedConfig (metrics s') = mAppliedConfig (metrics s) \<or> (\<exists>h. mAppliedConfig (metrics s') = [h \<mapsto> 1])) \<and>
    (\<forall>k. fst k \<notin> set operand_names \<longrightarrow> mOperandRollouts (metrics s') k = mOperandRollouts (metrics s) k)"
  using assms(2)
proof (cases rule: Reconcile_cases)
  case (found cr s1 oc s2 s3)
  have c1: "client_ok s1" "cache_ok s1" "metrics s1 = metrics s"
    using found(1) assms(3,4) by (auto simp: client_ok_def cache_ok_def)
  from update_status_calls [OF found(3)] have u: "metrics s3 = metrics s2" "same_but_calls s2 s3" by blast+
  note b = reconcile_body_state [OF assms(1) found(2) c1(1,2)]
  with u(2) have "client_ok s3" "cache_ok s3" using same_client_ok cache_ok_same by blast+
  moreover have "client_ok s' = client_ok s3" "cache_ok s' = cache_ok s3" using found(4) by (simp_all add: cache_ok_def)
  ultimately show ?thesis using b u(1) c1(3) found(4) reconcile_body_operands [OF assms(1) found(2) c1(1)] by simp
qed (use assms(3,4) in \<open>auto simp: client_ok_def cache_ok_def\<close>)

lemma process_inv_reconciled:
  assumes "owner_documented env" "refresh_documented env" "process_inv env r s" "Reconcile env r req s = (err, s')"
  shows "process_inv env r s'"
proof -
  have i: "client_ok s" "cache_ok s" using assms(3) by (simp_all add: process_inv_def)
  from Reconcile_confined [OF assms(1,2,4) i(1)] obtain new where
    n: "calls s' = calls s @ GetCR req # new" "list_all (confined r) new" by blast
  note c = Reconcile_counted [OF assms(1,4)] and st = Reconcile_state [OF assms(1,4) i]
  from c obtain stage failing where sf: "stage \<in> set error_stages" "counted stage failing s s'" by blast
  note e = stage_errors_counted [OF sf(2,1)]
  have "list_all (\<lambda>c. (\<exists>n. c = GetCR n) \<or> confined r c) (calls s')"
    using assms(3) n by (auto simp: process_inv_def list_all_iff)
  moreover have "resource_reads (calls s') = Suc (resource_reads (calls s))"
    using n resource_reads_confined by simp
  ultimately show ?thesis using assms(3) c e st unfolding process_inv_def by auto
qed

lemma process_step_inv:
  assumes "owner_documented env" "refresh_documented env" "process_step env r s s'" "process_inv env r s"
  shows "process_inv env r s'"
  using assms(3)
proof (rule process_stepE)
  fix w assume "s' = s\<lparr>world := w\<rparr>"
  with assms(4) show ?thesis by (simp add: process_inv_moved)
next
  fix req err assume "Reconcile env r req s = (err, s')"
  with assms(1,2,4) show ?thesis by (rule process_inv_reconciled)
qed

lemma reachable_inv:
  assumes "owner_documented env" "refresh_documented env" "reachable env r s"
  shows "process_inv env r s"
  using assms(3)
  by (induction rule: reachable.induct) (rule process_inv_start, rule process_step_inv [OF assms(1,2)])

text \<open>
  C11: In every reachable state of the process, whatever the world does between and during reconciles:
  every URL in the discovery cache was verified for its issuer; at most one HTTP client was built,
  the hardened one; the latency histogram has one observation per read of the resource, and
  the counted errors, all under a documented stage, do not exceed the reconciles; at most one
  applied-config series exists; and rollouts are counted for operands of the bundle only, so no
  metric has unbounded labels.
\<close>

theorem process_invariant:
  assumes "owner_documented env" "refresh_documented env" "reachable env r s"
  shows "(\<forall>issuer uri. discoveryCache s issuer = Some uri \<longrightarrow> verified_jwks issuer uri) \<and>
    clientsBuilt s \<le> 1 \<and> discoveryClient s \<in> {None, Some newDiscoveryHTTPClient} \<and>
    mReconcileDuration (metrics s) = resource_reads (calls s) \<and>
    stage_errors (metrics s) \<le> resource_reads (calls s) \<and>
    {x. mReconcileErrors (metrics s) x \<noteq> 0} \<subseteq> set error_stages \<and>
    card (dom (mAppliedConfig (metrics s))) \<le> 1 \<and>
    fst ` {k. mOperandRollouts (metrics s) k \<noteq> 0} \<subseteq> set operand_names"
proof -
  note i = process_invD [OF reachable_inv [OF assms]]
  have "card (dom (mAppliedConfig (metrics s))) \<le> 1" using i(7) by auto
  moreover have "clientsBuilt s \<le> 1" "discoveryClient s \<in> {None, Some newDiscoveryHTTPClient}"
    using i(1) by (auto simp: client_ok_def)
  moreover have "{x. mReconcileErrors (metrics s) x \<noteq> 0} \<subseteq> set error_stages" using i(6) by auto
  moreover have "fst ` {k. mOperandRollouts (metrics s) k \<noteq> 0} \<subseteq> set operand_names" using i(8) by auto
  ultimately show ?thesis using i(2,4,5) unfolding cache_ok_def by simp
qed

lemma cached_kinds: "(k, [n]) \<in> set (namespacedCacheByObject ns) \<longleftrightarrow> n = ns \<and> (k = ''Secret'' \<or> k \<in> set NamespacedOperandTypes)"
  by (auto simp: namespacedCacheByObject_def)

lemma deployment_cached: "''Deployment'' \<in> set NamespacedOperandTypes"
  by (simp add: NamespacedOperandTypes_def)

text \<open>
  C12: In every reachable state, every call that the process has made, other than on its own resource,
  stayed inside the scope of its cache: Secrets and operands are read and written in
  the operator's namespace only, operands are of cached kinds, and every request to an identity
  provider went through the client that refuses internal addresses and redirects, unless another
  one was injected.
\<close>

theorem calls_in_cache_scope:
  assumes "owner_documented env" "refresh_documented env" "reachable env r s" "call \<in> set (calls s)"
  shows "case call of
      GetCR _ \<Rightarrow> True
    | StatusUpdate _ \<Rightarrow> True
    | GetSecret ns _ \<Rightarrow> (''Secret'', [ns]) \<in> set (namespacedCacheByObject (OperatorNamespace r))
    | GetDeployment ns _ \<Rightarrow> (''Deployment'', [ns]) \<in> set (namespacedCacheByObject (OperatorNamespace r))
    | Apply ob \<Rightarrow> (obj_kind ob, [Namespace (obj_meta ob)]) \<in> set (namespacedCacheByObject (OperatorNamespace r))
    | Refresh ob \<Rightarrow> (obj_kind ob, [Namespace (obj_meta ob)]) \<in> set (namespacedCacheByObject (OperatorNamespace r))
    | HTTPGet c _ \<Rightarrow> HTTPClient r = Some c \<or> HTTPClient r = None \<and> hcControl c = blockDiscoveryDial \<and> hcCheckRedirect c \<noteq> None"
proof -
  have "list_all (\<lambda>c. (\<exists>n. c = GetCR n) \<or> confined r c) (calls s)"
    using reachable_inv [OF assms(1-3)] by (simp add: process_inv_def)
  with assms(4) have "(\<exists>n. call = GetCR n) \<or> confined r call" by (auto simp: list_all_iff)
  then show ?thesis
    by (cases call)
       (simp_all add: confined_def cached_kinds deployment_cached kind_watched newDiscoveryHTTPClient_def split: option.splits)
qed


subsection \<open>Witnesses\<close>

lemma example_refresh: "refresh_documented (example_env cr)"
  by (simp add: refresh_documented_def)

lemma example_start: "client_ok ((init_sys w)\<lparr>metrics := m\<rparr>)" "cache_ok ((init_sys w)\<lparr>metrics := m\<rparr>)"
  by (simp_all add: client_ok_def cache_ok_def init_sys_def)

text \<open>A reachable state in which something was applied.\<close>

lemma example_reachable:
  obtains s ob where "reachable example_world example_reconciler s" "Apply ob \<in> set (calls s)" "mReconcileDuration (metrics s) = 1"
proof -
  let ?s0 = "(init_sys ())\<lparr>metrics := metrics_Init ''c'' ''g'' zero_metrics\<rparr> :: unit sys"
  obtain s where r: "Reconcile example_world example_reconciler ''cluster'' ?s0 = (None, s)"
    using example_reconcile by blast
  have "reachable example_world example_reconciler s"
    using reachable.start process_step.reconciled [OF r] by (rule reachable.step)
  moreover have "fst (envGetCR example_world ''cluster'' (world ?s0)) = Inr example_cr" by simp
  from Reconcile_applies [OF example_owner example_start this r] obtain cs url obss new where
    a: "resolved_components example_reconciler example_cr url cs"
      "map (\<lambda>c. comp_Render (envYAML example_world) c example_cr) cs = map Inr obss"
      "calls s = calls ?s0 @ new" "list_all2 (decorated example_world) (concat obss) (applied new)" by blast
  obtain c cs' where "cs = c # cs'" by (rule resolved_shape [OF a(1)]) auto
  with a(2) obtain obs obss' where "obss = obs # obss'" "comp_Render (envYAML example_world) c example_cr = Inr obs"
    by (cases obss) auto
  with any_component.one_deployment have "concat obss \<noteq> []" by fastforce
  with a(4) have "applied new \<noteq> []" by auto
  then obtain ob where "ob \<in> set (applied new)" by fastforce
  then have "Apply ob \<in> set new" by (auto simp: applied_def split: call.splits)
  moreover from Reconcile_counted [OF example_owner r] have "mReconcileDuration (metrics s) = 1"
    by (simp add: metrics_Init_def zero_metrics_def)
  ultimately show thesis using a(3) by (intro that [of s ob]) auto
qed

theorem process_invariant_witness:
  "\<exists>s. reachable example_world example_reconciler s \<and> resource_reads (calls s) = 1 \<and> clientsBuilt s \<le> 1"
proof (rule example_reachable)
  fix s ob
  assume "reachable example_world example_reconciler s" "mReconcileDuration (metrics s) = 1"
  with process_invariant [OF example_owner example_refresh this(1)] show ?thesis by (intro exI [of _ s]) simp
qed

theorem calls_in_cache_scope_witness:
  "\<exists>s ob. reachable example_world example_reconciler s \<and> Apply ob \<in> set (calls s) \<and>
     (obj_kind ob, [Namespace (obj_meta ob)]) \<in> set (namespacedCacheByObject ''hyperfleet-system'')"
proof (rule example_reachable)
  fix s ob
  assume r: "reachable example_world example_reconciler s" "Apply ob \<in> set (calls s)"
  from calls_in_cache_scope [OF example_owner example_refresh r] r show ?thesis
    by (intro exI [of _ s] exI [of _ ob]) (simp add: example_reconciler_def)
qed

end
