(* ===== verification/Call_Bounds.thy ===== *)
theory Call_Bounds
  imports Process_Lifetime
begin

section \<open>How much a reconcile asks of the API server\<close>

text \<open>
  A bound on the calls of one reconcile, over all branches: one read of the resource, the reads of the
  referenced Secrets, one discovery request, an apply and a refresh for each object, two reads
  for each Deployment, and one status update.
\<close>

subsection \<open>Counting the calls of each part\<close>

definition grows_by :: "nat \<Rightarrow> 'w sys \<Rightarrow> 'w sys \<Rightarrow> bool" where
  "grows_by n s s' \<longleftrightarrow> length (calls s') \<le> length (calls s) + n"

lemma grows_by_trans: "grows_by m s t \<Longrightarrow> grows_by n t u \<Longrightarrow> grows_by (m + n) s u"
  by (simp add: grows_by_def)

lemma grows_by_mono: "grows_by m s t \<Longrightarrow> m \<le> n \<Longrightarrow> grows_by n s t"
  by (simp add: grows_by_def)

lemma grows_by_metrics [simp]:
  "grows_by n s (with_metrics f t) = grows_by n s t" "grows_by n (with_metrics f s) t = grows_by n s t"
  by (simp_all add: grows_by_def)

lemma grows_by_refl [simp]: "grows_by n s s"
  by (simp add: grows_by_def)

lemma grows_by_calls: "calls s' = calls s @ cs \<Longrightarrow> length cs \<le> n \<Longrightarrow> grows_by n s s'"
  by (simp add: grows_by_def)

definition deployments_in :: "obj list \<Rightarrow> nat" where
  "deployments_in obs = length (filter is_deployment obs)"

lemma is_deployment_key: "is_deployment ob \<longleftrightarrow> fst (obj_key ob) = ''Deployment''"
  by (cases ob) (simp_all add: is_deployment_def obj_key_def)

lemma deployments_in_keys: "deployments_in obs = length (filter (\<lambda>k. fst k = ''Deployment'') (map obj_key obs))"
  by (induction obs) (simp_all add: deployments_in_def is_deployment_key)

lemma length_deployment_reads [simp]: "length (deployment_reads obs) = deployments_in obs"
  by (simp add: deployment_reads_def deployments_in_def)

lemma perform_grows: "perform c f s = (a, s') \<Longrightarrow> grows_by 1 s s'"
  by (simp add: grows_by_def)

lemma secrets_grow:
  "resolveSecretEntries (get_secret env) ns refs s = (res, s') \<Longrightarrow> grows_by (length refs) s s'"
  using resolveSecretEntries_spec [of env ns refs s res s'] by (auto simp: grows_by_def)

lemma collect_grow:
  "collect_secrets env r cr cs entries missing s = (x, s') \<Longrightarrow>
   grows_by (sum_list (map (\<lambda>c. length (comp_ReferencedSecrets c cr)) cs)) s s'"
proof (induction cs arbitrary: entries missing s x)
  case (Cons c cs)
  obtain a s1 where g: "resolveSecretEntries (get_secret env) (OperatorNamespace r) (comp_ReferencedSecrets c cr) s = (a, s1)" by fastforce
  note gr = secrets_grow [OF g]
  show ?case
  proof (cases a)
    case (Inl e)
    with Cons.prems g have "s' = with_metrics (IncReconcileError ''secrets'') s1" by auto
    with gr show ?thesis by (auto intro: grows_by_mono)
  next
    case (Inr es)
    with Cons.prems g have "collect_secrets env r cr cs (entries(comp_Name c \<mapsto> es))
            (missing @ map heId (filter (\<lambda>e. \<not> hePresent e) es)) s1 = (x, s')" by simp
    from grows_by_trans [OF gr Cons.IH [OF this]] show ?thesis by simp
  qed
qed simp

lemma discovery_grow:
  assumes "resolveJWKSURL env r cr s = (res, s')" "client_ok s"
  shows "grows_by (if needs_discovery cr then 1 else 0) s s'"
  using resolveJWKSURL_frame(3) [OF assms] by (auto simp: discovery_calls_def grows_by_def)

lemma apply_object_grow:
  assumes "owner_documented env" "refresh_documented env" "apply_object env cr ob s = ((ob', err), s')"
  shows "grows_by 2 s s' \<and> (err = None \<longrightarrow> obj_key ob' = obj_key ob)"
proof (rule apply_object_cases [OF assms(3)])
  fix ob1 s1 res
  assume a: "envSetControllerReference env cr ob = Inr ob1" "perform (Apply ob1) (envApply env ob1) s = (None, s1)"
      "perform (Refresh ob1) (envRefresh env ob1) s1 = (res, s')"
      "case res of Inl _ \<Rightarrow> err \<noteq> None | Inr ob2 \<Rightarrow> ob' = ob2 \<and> err = None"
  have "grows_by (1 + 1) s s'" using perform_grows [OF a(2)] perform_grows [OF a(3)] by (rule grows_by_trans)
  moreover have "obj_key ob' = obj_key ob" if "err = None"
  proof -
    from a(4) that have "res = Inr ob'" by (auto split: sum.splits)
    with perform_step [OF a(3)] assms(2) have "obj_key ob' = obj_key ob1" unfolding refresh_documented_def by blast
    moreover from assms(1) a(1) have "obj_key ob1 = obj_key ob" unfolding owner_documented_def by force
    ultimately show ?thesis by simp
  qed
  ultimately show ?thesis by (auto simp: numeral_2_eq_2)
next
  fix ob1 s1 e
  assume "perform (Apply ob1) (envApply env ob1) s = (Some e, s1)" "s' = s1"
    "err = Some (Wrapf ''apply %s %q: %w'' [obj_kind ob, Name (obj_meta ob)] e)"
  then show ?thesis by (simp add: grows_by_def)
qed auto

lemma apply_Objects_grow:
  assumes "owner_documented env" "refresh_documented env"
  shows "apply_Objects env cr obs s = ((obs', err), s') \<Longrightarrow>
    grows_by (2 * length obs) s s' \<and> (err = None \<longrightarrow> map obj_key obs' = map obj_key obs)"
proof (induction obs arbitrary: s obs')
  case (Cons ob obs)
  obtain ob1 e s1 where o: "apply_object env cr ob s = ((ob1, e), s1)" by (metis surj_pair)
  note og = apply_object_grow [OF assms o]
  show ?case
  proof (cases e)
    case (Some er)
    with Cons.prems o og show ?thesis by (auto intro: grows_by_mono)
  next
    case None
    then obtain obs2 where r: "apply_Objects env cr obs s1 = ((obs2, err), s')" "obs' = ob1 # obs2"
      using Cons.prems o by (auto split: prod.splits)
    from Cons.IH [OF r(1)] og None r(2) grows_by_trans [of 2 s s1 "2 * length obs" s'] show ?thesis by simp
  qed
qed simp

lemma component_grow:
  assumes doc: "owner_documented env" "refresh_documented env"
    and rc: "reconcile_component env cr entries c s = (res, s')"
    and n: "\<And>obs. comp_Render (envYAML env) c cr = Inr obs \<Longrightarrow> length obs + deployments_in obs \<le> n"
  shows "grows_by (2 * n) s s'"
proof (cases "comp_Render (envYAML env) c cr")
  case (Inl e)
  with rc show ?thesis by (auto simp: reconcile_component_def)
next
  case (Inr obs)
  obtain obs1 h where st: "stampConfigHash obs (comp_Rollout c) (entries_index entries (comp_Name c)) = (obs1, h)" by fastforce
  obtain ev obs2 s1 where de: "detectRollouts env (comp_Name c) obs1 s = ((ev, obs2), s1)" by (metis surj_pair)
  obtain obs3 err s2 where ap: "apply_Objects env cr obs2 s1 = ((obs3, err), s2)" by (metis surj_pair)
  have k: "map obj_key obs1 = map obj_key obs" using st by (auto simp: stampConfigHash_def Let_def)
  have k2: "map obj_key obs2 = map obj_key obs" using detectRollouts_spec [OF de] k by (simp add: comp_def)
  from k2 have "length obs2 = length obs" by (metis length_map)
  with k k2 have l: "length obs2 = length obs" "deployments_in obs1 = deployments_in obs" "deployments_in obs2 = deployments_in obs"
    by (simp_all add: deployments_in_keys)
  have g1: "grows_by (deployments_in obs) s s1"
    using detectRollouts_spec [OF de] l(2) by (intro grows_by_calls [of _ _ "deployment_reads obs1"]) auto
  note ag = apply_Objects_grow [OF doc ap]
  have g2: "grows_by (deployments_in obs + 2 * length obs) s s2" using grows_by_trans [OF g1] ag l(1) by simp
  show ?thesis
  proof (cases err)
    case (Some e)
    with rc Inr st de ap have "s' = with_metrics (IncReconcileError ''apply'') s2" by (auto simp: reconcile_component_def)
    with g2 n [OF Inr] show ?thesis by (auto intro: grows_by_mono)
  next
    case None
    with rc Inr st de ap have s': "s' = recordReadiness env (comp_Name c) obs3 (with_metrics (commitRollouts ev) s2)"
      by (auto simp: reconcile_component_def)
    have "deployments_in obs3 = deployments_in obs" using ag None k2 by (simp add: deployments_in_keys)
    then have "grows_by (deployments_in obs) s2 s'"
      using recordReadiness_spec [of "with_metrics (commitRollouts ev) s2" env "comp_Name c" obs3] s'
      by (intro grows_by_calls [of _ _ "deployment_reads obs3"]) auto
    from grows_by_trans [OF g2 this] have "grows_by (deployments_in obs + 2 * length obs + deployments_in obs) s s'" .
    with n [OF Inr] show ?thesis by (auto intro: grows_by_mono)
  qed
qed

lemma components_grow:
  assumes doc: "owner_documented env" "refresh_documented env"
    and n: "\<And>c obs. c \<in> set cs \<Longrightarrow> comp_Render (envYAML env) c cr = Inr obs \<Longrightarrow> length obs + deployments_in obs \<le> n c"
    and "reconcile_components env cr entries cs hashes ccs s = (x, s')"
  shows "grows_by (2 * sum_list (map n cs)) s s'"
  using n assms(4)
proof (induction cs arbitrary: hashes ccs s x)
  case (Cons c cs)
  obtain res s1 where c: "reconcile_component env cr entries c s = (res, s1)" by fastforce
  have g: "grows_by (2 * n c) s s1" by (rule component_grow [OF doc c]) (simp add: Cons.prems(1))
  show ?case
  proof (cases res)
    case (Inl e)
    with Cons.prems(2) c g show ?thesis by (auto intro: grows_by_mono)
  next
    case (Inr hc)
    obtain h cc where "hc = (h, cc)" by fastforce
    with Cons.prems(2) c Inr have r: "reconcile_components env cr entries cs (hashes @ [h]) (ccs @ [cc]) s1 = (x, s')" by simp
    have "grows_by (2 * sum_list (map n cs)) s1 s'" by (rule Cons.IH [OF _ r]) (simp add: Cons.prems(1))
    from grows_by_trans [OF g this] show ?thesis by (simp add: distrib_left)
  qed
qed simp

subsection \<open>The bundle\<close>

lemma component_counts:
  "api_Render yaml a cr = Inr obs \<Longrightarrow> length obs + deployments_in obs = 7"
  "sentinel_Render yaml c cr = Inr obs \<Longrightarrow> length obs + deployments_in obs = 6"
proof -
  assume "api_Render yaml a cr = Inr obs"
  note k = api_keys [OF this]
  have "length obs = length (map obj_key obs)" by simp
  then show "length obs + deployments_in obs = 7" unfolding deployments_in_keys k by simp
next
  assume "sentinel_Render yaml c cr = Inr obs"
  note k = sentinel_keys [OF this]
  have "length obs = length (map obj_key obs)" by simp
  then show "length obs + deployments_in obs = 6" unfolding deployments_in_keys k by (simp add: Let_def)
qed

lemma references_url:
  "map (\<lambda>c. length (comp_ReferencedSecrets c cr)) (SetResolvedJWKSURL cs url) = map (\<lambda>c. length (comp_ReferencedSecrets c cr)) cs"
  by (induction cs) (auto simp: api_ReferencedSecrets_def split: bundle_Component.splits)

lemma sentinels_length: "map seResourceType ss = map edPlural CloudCAPIEntities \<Longrightarrow> length ss = 5"
  by (drule arg_cong [of _ _ length]) (simp add: CloudCAPIEntities_def)

text \<open>At most three of the API component's Secrets and the discovery request together: a key set comes from one source only.\<close>

lemma reference_count:
  assumes "resolved_components r cr url cs"
  shows "sum_list (map (\<lambda>c. length (comp_ReferencedSecrets c cr)) cs) + (if needs_discovery cr then 1 else 0) \<le> 8"
proof (rule resolved_shape [OF assms])
  fix a ss
  assume cs: "cs = APIComponent a # map SentinelComponent ss" and ss: "map seResourceType ss = map edPlural CloudCAPIEntities"
  have "sum_list (map (\<lambda>c. length (comp_ReferencedSecrets c cr)) (map SentinelComponent ss)) \<le> length ss * 1"
    using sum_list_mono [of ss "\<lambda>s. length (sentinel_ReferencedSecrets s cr)" "\<lambda>_. 1"]
    by (simp add: comp_def sentinel_ReferencedSecrets_def sum_list_triv)
  moreover have "length (api_ReferencedSecrets a cr) + (if needs_discovery cr then 1 else 0) \<le> 3"
    by (auto simp: api_ReferencedSecrets_def needs_discovery_def split: option.splits)
  ultimately show ?thesis using sentinels_length [OF ss] by (simp add: cs)
qed

lemma bundle_count:
  assumes "resolved_components r cr url cs"
  obtains n where "\<And>c obs. c \<in> set cs \<Longrightarrow> comp_Render yaml c cr = Inr obs \<Longrightarrow> length obs + deployments_in obs \<le> n c"
    "sum_list (map n cs) = 37"
proof (rule resolved_shape [OF assms])
  fix a ss
  assume cs: "cs = APIComponent a # map SentinelComponent ss" and ss: "map seResourceType ss = map edPlural CloudCAPIEntities"
  let ?n = "\<lambda>c. case c of APIComponent _ \<Rightarrow> 7 | SentinelComponent _ \<Rightarrow> (6 :: nat)"
  have "length obs + deployments_in obs \<le> ?n c" if "comp_Render yaml c cr = Inr obs" for c obs
    using that component_counts by (cases c) fastforce+
  moreover have "sum_list (map ?n cs) = 37"
    using sentinels_length [OF ss] by (simp add: cs comp_def sum_list_triv)
  ultimately show thesis by (rule that)
qed

subsection \<open>The whole reconcile\<close>

lemma body_grow:
  assumes doc: "owner_documented env" "refresh_documented env" and "client_ok s"
    and "reconcile_body env r cr s = (oc, s')"
  shows "grows_by 82 s s'"
  using assms(4)
proof (cases rule: reconcile_body_cases)
  case (resolve e)
  then show ?thesis by simp
next
  case (secrets cs0 e entries missing)
  let ?cs = "SetResolvedJWKSURL (SetAPIBaseURL cs0 (APIBaseURL cr (OperatorNamespace r))) []"
  have "resolved_components r cr [] ?cs" using secrets(1) by (auto simp: resolved_components_def)
  from reference_count [OF this] collect_grow [OF secrets(2)] show ?thesis
    unfolding references_url by (elim grows_by_mono) (simp split: if_splits)
next
  case (discovery cs0 e entries missing s1 s2)
  let ?cs = "SetResolvedJWKSURL (SetAPIBaseURL cs0 (APIBaseURL cr (OperatorNamespace r))) []"
  have rc: "resolved_components r cr [] ?cs" using discovery(1) by (auto simp: resolved_components_def)
  have c1: "client_ok s1" using collect_secrets_spec [OF discovery(2)] assms(3) same_client_ok by blast
  from grows_by_trans [OF collect_grow [OF discovery(2)] discovery_grow [OF discovery(3) c1]] reference_count [OF rc] show ?thesis
    unfolding references_url discovery(4) by (auto elim!: grows_by_mono)
next
  case (comps cs0 entries missing s1 s2 url err hashes ccs s3)
  let ?cs = "SetResolvedJWKSURL (SetAPIBaseURL cs0 (APIBaseURL cr (OperatorNamespace r))) url"
  have rc: "resolved_components r cr url ?cs" using comps(1) by (auto simp: resolved_components_def)
  have c1: "client_ok s1" using collect_secrets_spec [OF comps(2)] assms(3) same_client_ok by blast
  have g: "grows_by 8 s s2"
    using grows_by_trans [OF collect_grow [OF comps(2)] discovery_grow [OF comps(3) c1]] reference_count [OF rc]
    unfolding references_url by (auto elim!: grows_by_mono)
  obtain n where n: "\<And>c obs. c \<in> set ?cs \<Longrightarrow> comp_Render (envYAML env) c cr = Inr obs \<Longrightarrow> length obs + deployments_in obs \<le> n c"
    "sum_list (map n ?cs) = 37" using bundle_count [OF rc] by blast
  have "grows_by 74 s2 s3" using components_grow [where n = n, OF doc _ comps(4)] n by simp
  with g have "grows_by (8 + 74) s s3" by (rule grows_by_trans)
  then show ?thesis using comps(6) by simp
qed

lemma Reconcile_grow:
  assumes "owner_documented env" "refresh_documented env" "client_ok s" "Reconcile env r req s = (err, s')"
  shows "grows_by 84 s s'"
  using assms(4)
proof (cases rule: Reconcile_cases)
  case (found cr s1 oc s2 s3)
  have "client_ok s1" using found(1) assms(3) by (simp add: client_ok_def)
  note b = body_grow [OF assms(1,2) this found(2)]
  have "grows_by 1 s2 s3" using update_status_calls [OF found(3)] by (auto simp: grows_by_def)
  from grows_by_trans [OF grows_by_trans [OF perform_grows [OF found(1)] b] this] found(4) show ?thesis by simp
qed (auto simp: grows_by_def)

text \<open>
  C14: The traffic of the operator is bounded by the number of its reconciles, which the latency histogram
  counts: no reconcile makes more than 84 calls, on any path, whatever the resource says and whatever the world
  answers, and so the calls of the whole process are at most 84 times the reconciles.
\<close>

theorem calls_bounded:
  assumes "owner_documented env" "refresh_documented env" "reachable env r s"
  shows "length (calls s) \<le> 84 * mReconcileDuration (metrics s) \<and>
    (\<forall>req err s'. Reconcile env r req s = (err, s') \<longrightarrow> length (calls s') \<le> length (calls s) + 84)"
proof -
  have "length (calls s) \<le> 84 * mReconcileDuration (metrics s)"
    using assms(3)
  proof (induction rule: reachable.induct)
    case (start w commit goVersion)
    show ?case by (simp add: init_sys_def)
  next
    case (step s s')
    note i = process_invD(1) [OF reachable_inv [OF assms(1,2) step.hyps(1)]]
    from step.hyps(2) show ?case
    proof (cases rule: process_step.cases)
      case (moved w)
      with step.IH show ?thesis by simp
    next
      case (reconciled req err)
      from Reconcile_grow [OF assms(1,2) i reconciled] Reconcile_counted [OF assms(1) reconciled] step.IH show ?thesis by (simp add: grows_by_def)
    qed
  qed
  moreover have "client_ok s" by (rule process_invD(1) [OF reachable_inv [OF assms]])
  ultimately show ?thesis using Reconcile_grow [OF assms(1,2)] unfolding grows_by_def by blast
qed

theorem calls_bounded_witness:
  "\<exists>s. reachable example_world example_reconciler s \<and> calls s \<noteq> [] \<and> length (calls s) \<le> 84"
proof (rule example_reachable)
  fix s ob
  assume "reachable example_world example_reconciler s" "Apply ob \<in> set (calls s)" "mReconcileDuration (metrics s) = 1"
  with calls_bounded [OF example_owner example_refresh this(1)] show ?thesis by (intro exI [of _ s]) auto
qed

end
