(* ===== verification/Admission.thy ===== *)
theory Admission
  imports Process_Lifetime
begin

section \<open>Admission\<close>

text \<open>
  The validation markers of \<^verbatim>\<open>api/v1alpha1/hyperfleetconfig_types.go\<close>, from which the CRD is
  generated: what the API server lets a partner write, and what it lets the operator write back.
  The URL functions of the CEL library are a parameter.  Lengths count characters, that is, the
  bytes of a UTF-8 text that do not continue one.  The limits that the schema of
  \<^verbatim>\<open>metav1.Condition\<close> sets on a condition's texts come from that package and are not part of this theory.
\<close>

subsection \<open>The spec\<close>

definition rune_count :: "string \<Rightarrow> nat" where
  "rune_count s = length (filter (\<lambda>c. \<not> in_range 128 191 c) s)"

definition dns_label :: "string \<Rightarrow> bool" where
  "dns_label l \<longleftrightarrow> l \<noteq> [] \<and> (is_lower (hd l) \<or> is_digit (hd l)) \<and> (is_lower (last l) \<or> is_digit (last l)) \<and>
     list_all (\<lambda>c. is_lower c \<or> is_digit c \<or> c = CHR ''-'') l"

definition secret_ref_admitted :: "SecretRef \<Rightarrow> bool" where
  "secret_ref_admitted r \<longleftrightarrow> 1 \<le> length (srName r) \<and> length (srName r) \<le> 253 \<and> list_all dns_label (split_byte (CHR ''.'') (srName r) [])"

definition auth_admitted :: "(string \<Rightarrow> bool) \<Rightarrow> AuthSpec \<Rightarrow> bool" where
  "auth_admitted https_url a \<longleftrightarrow>
     (Enabled a = Some False \<or> (Issuer a \<noteq> [] \<and> Audience a \<noteq> [])) \<and>
     (Issuer a = [] \<or> (rune_count (Issuer a) \<le> 2048 \<and> https_url (Issuer a))) \<and>
     (Audience a = [] \<or> rune_count (Audience a) \<le> 253) \<and>
     (case JWKCertSecretRef a of None \<Rightarrow> True | Some r \<Rightarrow> secret_ref_admitted r)"

definition spec_admitted :: "(string \<Rightarrow> bool) \<Rightarrow> HyperFleetConfigSpec \<Rightarrow> bool" where
  "spec_admitted https_url s \<longleftrightarrow> Bundle s \<in> set AllBundleTypes \<and>
     secret_ref_admitted (dbSecretRef (Database (API s))) \<and> auth_admitted https_url (Auth (API s)) \<and>
     (case TLS (API s) of None \<Rightarrow> True | Some t \<Rightarrow> secret_ref_admitted (tlsSecretRef t)) \<and>
     (Profile (API s) = [] \<or> Profile (API s) \<in> set AllSizingProfiles)"

definition create_admitted :: "(string \<Rightarrow> bool) \<Rightarrow> HyperFleetConfig \<Rightarrow> bool" where
  "create_admitted https_url cr \<longleftrightarrow> crName cr = SingletonName \<and> spec_admitted https_url (Spec cr)"

definition update_admitted :: "(string \<Rightarrow> bool) \<Rightarrow> HyperFleetConfig \<Rightarrow> HyperFleetConfig \<Rightarrow> bool" where
  "update_admitted https_url old new \<longleftrightarrow> create_admitted https_url new \<and> Bundle (Spec new) = Bundle (Spec old)"

subsection \<open>The status\<close>

definition component_admitted :: "ComponentConditions \<Rightarrow> bool" where
  "component_admitted e \<longleftrightarrow> 1 \<le> rune_count (ccName e) \<and> rune_count (ccName e) \<le> 253 \<and> distinct (map cType (ccConditions e))"

definition status_admitted :: "HyperFleetConfigStatus \<Rightarrow> bool" where
  "status_admitted st \<longleftrightarrow> 0 \<le> ObservedGeneration st \<and> distinct (map cType (Conditions st)) \<and>
     distinct (map ccName (Components st)) \<and> list_all component_admitted (Components st)"

lemma operand_names_admitted: "list_all (\<lambda>n. 1 \<le> rune_count n \<and> rune_count n \<le> 253) operand_names"
  by (simp add: operand_names_def CloudCAPIEntities_def plain_entity_def api_ComponentName_def sentinel_ComponentName_def
      rune_count_def in_range_def)

lemma reports_wf:
  assumes "owner_documented env" "reconcile_body env r cr s = (oc, s')" "client_ok s"
  shows "wf_reports (ocReports oc) \<and> ccName ` set (ocReports oc) \<subseteq> set operand_names"
proof (rule reconcile_body_trace [OF assms])
  fix obss url cs
  assume rc: "obss \<noteq> [] \<or> ocReports oc \<noteq> [] \<or> ocError oc = None \<Longrightarrow> resolved_components r cr url cs"
    and n: "map ccName (ocReports oc) = map comp_Name (take (length (ocReports oc)) cs)"
    and t: "list_all (\<lambda>cc. map cType (ccConditions cc) = [ConditionAvailable, ConditionProgressing]) (ocReports oc)"
  show ?thesis
  proof (cases "ocReports oc = []")
    case False
    with rc have c: "resolved_components r cr url cs" by simp
    have "distinct (map ccName (ocReports oc))"
      unfolding n using resolved_names(1) [OF c] by (simp add: distinct_take flip: take_map)
    moreover have "ccName ` set (ocReports oc) \<subseteq> comp_Name ` set cs"
      using arg_cong [OF n, of set] by (auto dest: in_set_takeD)
    moreover have "comp_Name ` set cs \<subseteq> set operand_names" using resolved_operands [OF c] by blast
    moreover have "list_all (\<lambda>e. distinct (map cType (ccConditions e))) (ocReports oc)"
      using t by (auto simp: list_all_iff)
    ultimately show ?thesis unfolding wf_reports_def by blast
  qed (simp add: wf_reports_def)
qed

lemma aggregateStatus_admitted:
  assumes "ssc_documented ssc" "status_admitted (Status cr)" "0 \<le> crGeneration cr"
    and "wf_reports ccs" "ccName ` set ccs \<subseteq> set operand_names"
    and "aggregateStatus ssc cr ccs collected missing err = (cr', ch)"
  shows "status_admitted (Status cr') \<and> cr' = cr\<lparr>Status := Status cr'\<rparr>"
proof -
  have wf: "wf_status (Status cr)" using assms(2) by (auto simp: status_admitted_def wf_status_def component_admitted_def list_all_iff)
  have wf': "wf_status (Status cr')" by (rule wf_aggregate [OF assms(1) wf assms(4,6)])
  show ?thesis
  proof (rule aggregateStatus_cases [OF assms(6)])
    fix conds ch0
    assume n: "\<not> collected \<Longrightarrow> cr' = cr\<lparr>Status := (Status cr)\<lparr>Conditions := conds\<rparr>\<rparr> \<and> ch = ch0"
      and r: "collected \<Longrightarrow> cr' = cr\<lparr>Status := \<lparr>ObservedGeneration = crGeneration cr, Conditions = conds,
        Components = merged_entries ssc cr ccs\<rparr>\<rparr> \<and>
      (ch \<longleftrightarrow> ch0 \<or> SortFunc ccName (Components (Status cr)) \<noteq> merged_entries ssc cr ccs \<or>
         ObservedGeneration (Status cr) \<noteq> crGeneration cr)"
    show ?thesis
    proof (cases collected)
      case False
      with n wf' assms(2) show ?thesis by (simp add: status_admitted_def wf_status_def)
    next
      case True
      with r have st: "cr' = cr\<lparr>Status := \<lparr>ObservedGeneration = crGeneration cr, Conditions = conds,
        Components = merged_entries ssc cr ccs\<rparr>\<rparr>" by simp
      have "distinct (map ccName (merged_entries ssc cr ccs))"
        using assms(4) by (simp add: merged_entries_names wf_reports_def)
      moreover have "ccName e \<in> set operand_names" if "e \<in> set (merged_entries ssc cr ccs)" for e
      proof -
        have "ccName e \<in> set (map ccName (merged_entries ssc cr ccs))" using that by simp
        then show ?thesis unfolding merged_entries_names using assms(5) by auto
      qed
      then have "list_all component_admitted (merged_entries ssc cr ccs)"
        using wf' operand_names_admitted by (simp add: st wf_status_def component_admitted_def list_all_iff)
      ultimately show ?thesis using wf' assms(3) by (simp add: st status_admitted_def wf_status_def)
    qed
  qed
qed

text \<open>
  C21: What the operator publishes keeps the rules that the markers of the status declare: if the status
  that a reconcile reads satisfies them, every status that it writes does, with unique condition
  types, unique component names of 1 to 253 characters and a non-negative generation; and apart from the
  status the written resource is the one that was read.
\<close>

theorem status_updates_admitted:
  assumes "owner_documented env" "\<And>w. ssc_documented (envSetStatusCondition env w)" "client_ok s"
    and "fst (envGetCR env req (world s)) = Inr cr" "status_admitted (Status cr)" "0 \<le> crGeneration cr"
    and "Reconcile env r req s = (err, s')"
  shows "\<exists>new. calls s' = calls s @ new \<and>
    list_all (\<lambda>cr'. status_admitted (Status cr') \<and> cr' = cr\<lparr>Status := Status cr'\<rparr>) (status_updates new)"
proof (rule Reconcile_found [OF assms(1,3,4,7)])
  fix s1 oc s2 new
  assume b: "reconcile_body env r cr s1 = (oc, s2)" "client_ok s1" "calls s' = calls s @ new"
    and ag: "\<exists>w cr' ch. aggregateStatus (envSetStatusCondition env w) cr (ocReports oc) (ocCollected oc) (ocMissing oc) (ocError oc) = (cr', ch) \<and>
       status_updates new = (if ch then [cr'] else [])"
  note w = reports_wf [OF assms(1) b(1,2)]
  from ag obtain w cr' ch where
    a: "aggregateStatus (envSetStatusCondition env w) cr (ocReports oc) (ocCollected oc) (ocMissing oc) (ocError oc) = (cr', ch)"
      "status_updates new = (if ch then [cr'] else [])" by blast
  from aggregateStatus_admitted [OF assms(2,5,6) w [THEN conjunct1] w [THEN conjunct2] a(1)] a(2) b(3)
  show ?thesis by (intro exI [of _ new]) simp
qed

theorem status_updates_admitted_witness:
  "\<exists>s' new. Reconcile example_world example_reconciler ''cluster'' (init_sys ()) = (None, s') \<and>
     calls s' = new \<and> list_all (\<lambda>cr'. status_admitted (Status cr')) (status_updates new)"
proof -
  obtain s' where r: "Reconcile example_world example_reconciler ''cluster'' (init_sys ()) = (None, s')"
    using example_reconcile by blast
  have cr: "fst (envGetCR example_world ''cluster'' (world (init_sys ()))) = Inr example_cr" by simp
  have st: "status_admitted (Status example_cr)" "0 \<le> crGeneration example_cr" by (simp_all add: status_admitted_def)
  from status_updates_admitted [OF example_owner example_ssc_env example_initial(1) cr st r]
  obtain new where "calls s' = calls (init_sys ()) @ new" "list_all (\<lambda>cr'. status_admitted (Status cr')) (status_updates new)"
    by (auto simp: list_all_iff)
  then have "calls s' = new" by (simp add: init_sys_def)
  with r \<open>list_all _ _\<close> show ?thesis by blast
qed

text \<open>
  C22: Changing the spec orphans nothing, although the operator never deletes: after any update of the resource,
  whether admission lets it through or not, a successful reconcile applies objects of exactly the same kinds,
  namespaces and names, in the same order, as a successful reconcile of the version before, whatever
  else changed in the cluster between the two.
\<close>

theorem updates_orphan_nothing:
  fixes env env' :: "'w env"
  assumes "owner_documented env" "owner_documented env'"
    and "client_ok s" "cache_ok s" "fst (envGetCR env req (world s)) = Inr old" "Reconcile env r req s = (None, s')"
    and "client_ok t" "cache_ok t" "fst (envGetCR env' req (world t)) = Inr new" "Reconcile env' r req t = (None, t')"
  shows "\<exists>before after. calls s' = calls s @ before \<and> calls t' = calls t @ after \<and>
    map obj_key (applied before) = map obj_key (applied after) \<and> applied after \<noteq> []"
proof -
  have keys: "\<exists>new. calls x' = calls x @ new \<and> map obj_key (applied new) = concat (bundle_object_keys (OperatorNamespace r))"
    if "owner_documented env" "client_ok x" "cache_ok x" "fst (envGetCR env req (world x)) = Inr cr" "Reconcile env r req x = (None, x')" for x x' cr and env :: "'w env"
  proof -
    from Reconcile_applies [OF that] obtain cs url obss new where
      a: "resolved_components r cr url cs" "map (\<lambda>c. comp_Render (envYAML env) c cr) cs = map Inr obss"
        "calls x' = calls x @ new" "list_all2 (decorated env) (concat obss) (applied new)" by blast
    from arg_cong [OF a(2), of length] have l: "length cs = length obss" by simp
    with a(2) have "map (\<lambda>c. comp_Render (envYAML env) c cr) (take (length obss) cs) = map Inr obss" by simp
    from resolved_key_list [OF a(1) this]
    have "map obj_key (concat obss) = concat (take (length obss) (bundle_object_keys (OperatorNamespace r)))" .
    moreover have "length (bundle_object_keys (OperatorNamespace r)) \<le> length obss"
    proof (rule resolved_shape [OF a(1)])
      fix a ss
      assume cs: "cs = APIComponent a # map SentinelComponent ss" and ss: "map seResourceType ss = map edPlural CloudCAPIEntities"
      moreover from ss have "length ss = length CloudCAPIEntities" by (metis length_map)
      ultimately show ?thesis using l cs by (simp add: bundle_object_keys_def)
    qed
    ultimately show ?thesis using list_all2_key [OF a(4)] a(3) by auto
  qed
  from keys [OF assms(1,3-6)] obtain before where b: "calls s' = calls s @ before"
    "map obj_key (applied before) = concat (bundle_object_keys (OperatorNamespace r))" by blast
  from keys [OF assms(2,7-10)] obtain after where a: "calls t' = calls t @ after"
    "map obj_key (applied after) = concat (bundle_object_keys (OperatorNamespace r))" by blast
  have "concat (bundle_object_keys (OperatorNamespace r)) \<noteq> []"
    by (simp add: bundle_object_keys_def api_object_keys_def)
  with a b show ?thesis by (intro exI [of _ before] exI [of _ after]) auto
qed

theorem updates_orphan_nothing_witness:
  "\<exists>s' t'. update_admitted (\<lambda>u. u = ''https://idp'') example_cr (example_config None None (Some \<lparr>tlsSecretRef = \<lparr>srName = ''tls.api''\<rparr>\<rparr>)) \<and>
     Reconcile example_world example_reconciler ''cluster'' (init_sys ()) = (None, s') \<and>
     Reconcile (example_env (example_config None None (Some \<lparr>tlsSecretRef = \<lparr>srName = ''tls.api''\<rparr>\<rparr>))) example_reconciler
       ''cluster'' (init_sys ()) = (None, t') \<and>
     map obj_key (applied (calls s')) = map obj_key (applied (calls t')) \<and> applied (calls t') \<noteq> []"
proof -
  let ?new = "example_config None None (Some \<lparr>tlsSecretRef = \<lparr>srName = ''tls.api''\<rparr>\<rparr>)"
  obtain s' where r: "Reconcile example_world example_reconciler ''cluster'' (init_sys ()) = (None, s')"
    using example_reconcile by blast
  obtain t' where t: "Reconcile (example_env ?new) example_reconciler ''cluster'' (init_sys ()) = (None, t')"
    using example_reconcile by blast
  have "secret_ref_admitted \<lparr>srName = ''pg''\<rparr>" "secret_ref_admitted \<lparr>srName = ''tls.api''\<rparr>"
    by (simp_all add: secret_ref_admitted_def dns_label_def is_lower_def is_digit_def in_range_def)
  then have u: "update_admitted (\<lambda>u. u = ''https://idp'') example_cr ?new"
    by (simp add: update_admitted_def create_admitted_def spec_admitted_def auth_admitted_def rune_count_def in_range_def
        example_config_def SingletonName_def AllBundleTypes_def AllSizingProfiles_def)
  have c: "fst (envGetCR example_world ''cluster'' (world (init_sys ()))) = Inr example_cr"
    "fst (envGetCR (example_env ?new) ''cluster'' (world (init_sys ()))) = Inr ?new" by simp_all
  from updates_orphan_nothing [OF example_owner example_owner example_initial c(1) r example_initial c(2) t]
  show ?thesis using r t u by (auto simp: init_sys_def)
qed

end
