(* ===== verification/Rollout_Counting.thy ===== *)
theory Rollout_Counting
  imports Controller_Properties
begin

section \<open>Counting rollouts\<close>

text \<open>
  What the rollout counter means.  \<^verbatim>\<open>detectRollouts\<close> reads the Deployment before the apply and
  \<^verbatim>\<open>commitRollouts\<close> counts after it.  The read goes through the client of the manager, that is to the
  cache of an informer, which follows the API server with a delay: it need not show the last write,
  not even one of this process.  The counter is specified against such a cache.
\<close>

subsection \<open>A cluster behind a cache\<close>

text \<open>What matters of a Deployment: the template hash that it is stamped with, if any, and its
  container images.  A version of the cluster maps namespaces and names to it.\<close>

type_synonym footprint = "string \<times> string list"
type_synonym cluster = "string \<times> string \<rightharpoonup> footprint"

definition images_of :: "Deployment \<Rightarrow> string list" where
  "images_of d = map ctImage (psContainers (ptSpec (dsTemplate (depSpec d))))"

definition footprint_of :: "Deployment \<Rightarrow> footprint" where
  "footprint_of d = (map_index (Annotations (depMeta d)) templateHashAnnotation, images_of d)"

definition place_of :: "Deployment \<Rightarrow> string \<times> string" where
  "place_of d = (Namespace (depMeta d), Name (depMeta d))"

definition deploy :: "obj \<Rightarrow> cluster \<Rightarrow> cluster" where
  "deploy ob m = (case ob of DeploymentObj d \<Rightarrow> m(place_of d \<mapsto> footprint_of d) | _ \<Rightarrow> m)"

text \<open>
  A world has a history of versions, the last of them the one that the API server holds, and a
  position in it, the version that the informer has got to.  Time adds versions, made by whomever, and
  moves the informer forward.
\<close>

definition later :: "('w \<Rightarrow> cluster list) \<Rightarrow> ('w \<Rightarrow> nat) \<Rightarrow> 'w \<Rightarrow> 'w \<Rightarrow> bool" where
  "later hist pos w w' \<longleftrightarrow> prefix (hist w) (hist w') \<and> pos w \<le> pos w'"

text \<open>Meanwhile some version \<open>j\<close>, the current one or one that came after it, was changed by \<open>f\<close>: this
  makes the next version, or none if \<open>f\<close> changes nothing.\<close>

definition versioned :: "('w \<Rightarrow> cluster list) \<Rightarrow> (cluster \<Rightarrow> cluster) \<Rightarrow> 'w \<Rightarrow> 'w \<Rightarrow> nat \<Rightarrow> nat \<Rightarrow> bool" where
  "versioned hist f w w' j i \<longleftrightarrow> length (hist w) \<le> Suc j \<and> j \<le> i \<and> i \<le> Suc j \<and> i < length (hist w') \<and>
     hist w' ! i = f (hist w' ! j)"

text \<open>An answer that agrees with what a version holds.  An error other than \<open>NotFound\<close> says nothing.\<close>

definition agrees :: "Deployment result \<Rightarrow> footprint option \<Rightarrow> bool" where
  "agrees res v \<longleftrightarrow> (case res of Inr l \<Rightarrow> v = Some (footprint_of l) | Inl e \<Rightarrow> e = NotFound \<longrightarrow> v = None)"

text \<open>
  The documented behaviour of the API server and of the cached client.  A read is answered from a version
  that the informer has got to, however old; a successful apply has changed the cluster; a refresh
  bypasses the cache and changes nothing.  Others may change the cluster during each call.
\<close>

locale cached_cluster =
  fixes env :: "'w env" and hist :: "'w \<Rightarrow> cluster list" and pos :: "'w \<Rightarrow> nat"
  assumes known: "pos w < length (hist w)"
    and get_deployment: "envGetDeployment env ns n w = (res, w') \<Longrightarrow> later hist pos w w' \<and>
      (\<exists>p. pos w \<le> p \<and> p \<le> pos w' \<and> agrees res ((hist w' ! p) (ns, n)))"
    and applies: "envApply env ob w = (err, w') \<Longrightarrow> later hist pos w w' \<and>
      (err = None \<longrightarrow> (\<exists>j i. versioned hist (deploy ob) w w' j i))"
    and refresh: "envRefresh env ob w = (res', w') \<Longrightarrow> later hist pos w w'"

lemma later_refl [simp]: "later hist pos w w"
  by (simp add: later_def)

lemma later_trans [trans]: "later hist pos w w' \<Longrightarrow> later hist pos w' w'' \<Longrightarrow> later hist pos w w''"
  unfolding later_def using prefix_order.order_trans le_trans by blast

lemma later_nth: "later hist pos w w' \<Longrightarrow> k < length (hist w) \<Longrightarrow> hist w' ! k = hist w ! k \<and> k < length (hist w')"
  by (auto simp: later_def prefix_def nth_append)

lemma versioned_before: "versioned hist f w1 w2 j i \<Longrightarrow> later hist pos w w1 \<Longrightarrow> versioned hist f w w2 j i"
  by (auto simp: versioned_def later_def dest: prefix_length_le)

lemma versioned_after:
  assumes "versioned hist f w1 w2 j i" "later hist pos w2 w3"
  shows "versioned hist f w1 w3 j i"
proof -
  have "j < length (hist w2)" "i < length (hist w2)" using assms(1) by (auto simp: versioned_def)
  then show ?thesis using assms(1) later_nth [OF assms(2)] by (simp add: versioned_def)
qed

subsection \<open>The specification\<close>

text \<open>The trigger of the rollout that replacing one footprint by another is, if it is one.  A
  Deployment without a stamp is adopted silently.\<close>

definition trigger_of :: "footprint option \<Rightarrow> footprint \<Rightarrow> string option" where
  "trigger_of live desired = (case live of
       None \<Rightarrow> Some TriggerCreate
     | Some (h, imgs) \<Rightarrow>
         if imgs \<noteq> snd desired then Some TriggerImage
         else if h \<noteq> [] \<and> h \<noteq> fst desired then Some TriggerConfig
         else None)"

lemma trigger_of_same [simp]: "trigger_of (Some fp) fp = None"
  by (cases fp) (simp add: trigger_of_def)

lemma triggers_distinct: "distinct [TriggerCreate, TriggerImage, TriggerConfig]"
  by (simp add: TriggerCreate_def TriggerImage_def TriggerConfig_def)

text \<open>Detection is best-effort: a read that fails for another reason is skipped.\<close>

definition answered :: "'w env \<Rightarrow> string \<times> string \<Rightarrow> 'w \<Rightarrow> bool" where
  "answered env k w = (case fst (envGetDeployment env (fst k) (snd k) w) of Inl e \<Rightarrow> e = NotFound | Inr _ \<Rightarrow> True)"

lemma rollout_of_spec:
  assumes "footprint_of d = (desired, images_of d)" "agrees live before"
  shows "rollout_of operand d desired live =
    (if isl live \<and> live \<noteq> Inl NotFound then [] else
       case trigger_of before (desired, images_of d) of None \<Rightarrow> [] | Some t \<Rightarrow> [(operand, t)])"
  using assms by (cases live)
    (auto simp: rollout_of_def trigger_of_def Let_def footprint_of_def rolloutTrigger_def sameContainerImages_def images_of_def agrees_def)

subsection \<open>The steps against the cluster\<close>

lemma footprint_with_owners:
  "deploy (with_owners os ob) = deploy ob"
  by (rule ext, cases ob) (simp_all add: with_owners_def deploy_def footprint_of_def images_of_def place_of_def)

lemma detectRollouts_none:
  "filter is_deployment obs = [] \<Longrightarrow> detectRollouts env operand obs s = (([], obs), s)"
  by (induction obs) (auto simp: is_deployment_def split: if_splits obj.splits)

text \<open>With one Deployment there is one read, and it is the first thing that happens.\<close>

lemma detectRollouts_one:
  "filter is_deployment obs = [DeploymentObj d] \<Longrightarrow> detectRollouts env operand obs s = ((events, obs'), s') \<Longrightarrow>
    \<exists>live. get_deployment env (Namespace (depMeta d)) (Name (depMeta d)) s = (live, s') \<and>
      events = rollout_of operand (stampTemplateHash d (hashPodTemplate env d)) (hashPodTemplate env d) live"
proof (induction obs arbitrary: events obs' s s')
  case (Cons ob obs)
  show ?case
  proof (cases "is_deployment ob")
    case True
    with Cons.prems(1) have ob: "ob = DeploymentObj d" "filter is_deployment obs = []" by simp_all
    obtain live s1 where "get_deployment env (Namespace (depMeta d)) (Name (depMeta d)) s = (live, s1)" by fastforce
    with Cons.prems(2) show ?thesis
      by (auto simp: ob(1) detectRollouts_none [OF ob(2)] Let_def stampTemplateHash_def)
  next
    case False
    obtain ev ob2 s2 where r: "detectRollouts env operand obs s = ((ev, ob2), s2)" by (metis surj_pair)
    from False Cons.prems(2) r have "events = ev" "s' = s2" by (cases ob; auto simp: is_deployment_def)+
    with Cons.IH [OF _ r] Cons.prems(1) False show ?thesis by simp
  qed
qed simp

context cached_cluster
begin

lemma get_deployment_shown:
  assumes "get_deployment env ns n s = (res, s')"
  shows "later hist pos (world s) (world s') \<and>
    (\<exists>p. pos (world s) \<le> p \<and> p \<le> pos (world s') \<and> agrees res ((hist (world s') ! p) (ns, n)))"
  using get_deployment perform_step [OF assms [unfolded get_deployment_def]] by blast

lemma apply_object_version:
  assumes "owner_documented env" "apply_object env cr ob s = ((ob', err), s')"
  shows "later hist pos (world s) (world s') \<and> (err = None \<longrightarrow> (\<exists>j i. versioned hist (deploy ob) (world s) (world s') j i))"
  using assms(2)
proof (cases rule: apply_object_cases)
  case (applied ob1 s1 e)
  from applied(2) have "envApply env ob1 (world s) = (Some e, world s1)" by (rule perform_step)
  with applies applied(3,4) show ?thesis by auto
next
  case (refreshed ob1 s1 res)
  from assms(1) refreshed(1) obtain os where os: "ob1 = with_owners os ob" unfolding owner_documented_def by blast
  from refreshed(2) have "envApply env ob1 (world s) = (None, world s1)" by (rule perform_step)
  with applies have a: "later hist pos (world s) (world s1)" "\<exists>j i. versioned hist (deploy ob) (world s) (world s1) j i"
    by (fastforce simp: os footprint_with_owners)+
  from refreshed(3) have "envRefresh env ob1 (world s1) = (res, world s')" by (rule perform_step)
  with refresh have l: "later hist pos (world s1) (world s')" by blast
  with a(2) versioned_after [OF _ l] have "\<exists>j i. versioned hist (deploy ob) (world s) (world s') j i" by blast
  with later_trans [OF a(1) l] show ?thesis by blast
qed simp_all

lemma apply_Objects_versions:
  assumes "owner_documented env"
  shows "apply_Objects env cr obs s = ((obs', err), s') \<Longrightarrow> later hist pos (world s) (world s') \<and>
    (err = None \<longrightarrow> (\<forall>ob \<in> set obs. \<exists>j i. versioned hist (deploy ob) (world s) (world s') j i))"
proof (induction obs arbitrary: s obs' err s')
  case (Cons ob obs)
  obtain ob1 e s1 where o: "apply_object env cr ob s = ((ob1, e), s1)" by (metis surj_pair)
  obtain obs2 e2 s2 where r: "apply_Objects env cr obs s1 = ((obs2, e2), s2)" by (metis surj_pair)
  note o1 = apply_object_version [OF assms o] and r1 = Cons.IH [OF r]
  show ?case
  proof (cases e)
    case None
    with Cons.prems o r have e: "err = e2" "s' = s2" by auto
    have "\<exists>j i. versioned hist (deploy x) (world s) (world s2) j i" if x: "x \<in> set (ob # obs)" "e2 = None" for x
    proof (cases "x = ob")
      case True
      with o1 None obtain j i where "versioned hist (deploy x) (world s) (world s1) j i" by blast
      then have "versioned hist (deploy x) (world s) (world s2) j i" by (rule versioned_after [OF _ conjunct1 [OF r1]])
      then show ?thesis by blast
    next
      case False
      with x r1 obtain j i where "versioned hist (deploy x) (world s1) (world s2) j i" by auto
      then have "versioned hist (deploy x) (world s) (world s2) j i" by (rule versioned_before [OF _ conjunct1 [OF o1]])
      then show ?thesis by blast
    qed
    moreover have "later hist pos (world s) (world s2)" by (rule later_trans [OF conjunct1 [OF o1] conjunct1 [OF r1]])
    ultimately show ?thesis using e by blast
  qed (use Cons.prems o o1 in auto)
qed simp

lemma detectRollouts_later:
  "detectRollouts env operand obs s = ((events, obs'), s') \<Longrightarrow> later hist pos (world s) (world s')"
proof (induction obs arbitrary: s events obs' s')
  case (Cons ob obs)
  obtain live s1 where l: "get_deployment env (Namespace (obj_meta ob)) (Name (obj_meta ob)) s = (live, s1)" by fastforce
  obtain ev ob2 s2 where r: "detectRollouts env operand obs s1 = ((ev, ob2), s2)" by (metis surj_pair)
  obtain ev3 ob3 s3 where r3: "detectRollouts env operand obs s = ((ev3, ob3), s3)" by (metis surj_pair)
  show ?case
  proof (cases "is_deployment ob")
    case True
    with Cons.prems l r have "s' = s2" by (cases ob) (auto simp: is_deployment_def Let_def stampTemplateHash_def)
    with later_trans [OF conjunct1 [OF get_deployment_shown [OF l]] Cons.IH [OF r]] show ?thesis by simp
  next
    case False
    with Cons.prems r3 have "s' = s3" by (cases ob) (auto simp: is_deployment_def)
    with Cons.IH [OF r3] show ?thesis by simp
  qed
qed simp

lemma recordReadiness_later: "later hist pos (world s) (world (recordReadiness env operand obs s))"
proof (induction obs arbitrary: s)
  case (Cons ob obs)
  show ?case
  proof (cases ob)
    case (DeploymentObj d)
    obtain live s1 where l: "get_deployment env (Namespace (depMeta d)) (Name (depMeta d)) s = (live, s1)" by fastforce
    have "later hist pos (world s1) (world (recordReadiness env operand (ob # obs) s))"
      using Cons.IH [of s1] Cons.IH [of "with_metrics f s1" for f] l DeploymentObj by (auto split: sum.splits)
    then show ?thesis by (rule later_trans [OF conjunct1 [OF get_deployment_shown [OF l]]])
  qed (use Cons in simp_all)
qed simp

end

subsection \<open>One component\<close>

text \<open>The footprint that a component wants for its Deployment.\<close>

definition desired_footprint :: "'w env \<Rightarrow> obj list \<Rightarrow> RolloutTarget \<Rightarrow> hashEntry list \<Rightarrow> footprint" where
  "desired_footprint env obs target es =
     (case find_deployment (fst (stampConfigHash obs target es)) (DeploymentName target) of
        None \<Rightarrow> ([], [])
      | Some d \<Rightarrow> (hashPodTemplate env d, images_of d))"

definition place_for :: "bundle_Component \<Rightarrow> string \<times> string" where
  "place_for c = (comp_Namespace c, DeploymentName (comp_Rollout c))"

lemma stamped_deployment:
  assumes "filter is_deployment obs = [DeploymentObj d]"
  obtains d1 where "filter is_deployment (map (stamp_annotation n h) obs) = [DeploymentObj d1]"
    "place_of d1 = place_of d" "find_deployment (map (stamp_annotation n h) obs) (Name (depMeta d)) = Some d1"
proof -
  obtain d1 where d1: "stamp_annotation n h (DeploymentObj d) = DeploymentObj d1"
    by (cases "Name (depMeta d) = n") (simp_all add: stamp_annotation_def)
  have f: "filter is_deployment (map (stamp_annotation n h) obs) = [DeploymentObj d1]"
    by (simp add: filter_map comp_def assms d1)
  have m: "depMeta d1 = depMeta d" using obj_meta_stamp [of n h "DeploymentObj d"] by (simp add: d1)
  have mem: "DeploymentObj e \<in> set (map (stamp_annotation n h) obs) \<longleftrightarrow> e = d1" for e
  proof -
    have "DeploymentObj e \<in> set (map (stamp_annotation n h) obs) \<longleftrightarrow>
        DeploymentObj e \<in> set (filter is_deployment (map (stamp_annotation n h) obs))"
      by (simp add: is_deployment_def del: filter_map)
    then show ?thesis unfolding f by simp
  qed
  have "find_deployment (map (stamp_annotation n h) obs) (Name (depMeta d)) \<noteq> None"
    using mem [of d1] m unfolding find_deployment_None by auto
  then have "find_deployment (map (stamp_annotation n h) obs) (Name (depMeta d)) = Some d1"
    using mem find_deployment_Some by (metis option.exhaust)
  with f m show thesis by (intro that) (simp_all add: place_of_def)
qed

context cached_cluster
begin

lemma component_later:
  assumes "owner_documented env" "reconcile_component env cr entries c s = (res, s')"
  shows "later hist pos (world s) (world s')"
proof (cases "comp_Render (envYAML env) c cr")
  case (Inr obs)
  obtain obs1 h where st: "stampConfigHash obs (comp_Rollout c) (entries_index entries (comp_Name c)) = (obs1, h)" by fastforce
  obtain ev obs2 s1 where de: "detectRollouts env (comp_Name c) obs1 s = ((ev, obs2), s1)" by (metis surj_pair)
  obtain obs3 err s2 where ap: "apply_Objects env cr obs2 s1 = ((obs3, err), s2)" by (metis surj_pair)
  have "world s' = world s2 \<or> world s' = world (recordReadiness env (comp_Name c) obs3 (with_metrics (commitRollouts ev) s2))"
    using assms(2) Inr st de ap by (cases err) (auto simp: reconcile_component_def)
  then have "later hist pos (world s2) (world s')"
    using recordReadiness_later [of "with_metrics (commitRollouts ev) s2" "comp_Name c" obs3] by auto
  then have "later hist pos (world s1) (world s')" by (rule later_trans [OF conjunct1 [OF apply_Objects_versions [OF assms(1) ap]]])
  then show ?thesis by (rule later_trans [OF detectRollouts_later [OF de]])
qed (use assms(2) in \<open>auto simp: reconcile_component_def\<close>)

lemma component_version:
  assumes doc: "owner_documented env"
    and "reconcile_component env cr entries c s = (Inr r, s')" "comp_Render (envYAML env) c cr = Inr obs"
    and fp: "fp = desired_footprint env obs (comp_Rollout c) (entries_index entries (comp_Name c))"
  obtains p j i where "pos (world s) \<le> p" "p \<le> j" "p \<le> pos (world s')"
    "versioned hist (\<lambda>m. m(place_for c \<mapsto> fp)) (world s) (world s') j i"
    "\<And>k. mOperandRollouts (metrics s') k = mOperandRollouts (metrics s) k +
      (if answered env (place_for c) (world s) \<and> trigger_of ((hist (world s') ! p) (place_for c)) fp = Some (snd k) \<and>
          fst k = comp_Name c then 1 else 0)"
proof -
  from any_component.one_deployment [OF assms(3)] obtain d where
    d: "filter is_deployment obs = [DeploymentObj d]" "Name (depMeta d) = DeploymentName (comp_Rollout c)" by blast
  then have "DeploymentObj d \<in> set (filter is_deployment obs)" by simp
  then have place: "place_of d = place_for c"
    using any_component.in_namespace [OF assms(3), of "DeploymentObj d"] d(2) by (simp add: place_of_def place_for_def)
  obtain obs1 h where st: "stampConfigHash obs (comp_Rollout c) (entries_index entries (comp_Name c)) = (obs1, h)" by fastforce
  then have obs1: "obs1 = map (stamp_annotation (DeploymentName (comp_Rollout c)) h) obs"
    by (auto simp: stampConfigHash_def Let_def)
  from stamped_deployment [OF d(1), of "DeploymentName (comp_Rollout c)" h] obtain d1 where
    d1: "filter is_deployment obs1 = [DeploymentObj d1]" "place_of d1 = place_of d"
      "find_deployment obs1 (DeploymentName (comp_Rollout c)) = Some d1"
    unfolding obs1 d(2) by blast
  let ?d = "stampTemplateHash d1 (hashPodTemplate env d1)"
  have fp1: "fp = (hashPodTemplate env d1, images_of ?d)"
    by (simp add: fp desired_footprint_def st d1(3) images_of_def stampTemplateHash_def)
  have fp2: "footprint_of ?d = fp" unfolding fp1 by (simp add: footprint_of_def stampTemplateHash_def map_index_def)
  obtain ev obs2 s1 where de: "detectRollouts env (comp_Name c) obs1 s = ((ev, obs2), s1)" by (metis surj_pair)
  obtain obs3 err s2 where ap: "apply_Objects env cr obs2 s1 = ((obs3, err), s2)" by (metis surj_pair)
  from assms(2,3) st de ap have err: "err = None" and s': "s' = recordReadiness env (comp_Name c) obs3 (with_metrics (commitRollouts ev) s2)"
    by (auto simp: reconcile_component_def split: option.splits)
  have s2': "later hist pos (world s2) (world s')"
    using recordReadiness_later [of "with_metrics (commitRollouts ev) s2" "comp_Name c" obs3] by (simp add: s')
  note D = detectRollouts_spec [OF de] and A = apply_Objects_versions [OF doc ap]
  from detectRollouts_one [OF d1(1) de] obtain live where
    l: "get_deployment env (fst (place_for c)) (snd (place_for c)) s = (live, s1)"
      "ev = rollout_of (comp_Name c) ?d (hashPodTemplate env d1) live"
    using d1(2) place by (metis fst_conv place_of_def snd_conv)
  from get_deployment_shown [OF l(1)] obtain p where
    p: "later hist pos (world s) (world s1)" "pos (world s) \<le> p" "p \<le> pos (world s1)"
      "agrees live ((hist (world s1) ! p) (place_for c))" by auto
  have "filter is_deployment obs2 = map (stamp_template env) (filter is_deployment obs1)"
  proof -
    have "is_deployment (stamp_template env ob) = is_deployment ob" for ob
      by (cases ob) (simp_all add: is_deployment_def stamp_template_def)
    then show ?thesis using D by (simp add: filter_map comp_def)
  qed
  then have "DeploymentObj ?d \<in> set (filter is_deployment obs2)" by (simp add: d1(1) stamp_template_def)
  then have "DeploymentObj ?d \<in> set obs2" by simp
  with A err obtain j i where v: "versioned hist (deploy (DeploymentObj ?d)) (world s1) (world s2) j i" by blast
  have "place_of ?d = place_for c" using d1(2) place by (simp add: place_of_def stampTemplateHash_def)
  then have dep: "deploy (DeploymentObj ?d) = (\<lambda>m. m(place_for c \<mapsto> fp))"
    by (intro ext) (simp add: deploy_def fp2)
  have p1: "p < length (hist (world s1))" using p(3) known [of "world s1"] by simp
  then have pj: "p \<le> j" using v by (simp add: versioned_def)
  have "later hist pos (world s1) (world s')" by (rule later_trans [OF conjunct1 [OF A] s2'])
  from later_nth [OF this p1] p(4) this have p': "agrees live ((hist (world s') ! p) (place_for c))" "p \<le> pos (world s')"
    using p(3) by (auto simp: later_def)
  have ans: "answered env (place_for c) (world s) \<longleftrightarrow> \<not> (isl live \<and> live \<noteq> Inl NotFound)"
    using perform_result [OF l(1) [unfolded get_deployment_def]] by (cases live) (auto simp: answered_def)
  have "footprint_of ?d = (hashPodTemplate env d1, images_of ?d)" using fp1 fp2 by simp
  from rollout_of_spec [OF this p'(1), of "comp_Name c", folded l(2) fp1]
  have "count_list ev k = (if answered env (place_for c) (world s) \<and>
      trigger_of ((hist (world s') ! p) (place_for c)) fp = Some (snd k) \<and> fst k = comp_Name c then 1 else 0)" for k
    unfolding ans by (cases k) (auto split: option.splits)
  moreover have "metrics s2 = metrics s" using apply_Objects_spec [OF doc ap] D by simp
  ultimately have "mOperandRollouts (metrics s') k = mOperandRollouts (metrics s) k +
      (if answered env (place_for c) (world s) \<and> trigger_of ((hist (world s') ! p) (place_for c)) fp = Some (snd k) \<and>
          fst k = comp_Name c then 1 else 0)" for k
    using recordReadiness_spec [of "with_metrics (commitRollouts ev) s2" env "comp_Name c" obs3]
    by (simp add: s' commitRollouts_counts)
  with that [OF p(2) pj p'(2) versioned_before [OF versioned_after [OF v [unfolded dep] s2'] p(1)]] show thesis by blast
qed

end

text \<open>
  C23: What the rollout counter counts.  Against a cluster that anyone may change, seen through a cache that may
  lag behind, reconciling a component either fails and counts nothing, or makes a version of the
  cluster that differs from some version \<open>j\<close> at most in the footprint (template hash and images) of the
  component's own Deployment, and counts the rollout that replaces the footprint of the version \<open>p\<close>
  that the cache showed: one of the component, with the right trigger, exactly if that replacement is a
  creation, a change of images, or a change of a stamped template hash, and if the read was answered.
  That version is no older than what the informer had got to at the start and no newer than \<open>j\<close>, so
  the rollout is the real one if the informer was up to date and nobody else changed the Deployment.
\<close>

theorem rollouts_counted:
  assumes "owner_documented env" "cached_cluster env hist pos"
    and "reconcile_component env cr entries c s = (res, s')"
  shows "later hist pos (world s) (world s') \<and> (case res of
      Inl _ \<Rightarrow> mOperandRollouts (metrics s') = mOperandRollouts (metrics s)
    | Inr _ \<Rightarrow> (\<exists>obs p j i. comp_Render (envYAML env) c cr = Inr obs \<and>
        (let desired = desired_footprint env obs (comp_Rollout c) (entries_index entries (comp_Name c))
         in pos (world s) \<le> p \<and> p \<le> j \<and> p \<le> pos (world s') \<and>
            versioned hist (\<lambda>m. m(place_for c \<mapsto> desired)) (world s) (world s') j i \<and>
            (\<forall>operand t. mOperandRollouts (metrics s') (operand, t) = mOperandRollouts (metrics s) (operand, t) +
               (if answered env (place_for c) (world s) \<and> operand = comp_Name c \<and>
                   trigger_of ((hist (world s') ! p) (place_for c)) desired = Some t then 1 else 0)))))"
proof (cases res)
  case (Inl e)
  with reconcile_component_spec [OF assms(1,3)] cached_cluster.component_later [OF assms(2,1,3)] show ?thesis by auto
next
  case (Inr r)
  with assms(3) obtain obs where o: "comp_Render (envYAML env) c cr = Inr obs"
    by (cases "comp_Render (envYAML env) c cr") (auto simp: reconcile_component_def)
  let ?fp = "desired_footprint env obs (comp_Rollout c) (entries_index entries (comp_Name c))"
  from cached_cluster.component_version [OF assms(2,1) assms(3) [unfolded Inr] o refl] obtain p j i where
    v: "pos (world s) \<le> p" "p \<le> j" "p \<le> pos (world s')" "versioned hist (\<lambda>m. m(place_for c \<mapsto> ?fp)) (world s) (world s') j i"
      "\<And>k. mOperandRollouts (metrics s') k = mOperandRollouts (metrics s) k +
      (if answered env (place_for c) (world s) \<and> trigger_of ((hist (world s') ! p) (place_for c)) ?fp = Some (snd k) \<and>
          fst k = comp_Name c then 1 else 0)" by blast
  have "mOperandRollouts (metrics s') (operand, t) = mOperandRollouts (metrics s) (operand, t) +
      (if answered env (place_for c) (world s) \<and> operand = comp_Name c \<and>
          trigger_of ((hist (world s') ! p) (place_for c)) ?fp = Some t then 1 else 0)" for operand t
    unfolding v(5) by auto
  with v(1-4) o Inr cached_cluster.component_later [OF assms(2,1,3)] show ?thesis
    unfolding Let_def by (simp only: sum.case) blast
qed

text \<open>
  C24: No phantom rollouts once the informer has caught up.  Reconciling a component makes a version of the cluster with
  the footprint that the component wants, such that later, in whatever state of the process, reconciling it again
  for the same resource and the same Secrets counts nothing, provided that the informer has got to that
  version and, while it reconciles, to none that has another footprint of the Deployment.
\<close>

theorem steady_state_counts_nothing:
  assumes "owner_documented env" "cached_cluster env hist pos"
    and "reconcile_component env cr entries c s = (Inr r, s')"
  shows "\<exists>obs i. comp_Render (envYAML env) c cr = Inr obs \<and> length (hist (world s)) \<le> Suc i \<and> i < length (hist (world s')) \<and>
    (hist (world s') ! i) (place_for c) =
      Some (desired_footprint env obs (comp_Rollout c) (entries_index entries (comp_Name c))) \<and>
    (\<forall>t res t'. later hist pos (world s') (world t) \<longrightarrow> i \<le> pos (world t) \<longrightarrow>
       reconcile_component env cr entries c t = (res, t') \<longrightarrow>
       (\<forall>k. i \<le> k \<and> k \<le> pos (world t') \<longrightarrow> (hist (world t') ! k) (place_for c) = (hist (world s') ! i) (place_for c)) \<longrightarrow>
       mOperandRollouts (metrics t') = mOperandRollouts (metrics t))"
proof -
  from assms(3) obtain obs where obs: "comp_Render (envYAML env) c cr = Inr obs"
    by (cases "comp_Render (envYAML env) c cr") (auto simp: reconcile_component_def)
  let ?fp = "desired_footprint env obs (comp_Rollout c) (entries_index entries (comp_Name c))"
  from cached_cluster.component_version [OF assms(2,1,3) obs refl] obtain j i where
    v: "versioned hist (\<lambda>m. m(place_for c \<mapsto> ?fp)) (world s) (world s') j i" by blast
  then have i: "length (hist (world s)) \<le> Suc i" "i < length (hist (world s'))" "(hist (world s') ! i) (place_for c) = Some ?fp"
    by (auto simp: versioned_def)
  have "mOperandRollouts (metrics t') = mOperandRollouts (metrics t)"
    if t: "i \<le> pos (world t)" "reconcile_component env cr entries c t = (res, t')"
      and same: "\<And>k. i \<le> k \<and> k \<le> pos (world t') \<Longrightarrow> (hist (world t') ! k) (place_for c) = Some ?fp" for t res t'
  proof (cases res)
    case (Inl e)
    with reconcile_component_spec [OF assms(1) t(2)] show ?thesis by auto
  next
    case (Inr r')
    from cached_cluster.component_version [OF assms(2,1) t(2) [unfolded Inr] obs refl] obtain p where
      p: "pos (world t) \<le> p" "p \<le> pos (world t')"
        "\<And>k. mOperandRollouts (metrics t') k = mOperandRollouts (metrics t) k +
          (if answered env (place_for c) (world t) \<and> trigger_of ((hist (world t') ! p) (place_for c)) ?fp = Some (snd k) \<and>
            fst k = comp_Name c then 1 else 0)" by blast
    from same p(1,2) t(1) have "(hist (world t') ! p) (place_for c) = Some ?fp" by simp
    with p(3) show ?thesis by (simp add: fun_eq_iff)
  qed
  with obs i show ?thesis by (intro exI [of _ obs] exI [of _ i]) auto
qed

subsection \<open>A cluster whose informer stands still\<close>

text \<open>The Deployments of each version after the empty one, and how many versions the informer has seen.\<close>

type_synonym lagging = "(string \<times> string \<rightharpoonup> Deployment) list \<times> nat"

definition versions :: "lagging \<Rightarrow> (string \<times> string \<rightharpoonup> Deployment) list" where
  "versions w = Map.empty # fst w"

definition seen :: "lagging \<Rightarrow> nat" where
  "seen w = min (snd w) (length (fst w))"

definition footprints :: "lagging \<Rightarrow> cluster list" where
  "footprints w = map (\<lambda>m k. map_option footprint_of (m k)) (versions w)"

definition lagging_env :: "HyperFleetConfig \<Rightarrow> lagging env" where
  "lagging_env cr =
     \<lparr>envGetCR = (\<lambda>_ w. (Inr cr, w)),
      envGetSecret = (\<lambda>_ _ w. (Inr ''7'', w)),
      envGetDeployment = (\<lambda>ns n w. (case (versions w ! seen w) (ns, n) of None \<Rightarrow> Inl NotFound | Some d \<Rightarrow> Inr d, w)),
      envApply = (\<lambda>ob w. (None, case ob of
          DeploymentObj d \<Rightarrow> (fst w @ [(last (versions w))(place_of d \<mapsto> d)], snd w) | _ \<Rightarrow> w)),
      envRefresh = (\<lambda>ob w. (Inr ob, w)),
      envStatusUpdate = (\<lambda>_ w. (None, w)),
      envHTTPDo = (\<lambda>_ _ w. (Inr example_response, w)),
      envSetControllerReference = (\<lambda>_ ob. Inr ob),
      envToUnstructured = (\<lambda>_. None),
      envMarshalTemplate = (\<lambda>_. Inr ''t''),
      envYAML = (\<lambda>_. Inr ''y''),
      envSetStatusCondition = (\<lambda>_. example_ssc 5)\<rparr>"

lemma lagging_owner: "owner_documented (lagging_env cr)"
proof -
  have "\<exists>os. ob = with_owners os ob" for ob
    by (intro exI [of _ "OwnerReferences (obj_meta ob)"]) (cases ob; simp add: with_owners_def)
  then show ?thesis by (simp add: owner_documented_def lagging_env_def)
qed

lemma footprints_nth: "k \<le> length (fst w) \<Longrightarrow> footprints w ! k = (\<lambda>p. map_option footprint_of ((versions w ! k) p))"
  unfolding footprints_def by (rule nth_map) (simp add: versions_def)

lemma lagging_apply:
  "envApply (lagging_env cr) ob w = (err, w') \<Longrightarrow> later footprints seen w w' \<and> (\<exists>j i. versioned footprints (deploy ob) w w' j i)"
proof (cases "is_deployment ob")
  case True
  then obtain d where DeploymentObj: "ob = DeploymentObj d" by (cases ob) (auto simp: is_deployment_def)
  assume "envApply (lagging_env cr) ob w = (err, w')"
  with DeploymentObj have w': "w' = (fst w @ [(last (versions w))(place_of d \<mapsto> d)], snd w)" by (simp add: lagging_env_def)
  let ?n = "length (fst w)"
  have l: "versions w ! ?n = last (versions w)" "length (footprints w) = Suc ?n"
    by (simp_all add: versions_def footprints_def last_conv_nth)
  have f: "footprints w' = footprints w @ [\<lambda>k. map_option footprint_of (((last (versions w))(place_of d \<mapsto> d)) k)]"
    by (simp add: footprints_def versions_def w')
  have "(\<lambda>k. map_option footprint_of (((last (versions w))(place_of d \<mapsto> d)) k)) = deploy ob (footprints w ! ?n)"
    by (rule ext) (simp add: footprints_nth l DeploymentObj deploy_def)
  then have "versioned footprints (deploy ob) w w' ?n (Suc ?n)"
    by (simp add: versioned_def f l nth_append)
  moreover have "later footprints seen w w'" unfolding later_def f seen_def by (simp add: w')
  ultimately show ?thesis by blast
next
  case False
  assume "envApply (lagging_env cr) ob w = (err, w')"
  with False have "w' = w" "deploy ob = (\<lambda>m. m)"
    by (cases ob; auto simp: lagging_env_def deploy_def is_deployment_def)+
  then have "versioned footprints (deploy ob) w w' (length (fst w)) (length (fst w))"
    by (simp add: versioned_def footprints_def versions_def)
  with \<open>w' = w\<close> show ?thesis by auto
qed

interpretation lagging: cached_cluster "lagging_env cr" footprints seen for cr
proof
  fix w :: lagging
  show "seen w < length (footprints w)" by (simp add: seen_def footprints_def versions_def)
next
  fix ns n w res w'
  assume "envGetDeployment (lagging_env cr) ns n w = (res, w')"
  moreover have "footprints w ! seen w = (\<lambda>k. map_option footprint_of ((versions w ! seen w) k))"
    by (rule footprints_nth) (simp add: seen_def)
  ultimately show "later footprints seen w w' \<and> (\<exists>p. seen w \<le> p \<and> p \<le> seen w' \<and> agrees res ((footprints w' ! p) (ns, n)))"
    by (intro conjI exI [of _ "seen w"]) (auto simp: lagging_env_def agrees_def split: option.splits)
next
  fix ob w err w'
  assume "envApply (lagging_env cr) ob w = (err, w')"
  with lagging_apply show "later footprints seen w w' \<and> (err = None \<longrightarrow> (\<exists>j i. versioned footprints (deploy ob) w w' j i))" by blast
qed (simp add: lagging_env_def)

interpretation lagging_healthy: healthy_world "lagging_env cr" cr "\<lambda>w. snd w = k" for cr k
  by unfold_locales (auto simp: lagging_env_def intro: exI [of _ "Status cr"] split: option.splits obj.splits)

lemma lagging_component:
  obtains r s' where "reconcile_component (lagging_env cr) cr Map.empty example_sentinel s = (Inr r, s')" "snd (world s') = snd (world s)"
proof -
  obtain obs where "comp_Render (envYAML (lagging_env cr)) example_sentinel cr = Inr obs"
    using example_sentinel_renders [of cr] by (auto simp: lagging_env_def)
  with lagging_healthy.component_ok [of s "snd (world s)" cr example_sentinel "Status cr" obs Map.empty] that show thesis by auto
qed

text \<open>As long as the informer stands at the empty version, each reconcile counts a creation: the second one here
  is a phantom.\<close>

theorem rollouts_counted_witness:
  "\<exists>cr r s' r' s''. reconcile_component (lagging_env cr) cr Map.empty example_sentinel (init_sys ([], 0)) = (Inr r, s') \<and>
     mOperandRollouts (metrics s') (comp_Name example_sentinel, TriggerCreate) = 1 \<and>
     reconcile_component (lagging_env cr) cr Map.empty example_sentinel s' = (Inr r', s'') \<and>
     mOperandRollouts (metrics s'') (comp_Name example_sentinel, TriggerCreate) = 2"
proof -
  let ?cr = "example_config None None None" and ?s = "init_sys ([], 0) :: lagging sys"
  let ?n = "\<lambda>s. mOperandRollouts (metrics s) (comp_Name example_sentinel, TriggerCreate)"
  have one: "?n t' = ?n t + 1"
    if t: "reconcile_component (lagging_env ?cr) ?cr Map.empty example_sentinel t = (Inr r, t')" "snd (world t') = 0" for t r t'
  proof -
    have "seen (world t') = 0" using t(2) by (simp add: seen_def)
    moreover have "(footprints (world t') ! 0) (place_for example_sentinel) = None" by (simp add: footprints_def versions_def)
    moreover have "answered (lagging_env ?cr) (place_for example_sentinel) (world t)"
      by (simp add: answered_def lagging_env_def split: option.splits)
    ultimately show ?thesis
      using rollouts_counted [OF lagging_owner lagging.cached_cluster_axioms t(1)]
      by (auto simp: Let_def trigger_of_def simp del: split_paired_All)
  qed
  obtain r s' where r: "reconcile_component (lagging_env ?cr) ?cr Map.empty example_sentinel ?s = (Inr r, s')" "snd (world s') = 0"
    by (rule lagging_component [of ?cr ?s]) (auto simp: init_sys_def)
  obtain r' s'' where r': "reconcile_component (lagging_env ?cr) ?cr Map.empty example_sentinel s' = (Inr r', s'')" "snd (world s'') = 0"
    using r(2) by (auto intro: lagging_component [of ?cr s'])
  have "?n ?s = 0" by (simp add: init_sys_def zero_metrics_def)
  with one [OF r] one [OF r'] r(1) r'(1) show ?thesis by (metis add_0 one_add_one)
qed

text \<open>When the informer has got to the version that the first reconcile made, the second counts nothing.\<close>

theorem steady_state_counts_nothing_witness:
  "\<exists>cr r s' i r' t'. reconcile_component (lagging_env cr) cr Map.empty example_sentinel (init_sys ([], 0)) = (Inr r, s') \<and>
     0 < i \<and> i \<le> length (fst (world s')) \<and>
     reconcile_component (lagging_env cr) cr Map.empty example_sentinel (s'\<lparr>world := (fst (world s'), i)\<rparr>) = (Inr r', t') \<and>
     mOperandRollouts (metrics t') = mOperandRollouts (metrics s')"
proof -
  let ?cr = "example_config None None None" and ?s = "init_sys ([], 0) :: lagging sys"
  obtain r s' where r: "reconcile_component (lagging_env ?cr) ?cr Map.empty example_sentinel ?s = (Inr r, s')" "snd (world s') = 0"
    by (rule lagging_component [of ?cr ?s]) (auto simp: init_sys_def)
  from steady_state_counts_nothing [OF lagging_owner lagging.cached_cluster_axioms r(1)] obtain obs i where
    i: "i < length (footprints (world s'))" "(footprints (world s') ! i) (place_for example_sentinel) =
        Some (desired_footprint (lagging_env ?cr) obs (comp_Rollout example_sentinel) (entries_index Map.empty (comp_Name example_sentinel)))"
      "\<And>t res t'. later footprints seen (world s') (world t) \<Longrightarrow> i \<le> seen (world t) \<Longrightarrow>
         reconcile_component (lagging_env ?cr) ?cr Map.empty example_sentinel t = (res, t') \<Longrightarrow>
         \<forall>k. i \<le> k \<and> k \<le> seen (world t') \<longrightarrow> (footprints (world t') ! k) (place_for example_sentinel) =
            (footprints (world s') ! i) (place_for example_sentinel) \<Longrightarrow>
         mOperandRollouts (metrics t') = mOperandRollouts (metrics t)" by blast
  have i0: "0 < i" using i(2) by (cases i) (simp_all add: footprints_def versions_def)
  have il: "i \<le> length (fst (world s'))" using i(1) by (simp add: footprints_def versions_def)
  let ?t = "s'\<lparr>world := (fst (world s'), i)\<rparr>"
  obtain r' t' where t: "reconcile_component (lagging_env ?cr) ?cr Map.empty example_sentinel ?t = (Inr r', t')" "snd (world t') = i"
    by (rule lagging_component [of ?cr ?t]) auto
  have f: "footprints (world ?t) = footprints (world s')" by (simp add: footprints_def versions_def)
  have l: "later footprints seen (world s') (world ?t)" using r(2) unfolding later_def f seen_def by simp
  have seen: "i \<le> seen (world ?t)" "seen (world t') \<le> i" using il t(2) by (simp_all add: seen_def)
  have same: "footprints (world t') ! i = footprints (world s') ! i"
    using later_nth [OF lagging.component_later [OF lagging_owner t(1)]] i(1) f by simp
  have "(footprints (world t') ! k) (place_for example_sentinel) = (footprints (world s') ! i) (place_for example_sentinel)"
    if "i \<le> k \<and> k \<le> seen (world t')" for k
  proof -
    from that seen(2) have "k = i" by linarith
    with same show ?thesis by simp
  qed
  then have "mOperandRollouts (metrics t') = mOperandRollouts (metrics ?t)"
    using i(3) [OF l seen(1) t(1)] by blast
  then have "mOperandRollouts (metrics t') = mOperandRollouts (metrics s')" by simp
  with r(1) t(1) i0 il show ?thesis by blast
qed

end
