(* ===== verification/Convergence.thy ===== *)
theory Convergence
  imports Rollout_Counting
begin

section \<open>One reconcile corrects any drift\<close>

text \<open>
  The operator is level-triggered: what a reconcile leaves in the cluster depends on the resource and the
  Secrets, not on what was in the cluster before.  The cluster is seen through the part of each object that
  the operator manages, which a successful server-side apply sets (it forces ownership) and nothing
  else that a reconcile does changes.
\<close>

subsection \<open>The contract of the store\<close>

type_synonym store = "string \<times> string \<times> string \<rightharpoonup> obj"

definition put :: "obj \<Rightarrow> store \<Rightarrow> store" where
  "put ob m = m(obj_key ob \<mapsto> ob)"

locale object_store =
  fixes env :: "'w env" and managed :: "'w \<Rightarrow> store"
  assumes get_cr: "envGetCR env n w = (x1, w') \<Longrightarrow> managed w' = managed w"
    and get_secret: "envGetSecret env ns n w = (x2, w') \<Longrightarrow> managed w' = managed w"
    and get_deployment: "envGetDeployment env ns n w = (x3, w') \<Longrightarrow> managed w' = managed w"
    and refresh: "envRefresh env ob w = (x4, w') \<Longrightarrow> managed w' = managed w"
    and status_update: "envStatusUpdate env cr w = (x5, w') \<Longrightarrow> managed w' = managed w"
    and http_do: "envHTTPDo env c url w = (x6, w') \<Longrightarrow> managed w' = managed w"
    and apply_stores: "envApply env ob w = (None, w') \<Longrightarrow> managed w' = put ob (managed w)"

text \<open>A step whose applies all succeeded: the store has changed by exactly the objects applied, in order.\<close>

definition stored :: "('w \<Rightarrow> store) \<Rightarrow> 'w sys \<Rightarrow> 'w sys \<Rightarrow> bool" where
  "stored managed s s' \<longleftrightarrow> (\<exists>new. calls s' = calls s @ new \<and>
     managed (world s') = fold put (applied new) (managed (world s)))"

lemma stored_refl: "stored managed s s"
  by (simp add: stored_def applied_def)

lemma stored_trans: "stored managed s s1 \<Longrightarrow> stored managed s1 s2 \<Longrightarrow> stored managed s s2"
  by (force simp: stored_def applied_def)

lemma stored_metrics [simp]: "stored managed s (with_metrics f s') = stored managed s s'"
  by (simp add: stored_def)

lemma stored_cache [simp]: "stored managed s (cacheDiscovery i u s') = stored managed s s'"
  by (simp add: stored_def cacheDiscovery_def)

lemma perform_exec:
  assumes "perform c f s = (a, s')"
  obtains w where "f (world s) = (a, w)" "s' = s\<lparr>world := w, calls := calls s @ [c]\<rparr>"
proof (cases "f (world s)")
  case (Pair b w)
  with assms show thesis by (intro that [of w]) (simp_all add: perform_def)
qed

lemma stored_read:
  assumes "perform c f s = (a, s')" "applied [c] = []" "\<And>w. f (world s) = (a, w) \<Longrightarrow> managed w = managed (world s)"
  shows "stored managed s s'"
proof -
  obtain w where w: "f (world s) = (a, w)" "s' = s\<lparr>world := w, calls := calls s @ [c]\<rparr>"
    using assms(1) by (rule perform_exec)
  with assms(2) assms(3) [OF w(1)] show ?thesis unfolding stored_def by (intro exI [of _ "[c]"]) simp
qed

lemma put_same [simp]: "put ob m (obj_key ob) = Some ob"
  by (simp add: put_def)

lemma fold_put_other: "k \<notin> obj_key ` set obs \<Longrightarrow> fold put obs m k = m k"
  by (induction obs arbitrary: m) (auto simp: put_def)

lemma fold_put_found: "distinct (map obj_key obs) \<Longrightarrow> ob \<in> set obs \<Longrightarrow> fold put obs m (obj_key ob) = Some ob"
proof (induction obs arbitrary: m)
  case (Cons x xs)
  then show ?case by (cases "ob = x") (simp_all add: fold_put_other)
qed simp

context object_store
begin

lemma secrets_stored: "resolveSecretEntries (Effects.get_secret env) ns refs s = (x, s') \<Longrightarrow> stored managed s s'"
proof (induction refs arbitrary: s x s')
  case (Cons ref refs)
  obtain a s1 where g: "Effects.get_secret env ns (SecretName ref) s = (a, s1)" by fastforce
  then have "stored managed s s1"
    unfolding get_secret_def by (rule stored_read) (auto simp: applied_def dest: get_secret)
  moreover obtain y s2 where "resolveSecretEntries (Effects.get_secret env) ns refs s1 = (y, s2)" by fastforce
  moreover from this Cons.IH have "stored managed s1 s2" by blast
  ultimately show ?case using Cons.prems g stored_trans by (auto split: sum.splits if_splits)
qed (simp add: stored_refl)

lemma collect_stored: "collect_secrets env r cr cs entries missing s = (x, s') \<Longrightarrow> stored managed s s'"
proof (induction cs arbitrary: entries missing s x s')
  case (Cons c cs)
  obtain y s1 where g: "resolveSecretEntries (Effects.get_secret env) (OperatorNamespace r) (comp_ReferencedSecrets c cr) s = (y, s1)" by fastforce
  show ?case
  proof (cases y)
    case (Inr es)
    with Cons.prems g have "collect_secrets env r cr cs (entries(comp_Name c \<mapsto> es))
        (missing @ map heId (filter (\<lambda>e. \<not> hePresent e) es)) s1 = (x, s')" by simp
    from stored_trans [OF secrets_stored [OF g] Cons.IH [OF this]] show ?thesis .
  qed (use secrets_stored [OF g] Cons.prems g in auto)
qed (simp add: stored_refl)

lemma client_stored: "discovery_client r s = (c, s') \<Longrightarrow> stored managed s s'"
  using discovery_client_sel(1,4) [of r s c s'] by (simp add: stored_def applied_def)

lemma discovery_stored: "resolveJWKSURL env r cr s = (x, s') \<Longrightarrow> stored managed s s'"
proof (cases "needs_discovery cr")
  case False
  moreover assume "resolveJWKSURL env r cr s = (x, s')"
  ultimately show ?thesis by (auto simp: resolveJWKSURL_def needs_discovery_def stored_refl split: if_splits)
next
  case True
  assume r: "resolveJWKSURL env r cr s = (x, s')"
  obtain d s1 where d: "discoverJWKSURL env r (Issuer (Auth (API (Spec cr)))) s = (d, s1)" by fastforce
  have "stored managed s s1"
  proof (rule discoverJWKSURL_cases [OF d])
    fix c s2 resp
    assume c: "discovery_client r s = (c, s2)" "perform (HTTPGet c (TrimSuffix (Issuer (Auth (API (Spec cr)))) ''/'' @ oidcDiscoveryPath))
        (envHTTPDo env c (TrimSuffix (Issuer (Auth (API (Spec cr)))) ''/'' @ oidcDiscoveryPath)) s2 = (resp, s1)"
    from c(2) have "stored managed s2 s1" by (rule stored_read) (auto simp: applied_def dest: http_do)
    with client_stored [OF c(1)] show ?thesis by (rule stored_trans)
  qed (simp add: stored_refl)
  with True r d show ?thesis
    by (auto simp: resolveJWKSURL_def needs_discovery_def Let_def split: sum.splits option.splits)
qed

lemma deployment_stored: "Effects.get_deployment env ns n s = (d, s') \<Longrightarrow> stored managed s s'"
  unfolding get_deployment_def by (erule stored_read) (auto simp: applied_def dest: get_deployment)

lemma detect_stored: "detectRollouts env operand obs s = (x, s') \<Longrightarrow> stored managed s s'"
proof (induction obs arbitrary: s x s')
  case (Cons ob obs)
  show ?case
  proof (cases ob)
    case (DeploymentObj d)
    let ?d = "stampTemplateHash d (hashPodTemplate env d)"
    obtain live s1 where l: "Effects.get_deployment env (Namespace (depMeta ?d)) (Name (depMeta ?d)) s = (live, s1)" by fastforce
    obtain y s2 where r: "detectRollouts env operand obs s1 = (y, s2)" by fastforce
    from Cons.prems l r have "s' = s2" by (cases y) (auto simp: DeploymentObj Let_def)
    with stored_trans [OF deployment_stored [OF l] Cons.IH [OF r]] show ?thesis by simp
  qed (use Cons in \<open>auto split: prod.splits\<close>)
qed (simp add: stored_refl)

lemma readiness_stored: "stored managed s (recordReadiness env operand obs s)"
proof (induction obs arbitrary: s)
  case (Cons ob obs)
  show ?case
  proof (cases ob)
    case (DeploymentObj d)
    obtain live s1 where l: "Effects.get_deployment env (Namespace (depMeta d)) (Name (depMeta d)) s = (live, s1)" by fastforce
    from deployment_stored [OF l] have "stored managed s (with_metrics f s1)" "stored managed s s1" for f by simp_all
    from stored_trans [OF this(1) Cons.IH] stored_trans [OF this(2) Cons.IH] l show ?thesis
      by (simp add: DeploymentObj split: sum.split)
  qed (use Cons in simp_all)
qed (simp add: stored_refl)

lemma apply_object_stored: "apply_object env cr ob s = ((ob', None), s') \<Longrightarrow> stored managed s s'"
proof (erule apply_object_cases)
  fix ob1 s1 res
  assume a: "perform (Apply ob1) (envApply env ob1) s = (None, s1)" "perform (Refresh ob1) (envRefresh env ob1) s1 = (res, s')"
  from a(1) obtain w where "envApply env ob1 (world s) = (None, w)" "s1 = s\<lparr>world := w, calls := calls s @ [Apply ob1]\<rparr>"
    by (rule perform_exec)
  with apply_stores have "stored managed s s1" unfolding stored_def by (intro exI [of _ "[Apply ob1]"]) (simp add: applied_def)
  moreover from a(2) have "stored managed s1 s'" by (rule stored_read) (auto simp: applied_def dest: refresh)
  ultimately show "stored managed s s'" by (rule stored_trans)
qed simp_all

lemma apply_stored: "apply_Objects env cr obs s = ((obs', None), s') \<Longrightarrow> stored managed s s'"
proof (induction obs arbitrary: s obs')
  case (Cons ob obs)
  obtain ob1 e s1 where o: "apply_object env cr ob s = ((ob1, e), s1)" by (metis surj_pair)
  obtain obs2 e2 s2 where r: "apply_Objects env cr obs s1 = ((obs2, e2), s2)" by (metis surj_pair)
  from Cons.prems o r have "e = None" "e2 = None" "s2 = s'" by (auto split: option.splits)
  with stored_trans apply_object_stored o Cons.IH r show ?case by blast
qed (simp add: stored_refl)

lemma component_stored:
  assumes "reconcile_component env cr entries c s = (Inr x, s')"
  shows "stored managed s s'"
proof -
  from assms obtain obs where o: "comp_Render (envYAML env) c cr = Inr obs"
    by (cases "comp_Render (envYAML env) c cr") (auto simp: reconcile_component_def)
  obtain obs1 h where st: "stampConfigHash obs (comp_Rollout c) (entries_index entries (comp_Name c)) = (obs1, h)" by fastforce
  obtain ev obs2 s1 where de: "detectRollouts env (comp_Name c) obs1 s = ((ev, obs2), s1)" by (metis surj_pair)
  obtain obs3 e s2 where ap: "apply_Objects env cr obs2 s1 = ((obs3, e), s2)" by (metis surj_pair)
  from assms o st de ap have "e = None" and s': "s' = recordReadiness env (comp_Name c) obs3 (with_metrics (commitRollouts ev) s2)"
    by (auto simp: reconcile_component_def split: option.splits)
  with apply_stored ap have "stored managed s1 (with_metrics (commitRollouts ev) s2)" by simp
  with detect_stored [OF de] readiness_stored s' stored_trans show ?thesis by blast
qed

lemma components_stored:
  "reconcile_components env cr entries cs hashes ccs s = ((None, hashes', ccs'), s') \<Longrightarrow> stored managed s s'"
proof (induction cs arbitrary: hashes ccs s)
  case (Cons c cs)
  obtain x s1 where c: "reconcile_component env cr entries c s = (x, s1)" by fastforce
  from Cons.prems c obtain h cc where x: "x = Inr (h, cc)" by (cases x) auto
  with Cons c component_stored stored_trans show ?case by fastforce
qed (simp add: stored_refl)

lemma body_stored:
  assumes "reconcile_body env r cr s = (oc, s')" "ocError oc = None"
  shows "stored managed s s'"
  using assms(1)
proof (cases rule: reconcile_body_cases)
  case (comps cs0 entries missing s1 s2 url err hashes ccs s3)
  with assms(2) have "err = None" "s' = with_metrics (SetAppliedConfigHash (hashConfig (Spec cr) hashes)) s3" by simp_all
  with collect_stored [OF comps(2)] discovery_stored [OF comps(3)] components_stored comps(4) stored_trans
  show ?thesis by (metis stored_metrics)
qed (use assms(2) in \<open>simp_all add: failed_def\<close>)

lemma update_stored: "update_status env cr oc s = (e, s') \<Longrightarrow> stored managed s s'"
proof -
  assume u: "update_status env cr oc s = (e, s')"
  obtain cr' ch where ag: "aggregateStatus (envSetStatusCondition env (world s)) cr (ocReports oc) (ocCollected oc) (ocMissing oc) (ocError oc) = (cr', ch)"
    by fastforce
  obtain x s1 where p: "perform (StatusUpdate cr') (envStatusUpdate env cr') s = (x, s1)" by fastforce
  then have "stored managed s s1" by (rule stored_read) (auto simp: applied_def dest: status_update)
  with u ag p show ?thesis by (auto simp: update_status_def stored_refl split: if_splits option.splits)
qed

lemma reconcile_stored:
  assumes "Reconcile env r req s = (None, s')" "fst (envGetCR env req (world s)) = Inr cr"
  shows "stored managed s s'"
  using assms(1)
proof (cases rule: Reconcile_cases)
  case (found cr1 s1 oc s2 s3)
  from found(1) have "stored managed s s1" by (rule stored_read) (auto simp: applied_def dest: get_cr)
  moreover from update_status_calls [OF found(3)] have "ocError oc = None" by auto
  with body_stored found(2) have "stored managed s1 s2" by blast
  ultimately show ?thesis using update_stored [OF found(3)] found(4) stored_trans by simp blast
next
  case (gone s1)
  with perform_result [OF gone(1)] assms(2) show ?thesis by simp
next
  case (unread e s1)
  then show ?thesis by simp
qed

end

subsection \<open>The whole bundle is in the cluster\<close>

text \<open>
  C17: One successful reconcile corrects any drift: against a store that keeps what is applied, from any
  state of the cluster, whatever was edited, deleted or left over there, a reconcile without error leaves
  every object of the bundle in the cluster as it was rendered for this resource with a key-set URL that is
  verified or not needed, up to owner references and the two hash annotations, and changes the
  managed part of no other object.
\<close>

theorem drift_corrected:
  assumes "object_store env managed" "owner_documented env" "client_ok s" "cache_ok s"
    and "fst (envGetCR env req (world s)) = Inr cr" "Reconcile env r req s = (None, s')"
  shows "\<exists>cs url obss. resolved_components r cr url cs \<and>
    (url = [] \<longleftrightarrow> \<not> needs_discovery cr) \<and> (needs_discovery cr \<longrightarrow> verified_jwks (Issuer (Auth (API (Spec cr)))) url) \<and>
    map (\<lambda>c. comp_Render (envYAML env) c cr) cs = map Inr obss \<and>
    (\<forall>ob \<in> set (concat obss). \<exists>x. decorated env ob x \<and> managed (world s') (obj_key ob) = Some x) \<and>
    (\<forall>k. k \<notin> obj_key ` set (concat obss) \<longrightarrow> managed (world s') k = managed (world s) k)"
proof -
  from Reconcile_applies [OF assms(2-6)] obtain cs url obss new where
    a: "resolved_components r cr url cs" "map (\<lambda>c. comp_Render (envYAML env) c cr) cs = map Inr obss"
      "calls s' = calls s @ new" "list_all2 (decorated env) (concat obss) (applied new)"
      "(url = [] \<longleftrightarrow> \<not> needs_discovery cr) \<and> (needs_discovery cr \<longrightarrow> verified_jwks (Issuer (Auth (API (Spec cr)))) url)" by blast
  from object_store.reconcile_stored [OF assms(1,6,5)] a(3)
  have m: "managed (world s') = fold put (applied new) (managed (world s))" by (auto simp: stored_def)
  note keys = list_all2_key [OF a(4)]
  have "map (\<lambda>c. comp_Render (envYAML env) c cr) (take (length obss) cs) = map Inr obss"
    using a(2) by (metis length_map order_refl take_all_iff)
  from resolved_keys(1) [OF a(1) this] have dist: "distinct (map obj_key (applied new))" using keys by simp
  have "\<exists>x. decorated env ob x \<and> managed (world s') (obj_key ob) = Some x" if ob: "ob \<in> set (concat obss)" for ob
  proof -
    from ob obtain i where i: "i < length (concat obss)" "concat obss ! i = ob" by (metis in_set_conv_nth)
    let ?x = "applied new ! i"
    have "decorated env ob ?x" "?x \<in> set (applied new)"
      using i a(4) list_all2_lengthD [OF a(4)] by (auto simp: list_all2_conv_all_nth)
    with fold_put_found [OF dist] m decorated_key show ?thesis by metis
  qed
  moreover have "managed (world s') k = managed (world s) k" if "k \<notin> obj_key ` set (concat obss)" for k
    using that fold_put_other [of k "applied new"] m keys by (metis list.set_map)
  ultimately show ?thesis using a(1,2,5) by blast
qed

subsection \<open>A cluster that keeps objects\<close>

definition keeping_env :: "HyperFleetConfig \<Rightarrow> store env" where
  "keeping_env cr =
     \<lparr>envGetCR = (\<lambda>_ w. (Inr cr, w)), envGetSecret = (\<lambda>_ _ w. (Inr ''7'', w)),
      envGetDeployment = (\<lambda>ns n w. (case w (''Deployment'', ns, n) of Some (DeploymentObj d) \<Rightarrow> Inr d | _ \<Rightarrow> Inl NotFound, w)),
      envApply = (\<lambda>ob w. (None, put ob w)),
      envRefresh = (\<lambda>ob w. (case w (obj_key ob) of Some x \<Rightarrow> Inr x | None \<Rightarrow> Inr ob, w)),
      envStatusUpdate = (\<lambda>_ w. (None, w)), envHTTPDo = (\<lambda>_ _ w. (Inr example_response, w)),
      envSetControllerReference = (\<lambda>_ ob. Inr ob), envToUnstructured = (\<lambda>_. None), envMarshalTemplate = (\<lambda>_. Inr ''t''),
      envYAML = (\<lambda>_. Inr ''y''), envSetStatusCondition = (\<lambda>_. example_ssc 5)\<rparr>"

interpretation keeping: object_store "keeping_env cr" "\<lambda>w. w" for cr
  by unfold_locales (simp_all add: keeping_env_def)

interpretation keeping_healthy: healthy_world "keeping_env cr" cr "\<lambda>_. True" for cr
  by unfold_locales (auto simp: keeping_env_def intro: exI [of _ "Status cr"] split: option.splits)

text \<open>A cluster that holds a foreign object, and a wrong one in the place of each object of the bundle.\<close>

theorem drift_corrected_witness:
  "\<forall>wrong. \<exists>s'. Reconcile (keeping_env example_cr) example_reconciler ''cluster'' (init_sys (\<lambda>_. Some wrong)) = (None, s') \<and>
     world s' (''ConfigMap'', ''other'', ''x'') = Some wrong \<and>
     list_all (\<lambda>k. \<exists>ob. world s' k = Some ob \<and> obj_key ob = k) (concat (bundle_object_keys ''hyperfleet-system''))"
proof
  fix wrong
  let ?env = "keeping_env example_cr" and ?s = "init_sys (\<lambda>_. Some wrong) :: store sys"
  have "discoverable ?env (\<lambda>_. True) example_cr ?s"
    by (simp add: discoverable_def Let_def keeping_env_def example_provider)
  from keeping_healthy.reconcile_ok [OF _ this example_configured] obtain s' where
    r: "Reconcile ?env example_reconciler ''cluster'' ?s = (None, s')" by auto
  have "\<exists>os. ob = with_owners os ob" for ob
    by (intro exI [of _ "OwnerReferences (obj_meta ob)"]) (cases ob; simp add: with_owners_def)
  then have o: "owner_documented ?env" by (simp add: owner_documented_def keeping_env_def)
  have "fst (envGetCR ?env ''cluster'' (world ?s)) = Inr example_cr" by (simp add: keeping_env_def)
  from drift_corrected [OF keeping.object_store_axioms o example_initial this r] obtain cs url obss where
    d: "resolved_components example_reconciler example_cr url cs" "map (\<lambda>c. comp_Render (envYAML ?env) c example_cr) cs = map Inr obss"
      "\<forall>ob \<in> set (concat obss). \<exists>x. decorated ?env ob x \<and> world s' (obj_key ob) = Some x"
      "\<forall>k. k \<notin> obj_key ` set (concat obss) \<longrightarrow> world s' k = world ?s k" by blast
  have full: "length obss = length cs" using arg_cong [OF d(2), of length] by simp
  then have t: "map (\<lambda>c. comp_Render (envYAML ?env) c example_cr) (take (length obss) cs) = map Inr obss" using d(2) by simp
  have "length cs = length (bundle_object_keys (OperatorNamespace example_reconciler))"
  proof (rule resolved_shape [OF d(1)])
    fix a ss
    assume "cs = APIComponent a # map SentinelComponent ss" "map seResourceType ss = map edPlural CloudCAPIEntities"
    then show ?thesis by (simp add: bundle_object_keys_def) (metis length_map)
  qed
  with resolved_key_list [OF d(1) t] full have keys: "map obj_key (concat obss) = concat (bundle_object_keys ''hyperfleet-system'')"
    by (simp add: example_reconciler_def)
  have "(''ConfigMap'', ''other'', ''x'') \<notin> obj_key ` set (concat obss)"
    using resolved_keys(2) [OF d(1) t] by (auto simp: obj_key_def example_reconciler_def)
  with d(4) have "world s' (''ConfigMap'', ''other'', ''x'') = Some wrong" by (simp add: init_sys_def)
  moreover have "\<exists>ob. world s' k = Some ob \<and> obj_key ob = k" if "k \<in> set (concat (bundle_object_keys ''hyperfleet-system''))" for k
    using that d(3) decorated_key unfolding keys [symmetric] by fastforce
  ultimately show "\<exists>s'. Reconcile ?env example_reconciler ''cluster'' ?s = (None, s') \<and>
     world s' (''ConfigMap'', ''other'', ''x'') = Some wrong \<and>
     list_all (\<lambda>k. \<exists>ob. world s' k = Some ob \<and> obj_key ob = k) (concat (bundle_object_keys ''hyperfleet-system''))"
    using r unfolding list_all_iff by blast
qed

end
