(* ===== verification/Json_Injective.thy ===== *)
theory Json_Injective
  imports Operand_Apply
begin

section \<open>The applied-configuration digest is unambiguous\<close>

text \<open>
  \<^verbatim>\<open>hashConfig\<close> of \<^verbatim>\<open>internal/controller/observability.go\<close> hashes the JSON text of the spec followed by
  the component hashes, each after a NUL byte.  A decoder reads JSON strings back, so the texts of
  strings and of values form prefix codes, and two inputs that differ are never the same text.
\<close>

subsection \<open>Reading a string back\<close>

definition of_hex :: "char \<Rightarrow> nat" where
  "of_hex c = (if is_digit c then of_char c - 48 else of_char c - 87)"

definition rune_text :: "nat \<Rightarrow> string" where
  "rune_text n = (if n = 8232 then [CHR 0xE2, CHR 0x80, CHR 0xA8]
     else if n = 8233 then [CHR 0xE2, CHR 0x80, CHR 0xA9] else [char_of n])"

definition short_escape :: "char \<Rightarrow> char" where
  "short_escape d = (if d = CHR ''b'' then CHR 0x08 else if d = CHR ''f'' then CHR 0x0C
     else if d = CHR ''n'' then CHR 0x0A else if d = CHR ''r'' then CHR 0x0D
     else if d = CHR ''t'' then CHR 0x09 else d)"

text \<open>The text up to the closing quote, and what follows it.\<close>

function unescape :: "string \<Rightarrow> (string \<times> string) option" where
  "unescape s = (case s of [] \<Rightarrow> None | c # cs \<Rightarrow>
     if c = CHR 0x22 then Some ([], cs)
     else if c = backslash then
       (case cs of [] \<Rightarrow> None | d # ds \<Rightarrow>
          if d = CHR ''u'' then
            (case ds of
               h1 # h2 # h3 # h4 # rest \<Rightarrow> map_option (apfst (append (rune_text
                 (of_hex h1 * 4096 + of_hex h2 * 256 + of_hex h3 * 16 + of_hex h4)))) (unescape rest)
             | _ \<Rightarrow> None)
          else map_option (apfst (Cons (short_escape d))) (unescape ds))
     else map_option (apfst (Cons c)) (unescape cs))"
  by pat_completeness auto
termination
  by (relation "measure length") auto

declare unescape.simps [simp del]

lemma unescape_quote: "unescape (CHR 0x22 # t) = Some ([], t)"
  by (simp add: unescape.simps)

lemma unescape_plain:
  "c \<noteq> CHR 0x22 \<Longrightarrow> c \<noteq> backslash \<Longrightarrow> unescape (c # t) = map_option (apfst (Cons c)) (unescape t)"
  by (subst unescape.simps) simp

lemma unescape_bytes:
  "list_all (\<lambda>c. 128 \<le> (of_char c :: nat)) u \<Longrightarrow> unescape (u @ t) = map_option (apfst (append u)) (unescape t)"
proof (induction u)
  case Nil
  then show ?case by (simp add: apfst_def map_prod_def option.map_ident)
next
  case (Cons c u)
  then have "c \<noteq> CHR 0x22" "c \<noteq> backslash" by (auto simp: backslash_def)
  with Cons show ?case by (cases "unescape t") (auto simp: unescape_plain)
qed

lemma hex_digit_back: "k < 16 \<Longrightarrow> of_hex (hex_digit k) = k"
  by (cases "k < 10") (simp_all add: of_hex_def hex_digit_def is_digit_def of_char_of)

lemma unescape_hex4:
  assumes "n < 65536" shows "unescape (hex4 n @ t) = map_option (apfst (append (rune_text n))) (unescape t)"
  using four_hex [OF assms] assms by (subst unescape.simps) (simp add: hex4_def hex_digit_back backslash_def)

lemma unescape_ascii:
  assumes "(of_char c :: nat) < 128"
  shows "unescape (escape_ascii c @ t) = map_option (apfst (Cons c)) (unescape t)"
proof -
  define n where "n = (of_char c :: nat)"
  then have c: "c = char_of n" "n < 128" using assms by simp_all
  consider "n = 34 \<or> n = 92" | "n \<in> {8, 12, 10, 13, 9}"
    | "n \<notin> {34, 92, 8, 12, 10, 13, 9}" "n < 32 \<or> n = 60 \<or> n = 62 \<or> n = 38"
    | "n \<notin> {34, 92, 8, 12, 10, 13, 9}" "\<not> (n < 32 \<or> n = 60 \<or> n = 62 \<or> n = 38)" by blast
  then show ?thesis
  proof cases
    case 1
    then have "c = CHR 0x22 \<or> c = CHR 0x5C" unfolding n_def by (auto intro: char_eqI)
    then show ?thesis
      by (auto simp: escape_ascii_def backslash_def unescape.simps [of "CHR 0x5C # _"] short_escape_def)
  next
    case 2
    then have "c \<in> {CHR 0x08, CHR 0x0C, CHR 0x0A, CHR 0x0D, CHR 0x09}" unfolding n_def by (auto intro: char_eqI)
    then show ?thesis
      by (auto simp: escape_ascii_def backslash_def unescape.simps [of "CHR 0x5C # _"] short_escape_def)
  next
    case 3
    then have "escape_ascii c = hex4 n" by (simp add: escape_ascii_def Let_def flip: n_def)
    moreover have "rune_text n = [c]" using c by (simp add: rune_text_def)
    moreover have "append [c] = Cons c" by (simp add: fun_eq_iff)
    ultimately show ?thesis using unescape_hex4 [of n t] c(2) by simp
  next
    case 4
    then have "escape_ascii c = [c]" by (simp add: escape_ascii_def Let_def flip: n_def)
    moreover have "c \<noteq> CHR 0x22" "c \<noteq> backslash" using 4 n_def by (auto simp: backslash_def)
    ultimately show ?thesis by (simp add: unescape_plain)
  qed
qed

lemma unescape_body:
  "valid_utf8 s \<Longrightarrow> unescape (json_body s @ CHR 0x22 # t) = Some (s, t)"
proof (induction s rule: json_body.induct)
  case (1 s)
  show ?case
  proof (cases s)
    case Nil
    then show ?thesis by (simp add: json_body.simps unescape_quote)
  next
    case (Cons c cs)
    show ?thesis
    proof (cases "(of_char c :: nat) < 128")
      case True
      with 1(4) Cons have "valid_utf8 cs" by (simp add: valid_utf8.simps [of "c # cs"])
      with 1(1) [OF Cons True] True Cons show ?thesis
        by (simp add: json_body.simps [of "c # cs"] unescape_ascii)
    next
      case False
      with 1(4) Cons obtain n where n: "rune_size s = Some n" "valid_utf8 (drop (n - 1) cs)"
        by (auto simp: valid_utf8.simps [of "c # cs"] split: option.splits)
      note b = rune_size_bytes [OF n(1)]
      let ?t = "json_body (drop (n - 1) cs) @ CHR 0x22 # t"
      let ?e = "if take n s = [CHR 0xE2, CHR 0x80, CHR 0xA8] then hex4 8232
            else if take n s = [CHR 0xE2, CHR 0x80, CHR 0xA9] then hex4 8233 else take n s"
      have "json_body s @ CHR 0x22 # t = ?e @ ?t"
        using False Cons n(1) by (simp add: json_body.simps [of "c # cs"])
      moreover have "unescape (?e @ ?t) = map_option (apfst (append (take n s))) (unescape ?t)"
        using b unescape_bytes [of "take n s" ?t] by (simp add: unescape_hex4 rune_text_def)
      moreover have "take n s @ drop (n - 1) cs = s"
        using b Cons by (cases n) auto
      ultimately show ?thesis using 1(3) [OF Cons False n(1) n(2)] by simp
    qed
  qed
qed

lemma json_string_front:
  assumes "valid_utf8 a" "valid_utf8 b" "json_string a @ r = json_string b @ s"
  shows "a = b \<and> r = s"
proof -
  have "json_body a @ CHR 0x22 # r = json_body b @ CHR 0x22 # s" using assms(3) by (simp add: json_string_def)
  from arg_cong [OF this, of unescape] unescape_body [OF assms(1), of r] unescape_body [OF assms(2), of s]
  show ?thesis by (simp only: option.inject prod.inject)
qed

interpretation string_code: prefix_code valid_utf8 json_string
  by unfold_locales (blast dest: json_string_front, simp add: json_string_def)


subsection \<open>Reading a value back\<close>

text \<open>Words joined by a separator and closed by a terminator, neither of which starts a word.\<close>

lemma joined_tail_front:
  assumes "t \<noteq> c"
    and "\<And>x y r s. x \<in> set xs \<Longrightarrow> y \<in> set ys \<Longrightarrow> enc x @ r = enc y @ s \<Longrightarrow> x = y \<and> r = s"
    and "concat (map (\<lambda>x. c # enc x) xs) @ t # r = concat (map (\<lambda>x. c # enc x) ys) @ t # s"
  shows "xs = ys \<and> r = s"
  using assms(2,3)
proof (induction xs arbitrary: ys)
  case Nil
  with assms(1) show ?case by (cases ys) auto
next
  case (Cons x xs)
  with assms(1) obtain y ys' where ys: "ys = y # ys'" by (cases ys) auto
  with Cons.prems have "x = y \<and> concat (map (\<lambda>x. c # enc x) xs) @ t # r = concat (map (\<lambda>x. c # enc x) ys') @ t # s"
    by (intro Cons.prems(1)) auto
  with Cons.IH [of ys'] Cons.prems(1) ys show ?case by auto
qed

lemma joined_front:
  assumes tc: "t \<noteq> c"
    and front: "\<And>x y r s. x \<in> set xs \<Longrightarrow> y \<in> set ys \<Longrightarrow> enc x @ r = enc y @ s \<Longrightarrow> x = y \<and> r = s"
    and start: "\<And>x. x \<in> set xs \<union> set ys \<Longrightarrow> \<exists>a u. enc x = a # u \<and> a \<noteq> t"
    and eq: "strings_Join (map enc xs) [c] @ t # r = strings_Join (map enc ys) [c] @ t # s"
  shows "xs = ys \<and> r = s"
proof (cases xs)
  case Nil
  show ?thesis
  proof (cases ys)
    case (Cons y ys')
    from start [of y] Cons obtain a u where "enc y = a # u" "a \<noteq> t" by auto
    with eq Nil Cons show ?thesis by (simp add: strings_Join_concat)
  qed (use eq Nil in simp)
next
  case (Cons x xs')
  show ?thesis
  proof (cases ys)
    case Nil
    from start [of x] Cons obtain a u where "enc x = a # u" "a \<noteq> t" by auto
    with eq Nil Cons show ?thesis by (simp add: strings_Join_concat)
  next
    case ys: (Cons y ys')
    have "enc x @ concat (map (\<lambda>x. c # enc x) xs') @ t # r = enc y @ concat (map (\<lambda>x. c # enc x) ys') @ t # s"
      using eq by (simp add: Cons ys strings_Join_concat comp_def)
    with front [of x y] Cons ys have "x = y"
      "concat (map (\<lambda>x. c # enc x) xs') @ t # r = concat (map (\<lambda>x. c # enc x) ys') @ t # s" by auto
    moreover have "xs' = ys' \<and> r = s"
      by (rule joined_tail_front [OF tc _ calculation(2)]) (use front Cons ys in auto)
    ultimately show ?thesis using Cons ys by simp
  qed
qed

text \<open>Values without numbers; the resource's spec has none.\<close>

fun wf_json :: "json \<Rightarrow> bool" where
  "wf_json (JBool b) = True"
| "wf_json (JNum i) = False"
| "wf_json (JStr s) = valid_utf8 s"
| "wf_json (JArr js) = list_all wf_json js"
| "wf_json (JObj ms) = list_all (\<lambda>(k, v). valid_utf8 k \<and> wf_json v) ms"

definition json_member_text :: "string \<times> json \<Rightarrow> string" where
  "json_member_text = (\<lambda>(k, v). json_string k @ '':'' @ json_Marshal v)"

lemma json_start:
  "wf_json j \<Longrightarrow> \<exists>a u. json_Marshal j = a # u \<and> a \<noteq> CHR '']'' \<and> a \<noteq> CHR ''}''"
  by (cases j) (auto simp: json_string_def)

lemma json_front:
  "wf_json i \<Longrightarrow> wf_json j \<Longrightarrow> json_Marshal i @ r = json_Marshal j @ s \<Longrightarrow> i = j \<and> r = s"
proof (induction i arbitrary: j r s)
  case (JBool b)
  then show ?case by (cases j) (auto simp: json_string_def split: if_splits)
next
  case (JNum n)
  then show ?case by simp
next
  case (JStr a)
  then obtain b where "j = JStr b" by (cases j) (auto simp: json_string_def split: if_splits)
  with JStr show ?case using json_string_front [of a b r s] by simp
next
  case (JArr xs)
  then obtain js where j: "j = JArr js" by (cases j) (auto simp: json_string_def split: if_splits)
  have "xs = js \<and> r = s"
  proof (rule joined_front [of "CHR '']''" "CHR '',''" xs js json_Marshal])
    show "strings_Join (map json_Marshal xs) '','' @ CHR '']'' # r = strings_Join (map json_Marshal js) '','' @ CHR '']'' # s"
      using JArr.prems(3) j by simp
    show "x = y \<and> r' = s'" if "x \<in> set xs" "y \<in> set js" "json_Marshal x @ r' = json_Marshal y @ s'" for x y r' s'
      using JArr.IH [OF that(1) _ _ that(3)] JArr.prems(1,2) that(1,2) j by (auto simp: list_all_iff)
    show "\<exists>a u. json_Marshal x = a # u \<and> a \<noteq> CHR '']''" if "x \<in> set xs \<union> set js" for x
      using json_start [of x] JArr.prems(1,2) that j by (auto simp: list_all_iff)
  qed simp
  with j show ?case by simp
next
  case (JObj ms)
  then obtain ns where j: "j = JObj ns" by (cases j) (auto simp: json_string_def split: if_splits)
  have "ms = ns \<and> r = s"
  proof (rule joined_front [of "CHR ''}''" "CHR '',''" ms ns json_member_text])
    show "strings_Join (map json_member_text ms) '','' @ CHR ''}'' # r = strings_Join (map json_member_text ns) '','' @ CHR ''}'' # s"
      using JObj.prems(3) j by (simp add: json_member_text_def)
    show "x = y \<and> r' = s'" if "x \<in> set ms" "y \<in> set ns" "json_member_text x @ r' = json_member_text y @ s'" for x y r' s'
    proof -
      obtain k v where x: "x = (k, v)" by fastforce
      obtain l w where y: "y = (l, w)" by fastforce
      have wf: "valid_utf8 k" "wf_json v" "valid_utf8 l" "wf_json w"
        using JObj.prems(1,2) that(1,2) j x y by (auto simp: list_all_iff)
      have "json_string k @ CHR '':'' # json_Marshal v @ r' = json_string l @ CHR '':'' # json_Marshal w @ s'"
        using that(3) by (simp add: x y json_member_text_def)
      from json_string_front [OF wf(1,3) this] have "k = l" "json_Marshal v @ r' = json_Marshal w @ s'" by simp_all
      with JObj.IH [of x v w r' s'] that(1) x wf y show ?thesis by (auto simp: snds.simps)
    qed
    show "\<exists>a u. json_member_text x = a # u \<and> a \<noteq> CHR ''}''" if "x \<in> set ms \<union> set ns" for x
      by (cases x) (simp add: json_member_text_def json_string_def)
  qed simp
  with j show ?case by simp
qed

interpretation value_code: prefix_code wf_json json_Marshal
  by unfold_locales (blast dest: json_front, use json_start in fastforce)


subsection \<open>The digest text\<close>

lemma nul_tail_inj:
  "list_all (\<lambda>h. CHR 0x00 \<notin> set h) xs \<Longrightarrow> list_all (\<lambda>h. CHR 0x00 \<notin> set h) ys \<Longrightarrow>
   concat (map (\<lambda>h. CHR 0x00 # h) xs) = concat (map (\<lambda>h. CHR 0x00 # h) ys) \<Longrightarrow> xs = ys"
proof (induction xs arbitrary: ys)
  case Nil
  then show ?case by (cases ys) auto
next
  case (Cons x xs)
  then obtain y ys' where ys: "ys = y # ys'" by (cases ys) auto
  let ?t = "\<lambda>zs. concat (map (\<lambda>h. CHR 0x00 # h) zs)"
  have tw: "takeWhile (\<lambda>c. c \<noteq> CHR 0x00) (z @ ?t zs) = z" if "CHR 0x00 \<notin> set z" for z zs
    using that by (cases zs) (auto simp: takeWhile_append takeWhile_eq_all_conv)
  have eq: "x @ ?t xs = y @ ?t ys'" using Cons.prems(3) ys by simp
  with tw [of x xs] tw [of y ys'] Cons.prems(1,2) ys have "x = y" by simp
  with eq Cons.IH [of ys'] Cons.prems(1,2) ys show ?case by simp
qed

text \<open>The texts of a spec.\<close>

definition spec_texts :: "HyperFleetConfigSpec \<Rightarrow> string list" where
  "spec_texts s = [Bundle s, srName (dbSecretRef (Database (API s))), Issuer (Auth (API s)), Audience (Auth (API s)), Profile (API s)] @
     (case JWKCertSecretRef (Auth (API s)) of None \<Rightarrow> [] | Some r \<Rightarrow> [srName r]) @
     (case TLS (API s) of None \<Rightarrow> [] | Some t \<Rightarrow> [srName (tlsSecretRef t)])"

lemma wf_spec_json:
  assumes "list_all valid_utf8 (spec_texts s)"
  shows "wf_json (spec_json s)"
  using assms
  by (auto simp: spec_texts_def spec_json_def api_spec_json_def auth_json_def secret_ref_json_def omitempty_def valid_ascii
      split: option.splits)

text \<open>
  C16: The digest of the applied configuration is taken over an unambiguous text: two specs whose texts are
  valid UTF-8, with component hashes that contain no NUL byte (they are hexadecimal), give the
  same text exactly when the specs are equal and so are the lists of hashes.  In particular no
  quotation mark, escape or separator inside a field can imitate another configuration, and no component's
  hash can be mistaken for part of the spec.
\<close>

theorem config_digest_faithful:
  assumes "list_all valid_utf8 (spec_texts s)" "list_all valid_utf8 (spec_texts s')"
    and "list_all (\<lambda>h. CHR 0x00 \<notin> set h) hs" "list_all (\<lambda>h. CHR 0x00 \<notin> set h) hs'"
  shows "config_digest_text s hs = config_digest_text s' hs' \<longleftrightarrow> s = s' \<and> hs = hs'"
proof
  assume eq: "config_digest_text s hs = config_digest_text s' hs'"
  have "json_Marshal (spec_json s) @ concat (map (\<lambda>h. CHR 0x00 # h) hs) =
      json_Marshal (spec_json s') @ concat (map (\<lambda>h. CHR 0x00 # h) hs')"
    using eq by (simp add: config_digest_text_def)
  from json_front [OF wf_spec_json [OF assms(1)] wf_spec_json [OF assms(2)] this]
  have "spec_json s = spec_json s'" "concat (map (\<lambda>h. CHR 0x00 # h) hs) = concat (map (\<lambda>h. CHR 0x00 # h) hs')" by simp_all
  with nul_tail_inj [OF assms(3,4)] show "s = s' \<and> hs = hs'" by (simp add: spec_json_inj)
qed simp

theorem config_digest_faithful_witness:
  "config_digest_text (Spec (example_config (Some True) None None)) [''ab''] \<noteq>
     config_digest_text (Spec (example_config None None None)) [''ab'']"
proof -
  have "list_all valid_utf8 (spec_texts (Spec (example_config e None None)))" for e
    by (simp add: spec_texts_def example_config_def valid_ascii BundleCloudCAPI_def)
  from config_digest_faithful [OF this [of "Some True"] this [of None], of "[''ab'']" "[''ab'']"]
  show ?thesis by (simp add: example_config_def)
qed

end
