(* ===== verification/Related_Images.thy ===== *)
theory Related_Images
  imports Prelude
begin

section \<open>The related-images validator\<close>

text \<open>
  \<^verbatim>\<open>validators/related-images/main.go\<close>: the check that an OLM bundle's ClusterServiceVersion pins every
  image by digest and lists it in \<^verbatim>\<open>spec.relatedImages\<close>.  The parsed reference of the third-party
  \<^verbatim>\<open>distribution/reference\<close> package, the YAML decoder and the file system are parameters; so is the
  order in which Go iterates over a map, of which only that it visits every key once is used.
  A Go map is an association list in order of insertion, and a message is kept as its format and
  arguments.
\<close>

subsection \<open>Data\<close>

definition relatedImagePrefix :: string where "relatedImagePrefix = ''RELATED_IMAGE_''"
definition validatorName :: string where "validatorName = ''related-images''"

record validationMsg =
  vmType :: string
  vmLevel :: string
  vmField :: string
  vmDetail :: error

record manifestResult =
  mrName :: string
  mrErrors :: "validationMsg list"
  mrWarnings :: "validationMsg list"

record imageEntry =
  ieName :: string
  ieImage :: string

record csv_env =
  ceName :: string
  ceValue :: string

record csv_container =
  ccnName :: string
  ccnImage :: string
  ccnEnv :: "csv_env list"

record csv_deployment =
  cdContainers :: "csv_container list"
  cdInitContainers :: "csv_container list"

record csvDocument =
  csvDeployments :: "csv_deployment list"
  csvRelatedImages :: "imageEntry list"

definition errMsg :: "string \<Rightarrow> error \<Rightarrow> validationMsg" where
  "errMsg field detail = \<lparr>vmType = ''FailedValidation'', vmLevel = ''error'', vmField = field, vmDetail = detail\<rparr>"

subsection \<open>Digest pull specs\<close>

text \<open>What the reference package says of a text: not a reference, a reference without a digest, or the
  digest's algorithm and whether it validates.\<close>

datatype parsed_reference = Unparsable | Undigested | Digested string bool

definition isSHA256DigestPullspec :: "(string \<Rightarrow> parsed_reference) \<Rightarrow> string \<Rightarrow> bool" where
  "isSHA256DigestPullspec parse img =
     (case parse img of
        Unparsable \<Rightarrow> False
      | Undigested \<Rightarrow> False
      | Digested algorithm valid \<Rightarrow> algorithm = ''sha256'' \<and> valid)"

definition not_digest_msg :: "string \<Rightarrow> validationMsg" where
  "not_digest_msg img = errMsg ''relatedImages'' (Errorf ''image reference is not a sha256 digest: %v'' [img])"

definition digest_errors :: "(string \<Rightarrow> parsed_reference) \<Rightarrow> string \<Rightarrow> validationMsg list" where
  "digest_errors parse img = (if \<not> isSHA256DigestPullspec parse img then [not_digest_msg img] else [])"

subsection \<open>The three passes\<close>

definition allContainers :: "csv_deployment \<Rightarrow> csv_container list" where
  "allContainers d = cdContainers d @ cdInitContainers d"

text \<open>A map update that keeps the place of an existing key.\<close>

definition put :: "'a \<Rightarrow> 'b \<Rightarrow> ('a \<times> 'b) list \<Rightarrow> ('a \<times> 'b) list" where
  "put k v m = (if k \<in> set (map fst m) then map (\<lambda>(k', v'). if k' = k then (k, v) else (k', v')) m else m @ [(k, v)])"

fun images_loop :: "(string \<Rightarrow> parsed_reference) \<Rightarrow> csv_container list \<Rightarrow> validationMsg list \<Rightarrow> (string \<times> bool) list \<Rightarrow>
    validationMsg list \<times> (string \<times> bool) list" where
  "images_loop parse [] errs m = (errs, m)"
| "images_loop parse (c # cs) errs m =
     images_loop parse cs (errs @ digest_errors parse (ccnImage c)) (put (ccnImage c) False m)"

definition validateContainerImages ::
  "(string \<Rightarrow> parsed_reference) \<Rightarrow> validationMsg list \<Rightarrow> csv_deployment list \<Rightarrow> validationMsg list \<times> (string \<times> bool) list" where
  "validateContainerImages parse errs ds = images_loop parse (concat (map allContainers ds)) errs []"

fun validateRelatedImages ::
  "(string \<Rightarrow> parsed_reference) \<Rightarrow> imageEntry list \<Rightarrow> validationMsg list \<Rightarrow> (string \<times> bool) list \<Rightarrow> (string \<times> string) list \<Rightarrow>
     validationMsg list \<times> (string \<times> bool) list \<times> (string \<times> string) list" where
  "validateRelatedImages parse [] errs m rel = (errs, m, rel)"
| "validateRelatedImages parse (i # is) errs m rel =
     (let errs = errs @ digest_errors parse (ieImage i)
      in if ieImage i \<notin> set (map fst rel)
         then validateRelatedImages parse is errs
                (if ieImage i \<in> set (map fst m) then put (ieImage i) True m else m) (put (ieImage i) (ieName i) rel)
         else validateRelatedImages parse is
                (errs @ [errMsg ''relatedImages'' (Errorf ''duplicate value of image: %v'' [ieImage i])]) m rel)"

text \<open>The variables of one container; \<open>seen\<close> are the related-image variables met so far.\<close>

fun env_loop :: "(string \<Rightarrow> parsed_reference) \<Rightarrow> (string \<times> string) list \<Rightarrow> string \<Rightarrow> csv_env list \<Rightarrow> string list \<Rightarrow> validationMsg list" where
  "env_loop parse rel container [] seen = []"
| "env_loop parse rel container (e # es) seen =
     (if HasPrefix (ceName e) relatedImagePrefix
      then digest_errors parse (ceValue e) @
        (if ceName e \<in> set seen
         then errMsg ''relatedImages'' (Errorf ''duplicate env var %s in container %s'' [ceName e, container]) #
              env_loop parse rel container es seen
         else (if ceValue e \<notin> set (map fst rel)
               then [errMsg ''relatedImages'' (Errorf ''env var %s not found in spec.relatedImages (value: %s)'' [ceName e, ceValue e])]
               else []) @ env_loop parse rel container es (seen @ [ceName e]))
      else env_loop parse rel container es seen)"

definition validateEnvVars ::
  "(string \<Rightarrow> parsed_reference) \<Rightarrow> validationMsg list \<Rightarrow> csv_deployment list \<Rightarrow> (string \<times> string) list \<Rightarrow> validationMsg list" where
  "validateEnvVars parse errs ds rel =
     errs @ concat (map (\<lambda>c. env_loop parse rel (ccnName c) (ccnEnv c) []) (concat (map allContainers ds)))"

definition unmatched_errors :: "(string \<times> bool) list \<Rightarrow> validationMsg list" where
  "unmatched_errors m = map (\<lambda>(img, _). errMsg ''spec.relatedImages'' (Errorf ''container image not in relatedImages: %q'' [img]))
     (filter (\<lambda>(_, matched). \<not> matched) m)"

definition validateCSVData ::
  "(string \<Rightarrow> parsed_reference) \<Rightarrow> (string \<Rightarrow> csvDocument result) \<Rightarrow> ((string \<times> bool) list \<Rightarrow> (string \<times> bool) list) \<Rightarrow>
     string \<Rightarrow> manifestResult" where
  "validateCSVData parse unmarshal iterate data =
     (case unmarshal data of
        Inl e \<Rightarrow> \<lparr>mrName = validatorName, mrErrors = [errMsg [] (Wrapf ''failed to parse CSV: %v'' [] e)], mrWarnings = []\<rparr>
      | Inr csv \<Rightarrow>
          (case validateContainerImages parse [] (csvDeployments csv) of (errs, containerImages) \<Rightarrow>
             (case validateRelatedImages parse (csvRelatedImages csv) errs containerImages [] of (errs, containerImages, relatedImages) \<Rightarrow>
                let errs = validateEnvVars parse errs (csvDeployments csv) relatedImages
                in \<lparr>mrName = validatorName, mrErrors = errs @ unmatched_errors (iterate containerImages), mrWarnings = []\<rparr>)))"

subsection \<open>Files and the exit code\<close>

definition findCSV :: "(string \<Rightarrow> string list result) \<Rightarrow> string \<Rightarrow> string result" where
  "findCSV readDir bundleRoot =
     (let manifestsDir = bundleRoot @ ''/manifests'' in
      case readDir manifestsDir of
        Inl e \<Rightarrow> Inl (Wrapf ''reading manifests directory: %w'' [] e)
      | Inr names \<Rightarrow>
          (case find (\<lambda>n. HasSuffix n ''.clusterserviceversion.yaml'') names of
             Some n \<Rightarrow> Inr (manifestsDir @ ''/'' @ n)
           | None \<Rightarrow> Inl (Errorf ''no CSV found in manifests directory'' [])))"

definition failed_result :: "error \<Rightarrow> manifestResult" where
  "failed_result e = \<lparr>mrName = validatorName, mrErrors = [errMsg [] e], mrWarnings = []\<rparr>"

definition validate ::
  "(string \<Rightarrow> string list result) \<Rightarrow> (string \<Rightarrow> string result) \<Rightarrow> (string \<Rightarrow> manifestResult) \<Rightarrow> string \<Rightarrow> manifestResult" where
  "validate readDir readFile validateData bundleRoot =
     (case findCSV readDir bundleRoot of
        Inl e \<Rightarrow> failed_result (Wrapf ''failed to find CSV: %v'' [] e)
      | Inr csvPath \<Rightarrow>
          (case readFile csvPath of
             Inl e \<Rightarrow> failed_result (Wrapf ''failed to read CSV: %v'' [] e)
           | Inr data \<Rightarrow> validateData data))"

text \<open>The exit code and the printed result, if any; the result always marshals, being built of texts.\<close>

definition validator_main ::
  "(string \<Rightarrow> string list result) \<Rightarrow> (string \<Rightarrow> string result) \<Rightarrow> (string \<Rightarrow> manifestResult) \<Rightarrow> string \<Rightarrow> string list \<Rightarrow>
     nat \<times> manifestResult option" where
  "validator_main readDir readFile validateData csvFlag args =
     (if csvFlag \<noteq> [] then
        (case readFile csvFlag of
           Inl e \<Rightarrow> (1, None)
         | Inr data \<Rightarrow> let r = validateData data in (if length (mrErrors r) > 0 then 1 else 0, Some r))
      else (case args of
           [] \<Rightarrow> (1, None)
         | root # _ \<Rightarrow> (0, Some (validate readDir readFile validateData root))))"

subsection \<open>What the validator accepts\<close>

text \<open>The specification, without messages, maps or passes.\<close>

definition related_env :: "csv_container \<Rightarrow> csv_env list" where
  "related_env c = filter (\<lambda>e. HasPrefix (ceName e) relatedImagePrefix) (ccnEnv c)"

definition csv_ok :: "(string \<Rightarrow> parsed_reference) \<Rightarrow> csvDocument \<Rightarrow> bool" where
  "csv_ok parse csv \<longleftrightarrow>
     (let containers = concat (map allContainers (csvDeployments csv));
          related = map ieImage (csvRelatedImages csv)
      in distinct related \<and> list_all (isSHA256DigestPullspec parse) related \<and>
         list_all (\<lambda>c. ccnImage c \<in> set related \<and> distinct (map ceName (related_env c)) \<and>
           list_all (\<lambda>e. ceValue e \<in> set related) (related_env c)) containers)"

lemma digest_errors_Nil [simp]: "digest_errors parse img = [] \<longleftrightarrow> isSHA256DigestPullspec parse img"
  by (simp add: digest_errors_def)

lemma put_fst: "map fst (put k v m) = (if k \<in> set (map fst m) then map fst m else map fst m @ [k])"
proof -
  have "map fst (map (\<lambda>(k', v'). if k' = k then (k, v) else (k', v')) m) = map fst m" by (induction m) auto
  then show ?thesis by (simp add: put_def del: map_map)
qed

lemma put_keys: "set (map fst (put k v m)) = insert k (set (map fst m))"
  unfolding put_fst by auto

lemma put_lookup: "map_of (put k v m) = (map_of m)(k \<mapsto> v)"
proof (cases "k \<in> set (map fst m)")
  case True
  have "map_of (map (\<lambda>(k', v'). if k' = k then (k, v) else (k', v')) m) = (if k \<in> set (map fst m) then (map_of m)(k \<mapsto> v) else map_of m)"
    by (induction m) (auto simp: fun_eq_iff)
  with True show ?thesis by (simp add: put_def)
next
  case False
  then have "map_of m k = None" by (simp add: map_of_eq_None_iff)
  with False show ?thesis by (auto simp: put_def map_add_def fun_eq_iff split: option.splits)
qed

lemma put_distinct: "distinct (map fst m) \<Longrightarrow> distinct (map fst (put k v m))"
  unfolding put_fst by simp

lemma images_loop_spec:
  "images_loop parse cs errs m = (errs', m') \<Longrightarrow>
   (errs' = [] \<longleftrightarrow> errs = [] \<and> list_all (\<lambda>c. isSHA256DigestPullspec parse (ccnImage c)) cs) \<and>
   map_of m' = (\<lambda>k. if k \<in> ccnImage ` set cs then Some False else map_of m k) \<and>
   (distinct (map fst m) \<longrightarrow> distinct (map fst m'))"
proof (induction cs arbitrary: errs m)
  case (Cons c cs)
  from Cons.IH [of "errs @ digest_errors parse (ccnImage c)" "put (ccnImage c) False m"] Cons.prems
  show ?case by (auto simp: put_lookup put_distinct fun_eq_iff)
qed simp

lemma in_keys: "k \<in> set (map fst m) \<longleftrightarrow> map_of m k \<noteq> None"
  by (simp add: map_of_eq_None_iff)

lemma validateRelatedImages_spec:
  "validateRelatedImages parse is errs m rel = (errs', m', rel') \<Longrightarrow>
   (errs' = [] \<longleftrightarrow> errs = [] \<and> list_all (\<lambda>i. isSHA256DigestPullspec parse (ieImage i)) is \<and>
      distinct (map ieImage is) \<and> set (map ieImage is) \<inter> set (map fst rel) = {}) \<and>
   set (map fst rel') = set (map fst rel) \<union> ieImage ` set is \<and>
   (\<forall>k. map_of m' k = (if map_of m k \<noteq> None \<and> k \<in> ieImage ` set is \<and> k \<notin> set (map fst rel) then Some True else map_of m k)) \<and>
   (distinct (map fst m) \<longrightarrow> distinct (map fst m'))"
proof (induction "is" arbitrary: errs m rel)
  case (Cons i "is")
  let ?e = "errs @ digest_errors parse (ieImage i)"
  show ?case
  proof (cases "ieImage i \<in> set (map fst rel)")
    case True
    with Cons.prems have r: "validateRelatedImages parse is
        (?e @ [errMsg ''relatedImages'' (Errorf ''duplicate value of image: %v'' [ieImage i])]) m rel = (errs', m', rel')"
      by (simp add: Let_def)
    from Cons.IH [OF r] True show ?thesis by auto
  next
    case False
    let ?m = "if ieImage i \<in> set (map fst m) then put (ieImage i) True m else m"
    from False Cons.prems have r: "validateRelatedImages parse is ?e ?m (put (ieImage i) (ieName i) rel) = (errs', m', rel')"
      by (simp add: Let_def)
    have k: "set (map fst (put (ieImage i) (ieName i) rel)) = insert (ieImage i) (set (map fst rel))" by (rule put_keys)
    have m: "map_of ?m = (\<lambda>k. if k = ieImage i \<and> map_of m k \<noteq> None then Some True else map_of m k)"
      by (auto simp: put_lookup fun_eq_iff map_of_eq_None_iff)
    have d: "distinct (map fst m) \<longrightarrow> distinct (map fst ?m)" by (simp add: put_distinct)
    note IH = Cons.IH [OF r, unfolded k m]
    have "errs' = [] \<longleftrightarrow> errs = [] \<and> list_all (\<lambda>i. isSHA256DigestPullspec parse (ieImage i)) (i # is) \<and>
      distinct (map ieImage (i # is)) \<and> set (map ieImage (i # is)) \<inter> set (map fst rel) = {}"
      using IH False by auto
    moreover have "set (map fst rel') = set (map fst rel) \<union> ieImage ` set (i # is)" using IH by auto
    moreover have "\<forall>k. map_of m' k = (if map_of m k \<noteq> None \<and> k \<in> ieImage ` set (i # is) \<and> k \<notin> set (map fst rel) then Some True else map_of m k)"
      using IH False by auto
    ultimately show ?thesis using IH d by blast
  qed
qed auto

lemma env_loop_Nil:
  "env_loop parse rel n es seen = [] \<longleftrightarrow>
   (let rs = filter (\<lambda>e. HasPrefix (ceName e) relatedImagePrefix) es
    in list_all (\<lambda>e. isSHA256DigestPullspec parse (ceValue e) \<and> ceValue e \<in> set (map fst rel)) rs \<and>
       distinct (map ceName rs) \<and> set (map ceName rs) \<inter> set seen = {})"
  by (induction es arbitrary: seen) (auto simp: Let_def)

lemma unmatched_errors_Nil: "unmatched_errors m = [] \<longleftrightarrow> (\<forall>(k, v) \<in> set m. v)"
  by (auto simp: unmatched_errors_def filter_empty_conv)

lemma validateCSVData_ok:
  assumes "\<And>m. mset (iterate m) = mset m" "unmarshal data = Inr csv"
  shows "mrErrors (validateCSVData parse unmarshal iterate data) = [] \<longleftrightarrow> csv_ok parse csv"
proof -
  let ?cs = "concat (map allContainers (csvDeployments csv))"
  obtain e1 m1 where v1: "images_loop parse ?cs [] [] = (e1, m1)" by fastforce
  obtain e2 m2 rel where v2: "validateRelatedImages parse (csvRelatedImages csv) e1 m1 [] = (e2, m2, rel)" by (metis surj_pair)
  note s1 = images_loop_spec [OF v1] and s2 = validateRelatedImages_spec [OF v2]
  have rel: "set (map fst rel) = ieImage ` set (csvRelatedImages csv)" using s2 by simp
  have dm: "distinct (map fst m2)" using s1 s2 by simp
  have m2: "map_of m2 k = (if k \<in> ccnImage ` set ?cs then Some (k \<in> ieImage ` set (csvRelatedImages csv)) else None)" for k
  proof -
    have m1: "map_of m1 k = (if k \<in> ccnImage ` set ?cs then Some False else None)" using s1 by simp
    have "map_of m2 k = (if map_of m1 k \<noteq> None \<and> k \<in> ieImage ` set (csvRelatedImages csv) \<and> k \<notin> set (map fst ([] :: (string \<times> string) list))
        then Some True else map_of m1 k)" using s2 by blast
    then show ?thesis unfolding m1 by (simp del: not_None_eq)
  qed
  have "(\<forall>(k, v) \<in> set m2. v) \<longleftrightarrow> (\<forall>k v. map_of m2 k = Some v \<longrightarrow> v)"
    using dm by (auto simp: map_of_eq_Some_iff)
  also have "\<dots> \<longleftrightarrow> ccnImage ` set ?cs \<subseteq> ieImage ` set (csvRelatedImages csv)"
    unfolding m2 by auto
  finally have um: "unmatched_errors (iterate m2) = [] \<longleftrightarrow> ccnImage ` set ?cs \<subseteq> ieImage ` set (csvRelatedImages csv)"
    using mset_eq_setD [OF assms(1) [of m2]] by (simp add: unmatched_errors_Nil)
  have e2: "e2 = [] \<longleftrightarrow> list_all (\<lambda>c. isSHA256DigestPullspec parse (ccnImage c)) ?cs \<and>
      list_all (\<lambda>i. isSHA256DigestPullspec parse (ieImage i)) (csvRelatedImages csv) \<and> distinct (map ieImage (csvRelatedImages csv))"
    using s1 s2 by auto
  have "mrErrors (validateCSVData parse unmarshal iterate data) = [] \<longleftrightarrow>
      e2 = [] \<and> (\<forall>c \<in> set ?cs. env_loop parse rel (ccnName c) (ccnEnv c) [] = []) \<and> unmatched_errors (iterate m2) = []"
    using v1 v2 by (auto simp: validateCSVData_def assms(2) validateContainerImages_def validateEnvVars_def Let_def)
  then show ?thesis
    unfolding e2 um env_loop_Nil rel csv_ok_def Let_def related_env_def [symmetric]
    by (fastforce simp: list_all_iff)
qed


text \<open>
  C37: As a CI gate (standalone mode) the validator exits with 0 exactly when the file can be read and
  parsed and the document is one that it is meant to accept, whatever the order of map iteration:
  the related images are pairwise distinct digest pull specs; every image of a container, init
  containers included, is one of them; and in each container the related-image variables have
  distinct names and listed values.
\<close>

theorem validator_ci_gate:
  assumes "\<And>m. mset (iterate m) = mset m" "csvFlag \<noteq> []"
  shows "fst (validator_main readDir readFile (validateCSVData parse unmarshal iterate) csvFlag args) = 0 \<longleftrightarrow>
    (\<exists>data csv. readFile csvFlag = Inr data \<and> unmarshal data = Inr csv \<and> csv_ok parse csv)"
proof (cases "readFile csvFlag")
  case (Inr data)
  show ?thesis
  proof (cases "unmarshal data")
    case (Inl e)
    with Inr assms(2) show ?thesis by (simp add: validator_main_def Let_def validateCSVData_def)
  next
    case ok: (Inr csv)
    have "mrErrors (validateCSVData parse unmarshal iterate data) = [] \<longleftrightarrow> csv_ok parse csv"
      by (rule validateCSVData_ok) (rule assms(1), rule ok)
    with Inr ok assms(2) show ?thesis
      by (simp add: validator_main_def Let_def)
  qed
qed (simp add: validator_main_def assms(2))

definition example_csv :: csvDocument where
  "example_csv = \<lparr>
     csvDeployments = [\<lparr>cdContainers = [\<lparr>ccnName = ''m'', ccnImage = ''q/op@sha256:1'',
         ccnEnv = [\<lparr>ceName = ''RELATED_IMAGE_API'', ceValue = ''q/api@sha256:2''\<rparr>]\<rparr>], cdInitContainers = []\<rparr>],
     csvRelatedImages = [\<lparr>ieName = ''op'', ieImage = ''q/op@sha256:1''\<rparr>, \<lparr>ieName = ''api'', ieImage = ''q/api@sha256:2''\<rparr>]\<rparr>"

theorem validator_ci_gate_witness:
  "fst (validator_main (\<lambda>_. Inr []) (\<lambda>_. Inr ''d'')
     (validateCSVData (\<lambda>i. Digested ''sha256'' (Contains i ''@sha256:'')) (\<lambda>_. Inr example_csv) rev) ''f'' []) = 0"
  by (subst validator_ci_gate) (simp_all add: csv_ok_def example_csv_def allContainers_def related_env_def HasPrefix_def relatedImagePrefix_def
      isSHA256DigestPullspec_def Contains_def sublist_Cons_right)

end
