(* ===== verification/Discovery_Concurrency.thy ===== *)
theory Discovery_Concurrency
  imports Jwks_Discovery
begin

section \<open>Discovery from several goroutines\<close>

text \<open>
  The reconciler guards its discovery client with a \<^verbatim>\<open>sync.Once\<close> and its discovery cache with a
  \<^verbatim>\<open>sync.Mutex\<close> (\<^verbatim>\<open>hyperfleetconfig_controller.go\<close>, lines 80 to 96).  This theory runs any number of
  goroutines through \<^verbatim>\<open>resolveJWKSURL\<close>, each at its own control point, under any schedule.  The two
  primitives have the semantics of the Go library; a nil client that is used, a write to a nil map and two
  overlapping accesses to a map of which one is a write crash the process, as they do in Go.
  The theory shows that the sequential definitions of \<^verbatim>\<open>Jwks_Discovery\<close> are what the goroutines
  execute, atomically.
\<close>

subsection \<open>Control points and the shared state\<close>

datatype once = Fresh | Running nat | Completed

datatype point =
    Entered
  | AtOnce
  | InOnce
  | AfterOnce
  | AtFetch http_client
  | GetLock error
  | GetRead error
  | GetUnlock error "string option"
  | PutLock string
  | PutMake string
  | PutStore string
  | PutStored string
  | PutUnlock string
  | Returned "string result"
  | Crashed

text \<open>\<open>shWriting\<close> is the flag by which the Go runtime detects an access to a map that is being written.\<close>

record 'w shared =
  shSys :: "'w sys"
  shOnce :: once
  shMu :: "nat option"
  shMade :: bool
  shWriting :: bool
  shPoint :: "nat \<Rightarrow> point"

text \<open>The operations that are to be atomic, with the goroutine that does them and what it gets.\<close>

datatype event =
    EvClient nat http_client
  | EvFetch nat http_client string "http_response result"
  | EvGet nat string "string option"
  | EvPut nat string string

primrec ev_by :: "event \<Rightarrow> nat" where
  "ev_by (EvClient t c) = t"
| "ev_by (EvFetch t c u x) = t"
| "ev_by (EvGet t i v) = t"
| "ev_by (EvPut t i u) = t"

definition goto :: "nat \<Rightarrow> point \<Rightarrow> 'w shared \<Rightarrow> 'w shared" where
  "goto t p m = m\<lparr>shPoint := (shPoint m)(t := p)\<rparr>"

lemma goto_sel [simp]:
  "shSys (goto t p m) = shSys m" "shOnce (goto t p m) = shOnce m" "shMu (goto t p m) = shMu m"
  "shMade (goto t p m) = shMade m" "shWriting (goto t p m) = shWriting m"
  "shPoint (goto t p m) = (shPoint m)(t := p)"
  by (simp_all add: goto_def)

subsection \<open>One step of a goroutine\<close>

abbreviation cr_issuer :: "HyperFleetConfig \<Rightarrow> string" where
  "cr_issuer cr \<equiv> Issuer (Auth (API (Spec cr)))"

abbreviation discovery_url :: "HyperFleetConfig \<Rightarrow> string" where
  "discovery_url cr \<equiv> TrimSuffix (cr_issuer cr) ''/'' @ oidcDiscoveryPath"

text \<open>What the code after the request makes of its outcome.\<close>

definition fetched :: "HyperFleetConfig \<Rightarrow> http_response result \<Rightarrow> string result" where
  "fetched cr x = (case x of
       Inl e \<Rightarrow> Inl (Wrapf ''fetch %q: %w'' [discovery_url cr] e)
     | Inr resp \<Rightarrow> check_response (TrimSuffix (cr_issuer cr) ''/'') (discovery_url cr) resp)"

definition enter :: "reconciler \<Rightarrow> HyperFleetConfig \<Rightarrow> nat \<Rightarrow> event list \<times> point" where
  "enter r cr t =
     (if \<not> AuthEnabled cr \<or> JWKCertSecretRef (Auth (API (Spec cr))) \<noteq> None then ([], Returned (Inr []))
      else case NewRequest (discovery_url cr) of
          Some e \<Rightarrow> ([], GetLock (Wrapf ''build discovery request for %q: %w'' [discovery_url cr] e))
        | None \<Rightarrow> (case HTTPClient r of
              Some c \<Rightarrow> ([EvClient t c], AtFetch c)
            | None \<Rightarrow> ([], AtOnce)))"

definition cached_result :: "error \<Rightarrow> string option \<Rightarrow> string result" where
  "cached_result e v = (case v of Some cached \<Rightarrow> Inr cached | None \<Rightarrow> Inl e)"

text \<open>\<open>None\<close>: the goroutine waits, has returned or has crashed.\<close>

fun go_step :: "'w env \<Rightarrow> reconciler \<Rightarrow> HyperFleetConfig \<Rightarrow> nat \<Rightarrow> point \<Rightarrow> 'w shared \<Rightarrow> (event list \<times> 'w shared) option" where
  "go_step env r cr t Entered m = (case enter r cr t of (es, p) \<Rightarrow> Some (es, goto t p m))"
| "go_step env r cr t AtOnce m = (case shOnce m of
       Fresh \<Rightarrow> Some ([], goto t InOnce (m\<lparr>shOnce := Running t\<rparr>))
     | Running _ \<Rightarrow> None
     | Completed \<Rightarrow> Some ([EvClient t newDiscoveryHTTPClient], goto t AfterOnce m))"
| "go_step env r cr t InOnce m = Some ([EvClient t newDiscoveryHTTPClient],
     goto t AfterOnce (m\<lparr>shOnce := Completed, shSys := (shSys m)\<lparr>discoveryClient := Some newDiscoveryHTTPClient,
       clientsBuilt := clientsBuilt (shSys m) + 1\<rparr>\<rparr>))"
| "go_step env r cr t AfterOnce m = (case discoveryClient (shSys m) of
       None \<Rightarrow> Some ([], goto t Crashed m)
     | Some c \<Rightarrow> Some ([], goto t (AtFetch c) m))"
| "go_step env r cr t (AtFetch c) m =
     (case perform (HTTPGet c (discovery_url cr)) (envHTTPDo env c (discovery_url cr)) (shSys m) of
        (x, s) \<Rightarrow> Some ([EvFetch t c (discovery_url cr) x],
          goto t (case fetched cr x of Inl e \<Rightarrow> GetLock e | Inr u \<Rightarrow> PutLock u) (m\<lparr>shSys := s\<rparr>)))"
| "go_step env r cr t (GetLock e) m = (case shMu m of
       Some _ \<Rightarrow> None
     | None \<Rightarrow> Some ([], goto t (GetRead e) (m\<lparr>shMu := Some t\<rparr>)))"
| "go_step env r cr t (GetRead e) m =
     (if shWriting m then Some ([], goto t Crashed m)
      else let v = cachedDiscovery (cr_issuer cr) (shSys m)
           in Some ([EvGet t (cr_issuer cr) v], goto t (GetUnlock e v) m))"
| "go_step env r cr t (GetUnlock e v) m = Some ([], goto t (Returned (cached_result e v)) (m\<lparr>shMu := None\<rparr>))"
| "go_step env r cr t (PutLock u) m = (case shMu m of
       Some _ \<Rightarrow> None
     | None \<Rightarrow> Some ([], goto t (PutMake u) (m\<lparr>shMu := Some t\<rparr>)))"
| "go_step env r cr t (PutMake u) m = Some ([], goto t (PutStore u) (m\<lparr>shMade := True\<rparr>))"
| "go_step env r cr t (PutStore u) m =
     (if \<not> shMade m \<or> shWriting m then Some ([], goto t Crashed m)
      else Some ([], goto t (PutStored u) (m\<lparr>shWriting := True\<rparr>)))"
| "go_step env r cr t (PutStored u) m = Some ([EvPut t (cr_issuer cr) u],
     goto t (PutUnlock u) (m\<lparr>shWriting := False, shSys := cacheDiscovery (cr_issuer cr) u (shSys m)\<rparr>))"
| "go_step env r cr t (PutUnlock u) m = Some ([], goto t (Returned (Inr u)) (m\<lparr>shMu := None\<rparr>))"
| "go_step env r cr t (Returned res) m = None"
| "go_step env r cr t Crashed m = None"

subsection \<open>All of them, under any schedule\<close>

definition shared_init :: "'w \<Rightarrow> 'w shared" where
  "shared_init w = \<lparr>shSys = init_sys w, shOnce = Fresh, shMu = None, shMade = False, shWriting = False,
     shPoint = (\<lambda>_. Entered)\<rparr>"

text \<open>\<open>schedule env r n job w k tr m\<close>: from a fresh process in the world \<open>w\<close>, the goroutines below \<open>n\<close>, of which
  the \<open>t\<close>-th resolves for the resource \<open>job t\<close>, reach \<open>m\<close> in \<open>k\<close> steps that do the events \<open>tr\<close>.\<close>

inductive schedule :: "'w env \<Rightarrow> reconciler \<Rightarrow> nat \<Rightarrow> (nat \<Rightarrow> HyperFleetConfig) \<Rightarrow> 'w \<Rightarrow> nat \<Rightarrow> event list \<Rightarrow> 'w shared \<Rightarrow> bool"
  for env :: "'w env" and r :: reconciler and n :: nat and job :: "nat \<Rightarrow> HyperFleetConfig" and w :: 'w where
  idle: "schedule env r n job w 0 [] (shared_init w)"
| move: "schedule env r n job w k tr m \<Longrightarrow> t < n \<Longrightarrow> go_step env r (job t) t (shPoint m t) m = Some (es, m') \<Longrightarrow>
    schedule env r n job w (Suc k) (tr @ es) m'"

inductive_cases scheduleE: "schedule env r n job w k tr m"

subsection \<open>Mutual exclusion, and no crash\<close>

fun critical :: "point \<Rightarrow> bool" where
  "critical (GetRead e) = True"
| "critical (GetUnlock e v) = True"
| "critical (PutMake u) = True"
| "critical (PutStore u) = True"
| "critical (PutStored u) = True"
| "critical (PutUnlock u) = True"
| "critical p = False"

fun storing :: "point \<Rightarrow> bool" where
  "storing (PutStored u) = True"
| "storing p = False"

fun needs_map :: "point \<Rightarrow> bool" where
  "needs_map (PutStore u) = True"
| "needs_map (PutStored u) = True"
| "needs_map p = False"

definition lock_inv :: "'w shared \<Rightarrow> bool" where
  "lock_inv m \<longleftrightarrow>
     (\<forall>t. critical (shPoint m t) \<longleftrightarrow> shMu m = Some t) \<and>
     (shWriting m \<longleftrightarrow> (\<exists>t. storing (shPoint m t))) \<and>
     (\<forall>t. needs_map (shPoint m t) \<longrightarrow> shMade m) \<and>
     (\<forall>t. shPoint m t \<noteq> Crashed)"

definition once_inv :: "'w shared \<Rightarrow> bool" where
  "once_inv m \<longleftrightarrow>
     (\<forall>t. shPoint m t = InOnce \<longleftrightarrow> shOnce m = Running t) \<and>
     (\<forall>t. shPoint m t = AfterOnce \<longrightarrow> shOnce m = Completed) \<and>
     discoveryClient (shSys m) = (if shOnce m = Completed then Some newDiscoveryHTTPClient else None) \<and>
     clientsBuilt (shSys m) = (if shOnce m = Completed then 1 else 0)"

lemma storing_critical: "storing p \<Longrightarrow> critical p" by (cases p) auto

lemma enter_point:
  "enter r cr t = (es, p) \<Longrightarrow> \<not> critical p \<and> \<not> storing p \<and> \<not> needs_map p \<and> p \<noteq> Crashed \<and> p \<noteq> InOnce \<and> p \<noteq> AfterOnce"
  by (auto simp: enter_def split: if_splits option.splits)

lemma perform_client: "perform c f s = (a, s') \<Longrightarrow> discoveryClient s' = discoveryClient s \<and> clientsBuilt s' = clientsBuilt s"
  by simp

lemma once_inv_goto:
  assumes "once_inv m" "shPoint m' = (shPoint m)(t := q)" "shPoint m t \<noteq> InOnce" "q \<noteq> InOnce" "q = AfterOnce \<Longrightarrow> shOnce m = Completed"
    and "shOnce m' = shOnce m" "discoveryClient (shSys m') = discoveryClient (shSys m)"
    and "clientsBuilt (shSys m') = clientsBuilt (shSys m)"
  shows "once_inv m'"
  using assms unfolding once_inv_def by auto

lemma once_inv_step:
  assumes "once_inv m" "go_step env r cr t (shPoint m t) m = Some (es, m')"
  shows "once_inv m' \<and> (shPoint m t = AfterOnce \<longrightarrow> shPoint m' t = AtFetch newDiscoveryHTTPClient)"
proof (cases "shPoint m t")
  case (AtFetch c)
  obtain x s where p: "perform (HTTPGet c (discovery_url cr)) (envHTTPDo env c (discovery_url cr)) (shSys m) = (x, s)" by fastforce
  with assms AtFetch have "m' = goto t (case fetched cr x of Inl e \<Rightarrow> GetLock e | Inr u \<Rightarrow> PutLock u) (m\<lparr>shSys := s\<rparr>)" by simp
  with assms(1) AtFetch perform_client [OF p] show ?thesis
    by (intro conjI once_inv_goto [OF assms(1), where t = t]) (auto split: sum.splits)
next
  case Entered
  obtain es0 q where e: "enter r cr t = (es0, q)" by fastforce
  with assms Entered have "m' = goto t q m" by simp
  with Entered enter_point [OF e] show ?thesis by (auto intro!: once_inv_goto [OF assms(1), where t = t])
next
  case AfterOnce
  with assms(1) have "discoveryClient (shSys m) = Some newDiscoveryHTTPClient" by (auto simp: once_inv_def)
  with assms(2) AfterOnce show ?thesis by (auto intro!: once_inv_goto [OF assms(1), where t = t])
next
  case AtOnce
  show ?thesis
  proof (cases "shOnce m = Completed")
    case True
    with assms(2) AtOnce show ?thesis by (auto intro!: once_inv_goto [OF assms(1), where t = t])
  next
    case False
    with assms AtOnce show ?thesis by (cases "shOnce m") (auto simp: once_inv_def split: if_splits)
  qed
next
  case InOnce
  with assms show ?thesis by (auto simp: once_inv_def split: if_splits)
qed (use assms in \<open>auto simp: cacheDiscovery_def Let_def split: if_splits option.splits intro!: once_inv_goto [OF assms(1), where t = t]\<close>)

text \<open>A goroutine stays outside, acquires, stays inside, or releases.\<close>

lemma lock_inv_outside:
  assumes "lock_inv m" "shPoint m' = (shPoint m)(t := q)" "\<not> critical (shPoint m t)" "\<not> critical q" "q \<noteq> Crashed"
    and "shMu m' = shMu m" "shWriting m' = shWriting m" "shMade m' = shMade m"
  shows "lock_inv m'"
proof -
  have "\<not> storing (shPoint m t)" "\<not> storing q" using assms(3,4) storing_critical by blast+
  moreover have "\<not> needs_map q" using assms(4) by (cases q) auto
  ultimately show ?thesis using assms unfolding lock_inv_def by auto
qed

lemma lock_inv_acquire:
  assumes "lock_inv m" "shPoint m' = (shPoint m)(t := q)" "shMu m = None" "critical q" "\<not> storing q" "\<not> needs_map q" "q \<noteq> Crashed"
    and "shMu m' = Some t" "shWriting m' = shWriting m" "shMade m' = shMade m"
  shows "lock_inv m'"
proof -
  have "\<not> critical (shPoint m u)" for u using assms(1,3) by (simp add: lock_inv_def)
  moreover from this have "\<not> storing (shPoint m u)" for u using storing_critical by blast
  ultimately show ?thesis using assms unfolding lock_inv_def by auto
qed

lemma lock_inv_inside:
  assumes "lock_inv m" "shPoint m' = (shPoint m)(t := q)" "critical (shPoint m t)" "q \<noteq> Crashed" "critical q \<longleftrightarrow> shMu m' = Some t" "critical q \<or> shMu m' = None"
    and "needs_map q \<Longrightarrow> shMade m'" "shMade m \<Longrightarrow> shMade m'" "shWriting m' \<longleftrightarrow> storing q"
  shows "lock_inv m'"
proof -
  have "shMu m = Some t" using assms(1,3) by (simp add: lock_inv_def)
  with assms(1) have o: "u \<noteq> t \<Longrightarrow> \<not> critical (shPoint m u)" for u by (simp add: lock_inv_def)
  then have "u \<noteq> t \<Longrightarrow> \<not> storing (shPoint m u)" for u using storing_critical by blast
  with o assms show ?thesis unfolding lock_inv_def by auto
qed

lemma writing_holder:
  assumes "lock_inv m" "critical (shPoint m t)"
  shows "shWriting m \<longleftrightarrow> storing (shPoint m t)"
proof -
  have "u = t" if "storing (shPoint m u)" for u
    using assms storing_critical [OF that] unfolding lock_inv_def by (metis option.inject)
  with assms(1) show ?thesis unfolding lock_inv_def by blast
qed

lemma lock_inv_step:
  assumes "once_inv m" "lock_inv m" "go_step env r cr t (shPoint m t) m = Some (es, m')"
  shows "lock_inv m'"
proof -
  note w = writing_holder [OF assms(2), of t]
  have made: "needs_map (shPoint m t) \<Longrightarrow> shMade m" and holds: "critical (shPoint m t) \<Longrightarrow> shMu m = Some t"
    using assms(2) unfolding lock_inv_def by blast+
  show ?thesis
  proof (cases "shPoint m t")
    case (AtFetch c)
    obtain x s where p: "perform (HTTPGet c (discovery_url cr)) (envHTTPDo env c (discovery_url cr)) (shSys m) = (x, s)" by fastforce
    with assms AtFetch have "m' = goto t (case fetched cr x of Inl e \<Rightarrow> GetLock e | Inr u \<Rightarrow> PutLock u) (m\<lparr>shSys := s\<rparr>)" by simp
    with AtFetch show ?thesis by (intro lock_inv_outside [OF assms(2), where t = t]) (auto split: sum.splits)
  next
    case Entered
    obtain es0 q where e: "enter r cr t = (es0, q)" by fastforce
    with assms Entered have "m' = goto t q m" by simp
    with Entered enter_point [OF e] show ?thesis by (auto intro!: lock_inv_outside [OF assms(2), where t = t])
  next
    case AfterOnce
    with assms(1) have "discoveryClient (shSys m) = Some newDiscoveryHTTPClient" by (auto simp: once_inv_def)
    with assms(3) AfterOnce show ?thesis by (auto intro!: lock_inv_outside [OF assms(2), where t = t])
  next
    case AtOnce
    with assms show ?thesis by (cases "shOnce m") (auto intro!: lock_inv_outside [OF assms(2), where t = t])
  next
    case InOnce
    with assms show ?thesis by (auto intro!: lock_inv_outside [OF assms(2), where t = t])
  next
    case (GetLock e)
    with assms show ?thesis by (cases "shMu m") (auto intro!: lock_inv_acquire [OF assms(2), where t = t])
  next
    case (PutLock u)
    with assms show ?thesis by (cases "shMu m") (auto intro!: lock_inv_acquire [OF assms(2), where t = t])
  qed (use assms(3) w made holds in \<open>auto simp: Let_def intro!: lock_inv_inside [OF assms(2), where t = t]\<close>)
qed

lemma schedule_locks:
  assumes "schedule env r n job w k tr m"
  shows "once_inv m \<and> lock_inv m"
  using assms
proof induction
  case idle
  show ?case by (simp add: once_inv_def lock_inv_def shared_init_def init_sys_def)
next
  case (move k tr m t es m')
  with once_inv_step [OF _ move.hyps(3)] lock_inv_step [OF _ _ move.hyps(3)] show ?case by blast
qed

subsection \<open>The sequential definitions as atomic operations\<close>

fun atomically :: "'w env \<Rightarrow> reconciler \<Rightarrow> event \<Rightarrow> 'w sys \<Rightarrow> 'w sys \<Rightarrow> bool" where
  "atomically env r (EvClient t c) s s' \<longleftrightarrow> discovery_client r s = (c, s')"
| "atomically env r (EvFetch t c url x) s s' \<longleftrightarrow> perform (HTTPGet c url) (envHTTPDo env c url) s = (x, s')"
| "atomically env r (EvGet t i v) s s' \<longleftrightarrow> cachedDiscovery i s = v \<and> s' = s"
| "atomically env r (EvPut t i u) s s' \<longleftrightarrow> s' = cacheDiscovery i u s"

inductive history :: "'w env \<Rightarrow> reconciler \<Rightarrow> 'w sys \<Rightarrow> event list \<Rightarrow> 'w sys \<Rightarrow> bool" for env :: "'w env" and r :: reconciler and s :: "'w sys" where
  nothing: "history env r s [] s"
| next_event: "history env r s es s' \<Longrightarrow> atomically env r e s' s'' \<Longrightarrow> history env r s (es @ [e]) s''"

lemma history_append_iff: "history env r s (es @ [e]) s'' \<longleftrightarrow> (\<exists>s'. history env r s es s' \<and> atomically env r e s' s'')"
  by (subst history.simps) auto

lemma history_Nil_iff [simp]: "history env r s [] s' \<longleftrightarrow> s' = s"
  by (subst history.simps) auto

lemma history_one [simp]: "history env r s [e] s' \<longleftrightarrow> atomically env r e s s'"
  using history_append_iff [of env r s "[]" e s'] by simp

lemma history_two [simp]: "history env r s [e, e'] s'' \<longleftrightarrow> (\<exists>s'. atomically env r e s s' \<and> atomically env r e' s' s'')"
  using history_append_iff [of env r s "[e]" e' s''] by simp

lemma history_three: "history env r s [e, e', e''] s3 \<longleftrightarrow>
    (\<exists>s1 s2. atomically env r e s s1 \<and> atomically env r e' s1 s2 \<and> atomically env r e'' s2 s3)"
  using history_append_iff [of env r s "[e, e']" e'' s3] by auto

text \<open>The events of a resolution by goroutine \<open>t\<close> up to the use of the cache: discovery failed with \<open>e\<close>,
  or found \<open>u\<close>.\<close>

definition discovery_failed :: "HyperFleetConfig \<Rightarrow> nat \<Rightarrow> error \<Rightarrow> event list \<Rightarrow> bool" where
  "discovery_failed cr t e es \<longleftrightarrow> needs_discovery cr \<and>
     (case NewRequest (discovery_url cr) of
        Some e0 \<Rightarrow> es = [] \<and> e = Wrapf ''build discovery request for %q: %w'' [discovery_url cr] e0
      | None \<Rightarrow> (\<exists>c x. es = [EvClient t c, EvFetch t c (discovery_url cr) x] \<and> fetched cr x = Inl e))"

definition discovery_found :: "HyperFleetConfig \<Rightarrow> nat \<Rightarrow> string \<Rightarrow> event list \<Rightarrow> bool" where
  "discovery_found cr t u es \<longleftrightarrow> needs_discovery cr \<and> NewRequest (discovery_url cr) = None \<and>
     (\<exists>c x. es = [EvClient t c, EvFetch t c (discovery_url cr) x] \<and> fetched cr x = Inr u)"

text \<open>The events and the result of a whole resolution.\<close>

definition resolution :: "HyperFleetConfig \<Rightarrow> nat \<Rightarrow> string result \<Rightarrow> event list \<Rightarrow> bool" where
  "resolution cr t res es \<longleftrightarrow>
     (\<not> needs_discovery cr \<and> es = [] \<and> res = Inr []) \<or>
     (\<exists>e es0 v. discovery_failed cr t e es0 \<and> es = es0 @ [EvGet t (cr_issuer cr) v] \<and> res = cached_result e v) \<or>
     (\<exists>u es0. discovery_found cr t u es0 \<and> es = es0 @ [EvPut t (cr_issuer cr) u] \<and> res = Inr u)"

lemma resolution_requested:
  assumes "needs_discovery cr" "NewRequest (discovery_url cr) = None"
  shows "resolution cr t res es \<longleftrightarrow>
    (\<exists>c x e v. fetched cr x = Inl e \<and> res = cached_result e v \<and>
       es = [EvClient t c, EvFetch t c (discovery_url cr) x, EvGet t (cr_issuer cr) v]) \<or>
    (\<exists>c x u. fetched cr x = Inr u \<and> res = Inr u \<and>
       es = [EvClient t c, EvFetch t c (discovery_url cr) x, EvPut t (cr_issuer cr) u])" (is "_ \<longleftrightarrow> ?failed \<or> ?found")
proof
  assume "resolution cr t res es"
  then consider e es0 v where "discovery_failed cr t e es0" "es = es0 @ [EvGet t (cr_issuer cr) v]" "res = cached_result e v"
    | u es0 where "discovery_found cr t u es0" "es = es0 @ [EvPut t (cr_issuer cr) u]" "res = Inr u"
    unfolding resolution_def using assms(1) by blast
  then show "?failed \<or> ?found"
  proof cases
    case 1
    with assms(2) show ?thesis unfolding discovery_failed_def by (intro disjI1) auto
  next
    case 2
    then show ?thesis unfolding discovery_found_def by (intro disjI2) auto
  qed
next
  assume "?failed \<or> ?found"
  then show "resolution cr t res es"
  proof
    assume ?failed
    then obtain c x e v where "fetched cr x = Inl e" "res = cached_result e v"
      "es = [EvClient t c, EvFetch t c (discovery_url cr) x] @ [EvGet t (cr_issuer cr) v]" by auto
    moreover from this assms have "discovery_failed cr t e [EvClient t c, EvFetch t c (discovery_url cr) x]"
      by (simp add: discovery_failed_def)
    ultimately show ?thesis unfolding resolution_def by blast
  next
    assume ?found
    then obtain c x u where "fetched cr x = Inr u" "res = Inr u"
      "es = [EvClient t c, EvFetch t c (discovery_url cr) x] @ [EvPut t (cr_issuer cr) u]" by auto
    moreover from this assms have "discovery_found cr t u [EvClient t c, EvFetch t c (discovery_url cr) x]"
      by (simp add: discovery_found_def)
    ultimately show ?thesis unfolding resolution_def by blast
  qed
qed

lemma resolution_refused:
  assumes "needs_discovery cr" "NewRequest (discovery_url cr) = Some e0"
  shows "resolution cr t res es \<longleftrightarrow> (\<exists>v. es = [EvGet t (cr_issuer cr) v] \<and>
    res = cached_result (Wrapf ''build discovery request for %q: %w'' [discovery_url cr] e0) v)"
  using assms by (simp add: resolution_def discovery_failed_def discovery_found_def)

text \<open>Done without interruption, they are the sequential definition.\<close>

lemma resolution_sequential:
  "resolveJWKSURL env r cr s = (res, s') \<longleftrightarrow> (\<exists>es. resolution cr t res es \<and> history env r s es s')"
proof (cases "needs_discovery cr")
  case False
  then show ?thesis by (auto simp: resolution_def discovery_failed_def discovery_found_def resolveJWKSURL_def needs_discovery_def)
next
  case n: True
  show ?thesis
  proof (cases "NewRequest (discovery_url cr)")
    case (Some e0)
    from n Some have "resolveJWKSURL env r cr s = (cached_result (Wrapf ''build discovery request for %q: %w'' [discovery_url cr] e0)
        (cachedDiscovery (cr_issuer cr) s), s)"
      by (simp add: resolveJWKSURL_def needs_discovery_def discoverJWKSURL_def Let_def cached_result_def split: option.splits)
    then show ?thesis unfolding resolution_refused [OF n Some] by auto
  next
    case None
    obtain c s1 where c: "discovery_client r s = (c, s1)" by fastforce
    obtain x s2 where p: "perform (HTTPGet c (discovery_url cr)) (envHTTPDo env c (discovery_url cr)) s1 = (x, s2)" by fastforce
    have "resolveJWKSURL env r cr s = (case fetched cr x of
        Inl e \<Rightarrow> (cached_result e (cachedDiscovery (cr_issuer cr) s2), s2)
      | Inr u \<Rightarrow> (Inr u, cacheDiscovery (cr_issuer cr) u s2))"
      using n None c p
      by (auto simp: resolveJWKSURL_def needs_discovery_def discoverJWKSURL_def Let_def cached_result_def fetched_def
          split: option.splits sum.splits)
    moreover have "(\<exists>es. resolution cr t res es \<and> history env r s es s') \<longleftrightarrow> (\<exists>c' x' e v. fetched cr x' = Inl e \<and>
         res = cached_result e v \<and> history env r s [EvClient t c', EvFetch t c' (discovery_url cr) x', EvGet t (cr_issuer cr) v] s') \<or>
       (\<exists>c' x' u. fetched cr x' = Inr u \<and>
         res = Inr u \<and> history env r s [EvClient t c', EvFetch t c' (discovery_url cr) x', EvPut t (cr_issuer cr) u] s')"
      unfolding resolution_requested [OF n None] by blast
    ultimately show ?thesis using c p by (auto simp: history_three split: sum.splits)
  qed
qed

subsection \<open>Every schedule is a sequence of them\<close>

definition requested :: "reconciler \<Rightarrow> HyperFleetConfig \<Rightarrow> bool" where
  "requested r cr \<longleftrightarrow> needs_discovery cr \<and> NewRequest (discovery_url cr) = None \<and> HTTPClient r = None"

fun progress :: "reconciler \<Rightarrow> HyperFleetConfig \<Rightarrow> nat \<Rightarrow> point \<Rightarrow> event list \<Rightarrow> bool" where
  "progress r cr t Entered es = (es = [])"
| "progress r cr t AtOnce es = (es = [] \<and> requested r cr)"
| "progress r cr t InOnce es = (es = [] \<and> requested r cr)"
| "progress r cr t AfterOnce es = (es = [EvClient t newDiscoveryHTTPClient] \<and> requested r cr)"
| "progress r cr t (AtFetch c) es = (es = [EvClient t c] \<and> needs_discovery cr \<and> NewRequest (discovery_url cr) = None \<and>
     c = (case HTTPClient r of Some c \<Rightarrow> c | None \<Rightarrow> newDiscoveryHTTPClient))"
| "progress r cr t (GetLock e) es = discovery_failed cr t e es"
| "progress r cr t (GetRead e) es = discovery_failed cr t e es"
| "progress r cr t (GetUnlock e v) es = (\<exists>es0. discovery_failed cr t e es0 \<and> es = es0 @ [EvGet t (cr_issuer cr) v])"
| "progress r cr t (PutLock u) es = discovery_found cr t u es"
| "progress r cr t (PutMake u) es = discovery_found cr t u es"
| "progress r cr t (PutStore u) es = discovery_found cr t u es"
| "progress r cr t (PutStored u) es = discovery_found cr t u es"
| "progress r cr t (PutUnlock u) es = (\<exists>es0. discovery_found cr t u es0 \<and> es = es0 @ [EvPut t (cr_issuer cr) u])"
| "progress r cr t (Returned res) es = resolution cr t res es"
| "progress r cr t Crashed es = False"

text \<open>What a step does to the sequential state, and to the goroutine.\<close>

definition step_ok :: "'w env \<Rightarrow> reconciler \<Rightarrow> HyperFleetConfig \<Rightarrow> nat \<Rightarrow> event list \<Rightarrow> 'w shared \<Rightarrow> event list \<Rightarrow> 'w shared \<Rightarrow> bool" where
  "step_ok env r cr t es0 m es m' \<longleftrightarrow>
     progress r cr t (shPoint m' t) (es0 @ es) \<and> (\<forall>u. u \<noteq> t \<longrightarrow> shPoint m' u = shPoint m u) \<and>
     (es = [] \<and> shSys m' = shSys m \<or> (\<exists>e. es = [e] \<and> ev_by e = t \<and> atomically env r e (shSys m) (shSys m')))"

lemma enter_progress:
  assumes "enter r cr t = (es, p)"
  shows "progress r cr t p es \<and> (es = [] \<or> (\<exists>c. es = [EvClient t c] \<and> HTTPClient r = Some c))"
  using assms
  by (auto simp: enter_def requested_def needs_discovery_def resolution_def discovery_failed_def split: if_splits option.splits)

lemma go_step_ok:
  assumes "once_inv m" "lock_inv m'" "progress r cr t (shPoint m t) es0"
    and "go_step env r cr t (shPoint m t) m = Some (es, m')"
  shows "step_ok env r cr t es0 m es m'"
proof (cases "shPoint m t")
  case Entered
  obtain es1 q where e: "enter r cr t = (es1, q)" by fastforce
  with assms Entered have "m' = goto t q m" "es = es1" "es0 = []" by auto
  with enter_progress [OF e] show ?thesis by (auto simp: step_ok_def discovery_client_def)
next
  case AtOnce
  show ?thesis
  proof (cases "shOnce m")
    case Completed
    with assms(1) have "discoveryClient (shSys m) = Some newDiscoveryHTTPClient" by (simp add: once_inv_def)
    with assms(3,4) AtOnce Completed show ?thesis
      by (auto simp: step_ok_def discovery_client_def requested_def)
  qed (use assms(3,4) AtOnce in \<open>auto simp: step_ok_def\<close>)
next
  case InOnce
  with assms(1) have "shOnce m = Running t" by (auto simp: once_inv_def)
  with assms(1) have "discoveryClient (shSys m) = None" by (simp add: once_inv_def)
  with assms(3,4) InOnce show ?thesis by (auto simp: step_ok_def discovery_client_def requested_def)
next
  case AfterOnce
  with assms(1) have "discoveryClient (shSys m) = Some newDiscoveryHTTPClient" by (auto simp: once_inv_def)
  with assms(3,4) AfterOnce show ?thesis by (auto simp: step_ok_def requested_def)
next
  case (AtFetch c)
  obtain x s where p: "perform (HTTPGet c (discovery_url cr)) (envHTTPDo env c (discovery_url cr)) (shSys m) = (x, s)" by fastforce
  with assms AtFetch have "m' = goto t (case fetched cr x of Inl e \<Rightarrow> GetLock e | Inr u \<Rightarrow> PutLock u) (m\<lparr>shSys := s\<rparr>)"
    "es = [EvFetch t c (discovery_url cr) x]" by simp_all
  with assms(3) AtFetch p show ?thesis
    by (auto simp: step_ok_def discovery_failed_def discovery_found_def split: sum.splits)
next
  case (GetLock e)
  with assms(3,4) show ?thesis by (auto simp: step_ok_def split: option.splits)
next
  case (PutLock e)
  with assms(3,4) show ?thesis by (auto simp: step_ok_def split: option.splits)
next
  case (GetRead e)
  have "shPoint m' t \<noteq> Crashed" using assms(2) by (simp add: lock_inv_def)
  with GetRead assms(3,4) show ?thesis by (auto simp: step_ok_def Let_def split: if_splits)
next
  case (PutStore u)
  have "shPoint m' t \<noteq> Crashed" using assms(2) by (simp add: lock_inv_def)
  with PutStore assms(3,4) show ?thesis by (auto simp: step_ok_def split: if_splits)
next
  case (GetUnlock e v)
  with assms(3,4) show ?thesis by (auto simp: step_ok_def resolution_def)
next
  case (PutUnlock u)
  with assms(3,4) show ?thesis by (auto simp: step_ok_def resolution_def)
qed (use assms(3,4) in \<open>auto simp: step_ok_def\<close>)

definition own :: "nat \<Rightarrow> event list \<Rightarrow> event list" where
  "own t = filter (\<lambda>e. ev_by e = t)"

lemma schedule_history:
  assumes "schedule env r n job w k tr m"
  shows "(\<forall>t. progress r (job t) t (shPoint m t) (own t tr)) \<and> history env r (init_sys w) tr (shSys m) \<and>
    (\<forall>t. n \<le> t \<longrightarrow> shPoint m t = Entered)"
  using assms
proof induction
  case idle
  show ?case by (simp add: shared_init_def own_def)
next
  case (move k tr m t es m')
  from schedule_locks [OF move.hyps(1)] have o: "once_inv m" by blast
  from schedule_locks [OF schedule.move [OF move.hyps(1-3)]] have l: "lock_inv m'" by blast
  from move.IH have "progress r (job t) t (shPoint m t) (own t tr)" by blast
  from go_step_ok [OF o l this move.hyps(3)] have ok: "step_ok env r (job t) t (own t tr) m es m'" .
  then have by_t: "\<forall>e\<in>set es. ev_by e = t" by (auto simp: step_ok_def)
  have "progress r (job u) u (shPoint m' u) (own u (tr @ es))" for u
  proof (cases "u = t")
    case True
    with by_t have "own u (tr @ es) = own t tr @ es" by (auto simp: own_def filter_id_conv)
    with ok True show ?thesis by (simp add: step_ok_def)
  next
    case False
    with by_t have "own u (tr @ es) = own u tr" by (auto simp: own_def filter_empty_conv)
    with ok False move.IH show ?thesis by (simp add: step_ok_def)
  qed
  moreover have "history env r (init_sys w) (tr @ es) (shSys m')"
    using ok move.IH unfolding step_ok_def by (auto simp: history_append_iff)
  moreover have "shPoint m' u = Entered" if "n \<le> u" for u
    using that ok move.IH \<open>t < n\<close> by (auto simp: step_ok_def)
  ultimately show ?case by blast
qed

subsection \<open>Termination\<close>

text \<open>An upper bound on the steps that a goroutine still has to take.\<close>

fun left :: "point \<Rightarrow> nat" where
  "left Entered = 10"
| "left AtOnce = 9"
| "left InOnce = 8"
| "left AfterOnce = 7"
| "left (AtFetch c) = 6"
| "left (GetLock e) = 3"
| "left (GetRead e) = 2"
| "left (GetUnlock e v) = 1"
| "left (PutLock u) = 5"
| "left (PutMake u) = 4"
| "left (PutStore u) = 3"
| "left (PutStored u) = 2"
| "left (PutUnlock u) = 1"
| "left (Returned res) = 0"
| "left Crashed = 0"

lemma left_enter: "enter r cr t = (es, p) \<Longrightarrow> left p < 10"
  by (auto simp: enter_def split: if_splits option.splits)

lemma go_step_left:
  assumes "go_step env r cr t (shPoint m t) m = Some (es, m')"
  shows "left (shPoint m' t) < left (shPoint m t) \<and> (\<forall>u. u \<noteq> t \<longrightarrow> shPoint m' u = shPoint m u)"
proof (cases "shPoint m t")
  case Entered
  with assms show ?thesis by (cases "enter r cr t") (auto dest: left_enter)
next
  case (AtFetch c)
  with assms show ?thesis
    by (cases "perform (HTTPGet c (discovery_url cr)) (envHTTPDo env c (discovery_url cr)) (shSys m)") (auto split: sum.splits)
qed (use assms in \<open>auto simp: Let_def split: option.splits once.splits if_splits\<close>)

lemma schedule_bound:
  assumes "schedule env r n job w k tr m"
  shows "k + (\<Sum>t<n. left (shPoint m t)) \<le> 10 * n"
  using assms
proof induction
  case idle
  show ?case by (simp add: shared_init_def)
next
  case (move k tr m t es m')
  note g = go_step_left [OF move.hyps(3)]
  have "(\<Sum>u<n. left (shPoint m' u)) < (\<Sum>u<n. left (shPoint m u))"
  proof (rule sum_strict_mono_ex1)
    show "\<forall>u\<in>{..<n}. left (shPoint m' u) \<le> left (shPoint m u)"
      using g by (metis less_imp_le order_refl)
    show "\<exists>u\<in>{..<n}. left (shPoint m' u) < left (shPoint m u)" using g move.hyps(2) by blast
  qed simp
  with move.IH show ?case by simp
qed

lemma inside_moves:
  "critical p \<or> p = InOnce \<Longrightarrow> go_step env r cr t p m \<noteq> None"
  by (cases p) (auto simp: Let_def)

lemma waits_only:
  assumes "go_step env r cr t p m = None"
  shows "(\<exists>res. p = Returned res) \<or> p = Crashed \<or> (\<exists>u. shOnce m = Running u) \<or> (\<exists>u. shMu m = Some u)"
  using assms by (cases p) (auto simp: Let_def split: prod.splits option.splits once.splits if_splits)

lemma schedule_progress:
  assumes "schedule env r n job w k tr m" "t < n" "\<And>res. shPoint m t \<noteq> Returned res"
  shows "\<exists>u<n. go_step env r (job u) u (shPoint m u) m \<noteq> None"
proof (rule ccontr)
  assume stuck: "\<not> ?thesis"
  from schedule_locks [OF assms(1)] have o: "once_inv m" and l: "lock_inv m" by blast+
  have in_range: "u < n" if "shPoint m u \<noteq> Entered" for u
    using schedule_history [OF assms(1)] that by (meson not_le)
  have no: "\<not> critical (shPoint m u)" "shPoint m u \<noteq> InOnce" for u
    using stuck in_range [of u] inside_moves by fastforce+
  from stuck assms(2) have "go_step env r (job t) t (shPoint m t) m = None" by blast
  from waits_only [OF this] assms(3) l show False
  proof (elim disjE exE)
    fix u assume "shOnce m = Running u"
    with o have "shPoint m u = InOnce" by (simp add: once_inv_def)
    with no show False by blast
  next
    fix u assume "shMu m = Some u"
    with l have "critical (shPoint m u)" by (simp add: lock_inv_def)
    with no show False by blast
  qed (auto simp: lock_inv_def)
qed

subsection \<open>An executable scheduler\<close>

fun run_schedule :: "'w env \<Rightarrow> reconciler \<Rightarrow> (nat \<Rightarrow> HyperFleetConfig) \<Rightarrow> nat list \<Rightarrow> 'w shared \<Rightarrow> (event list \<times> 'w shared) option" where
  "run_schedule env r job [] m = Some ([], m)"
| "run_schedule env r job (t # ts) m = (case go_step env r (job t) t (shPoint m t) m of
      None \<Rightarrow> None
    | Some (es, m1) \<Rightarrow> (case run_schedule env r job ts m1 of
          None \<Rightarrow> None
        | Some (es', m') \<Rightarrow> Some (es @ es', m')))"

lemma run_schedule_schedule:
  assumes "schedule env r n job w k tr m" "run_schedule env r job ts m = Some (es, m')" "\<forall>t\<in>set ts. t < n"
  shows "schedule env r n job w (k + length ts) (tr @ es) m'"
  using assms
proof (induction ts arbitrary: k tr m es)
  case (Cons t ts)
  from Cons.prems(2) obtain es1 m1 es2 where g: "go_step env r (job t) t (shPoint m t) m = Some (es1, m1)"
    "run_schedule env r job ts m1 = Some (es2, m')" "es = es1 @ es2" by (auto split: option.splits)
  from Cons.prems(3) have "t < n" by simp
  from Cons.IH [OF schedule.move [OF Cons.prems(1) this g(1)] g(2)] Cons.prems(3) g(3) show ?case by simp
qed simp

subsection \<open>Properties\<close>

lemma found_verified: "discovery_found cr t u es \<Longrightarrow> verified_jwks (cr_issuer cr) u"
proof -
  assume "discovery_found cr t u es"
  then obtain x where "fetched cr x = Inr u" by (auto simp: discovery_found_def)
  then show ?thesis by (cases x) (auto simp: fetched_def intro: check_response_verified)
qed

text \<open>A trace in which every URL put into the cache is verified, and every client is the one to be used.\<close>

definition ev_ok :: "reconciler \<Rightarrow> event \<Rightarrow> bool" where
  "ev_ok r e \<longleftrightarrow> (case e of
      EvFetch t c url x \<Rightarrow> c = (case HTTPClient r of Some c \<Rightarrow> c | None \<Rightarrow> newDiscoveryHTTPClient)
    | EvPut t i u \<Rightarrow> verified_jwks i u
    | _ \<Rightarrow> True)"

lemma go_step_ev_ok:
  assumes "progress r cr t (shPoint m t) es0" "go_step env r cr t (shPoint m t) m = Some (es, m')"
  shows "list_all (ev_ok r) es"
proof (cases "shPoint m t")
  case Entered
  with assms show ?thesis by (cases "enter r cr t") (auto simp: ev_ok_def dest!: enter_progress)
next
  case (AtFetch c)
  with assms show ?thesis
    by (cases "perform (HTTPGet c (discovery_url cr)) (envHTTPDo env c (discovery_url cr)) (shSys m)") (auto simp: ev_ok_def)
next
  case (PutStored u)
  with assms show ?thesis by (auto simp: ev_ok_def intro: found_verified)
qed (use assms in \<open>auto simp: ev_ok_def Let_def split: option.splits once.splits if_splits\<close>)

lemma schedule_ev_ok:
  assumes "schedule env r n job w k tr m"
  shows "list_all (ev_ok r) tr"
  using assms
proof induction
  case (move k tr m t es m')
  from schedule_history [OF move.hyps(1)] have "progress r (job t) t (shPoint m t) (own t tr)" by blast
  from go_step_ev_ok [OF this move.hyps(3)] move.IH show ?case by simp
qed simp

lemma history_ok:
  assumes "history env r s tr s'" "list_all (ev_ok r) tr" "cache_ok s"
  shows "cache_ok s' \<and> (\<exists>new. calls s' = calls s @ new \<and> list_all (\<lambda>c. \<exists>url. c =
    HTTPGet (case HTTPClient r of Some c \<Rightarrow> c | None \<Rightarrow> newDiscoveryHTTPClient) url) new)"
  using assms
proof (induction rule: history.induct)
  case (next_event es s' e s'')
  then obtain new where c: "cache_ok s'" "calls s' = calls s @ new" "list_all (\<lambda>c. \<exists>url. c =
    HTTPGet (case HTTPClient r of Some c \<Rightarrow> c | None \<Rightarrow> newDiscoveryHTTPClient) url) new" "ev_ok r e" by auto
  show ?case
  proof (cases e)
    case (EvClient t cl)
    with next_event.hyps have "discovery_client r s' = (cl, s'')" by simp
    from discovery_client_sel [OF this] c show ?thesis by (simp add: cache_ok_def)
  next
    case (EvFetch t cl url x)
    with next_event.hyps have p: "perform (HTTPGet cl url) (envHTTPDo env cl url) s' = (x, s'')" by simp
    with c EvFetch show ?thesis by (intro conjI exI [of _ "new @ [HTTPGet cl url]"]) (auto simp: cache_ok_def ev_ok_def)
  next
    case (EvGet t i v)
    with next_event.hyps c show ?thesis by auto
  next
    case (EvPut t i u)
    with next_event.hyps c show ?thesis by (auto simp: cache_ok_def cacheDiscovery_def ev_ok_def)
  qed
qed auto

text \<open>
  C8: However many goroutines resolve key-set URLs at the same time, and whatever the schedule: the process
  does not crash (no goroutine uses a nil client, writes a nil map, or touches the map while it is written), at
  most one goroutine is between locking and unlocking the cache, the default client is built at most once and is the
  only one that requests go through, and every cached URL is verified.
\<close>

theorem concurrent_discovery_safe:
  assumes "schedule env r n job w k tr m"
  shows "(\<forall>t. shPoint m t \<noteq> Crashed) \<and>
    (\<forall>t u. critical (shPoint m t) \<and> critical (shPoint m u) \<longrightarrow> t = u) \<and>
    clientsBuilt (shSys m) \<le> 1 \<and> cache_ok (shSys m) \<and>
    (\<forall>c url. HTTPGet c url \<in> set (calls (shSys m)) \<longrightarrow> c = (case HTTPClient r of Some c \<Rightarrow> c | None \<Rightarrow> newDiscoveryHTTPClient))"
proof -
  from schedule_locks [OF assms] have o: "once_inv m" and l: "lock_inv m" by blast+
  from schedule_history [OF assms] have h: "history env r (init_sys w) tr (shSys m)" by blast
  have "cache_ok (init_sys w)" by (simp add: cache_ok_def init_sys_def)
  from history_ok [OF h schedule_ev_ok [OF assms] this] have c: "cache_ok (shSys m)"
    "\<forall>c url. HTTPGet c url \<in> set (calls (shSys m)) \<longrightarrow> c = (case HTTPClient r of Some c \<Rightarrow> c | None \<Rightarrow> newDiscoveryHTTPClient)"
    by (auto simp: init_sys_def list_all_iff)
  have "t = u" if "critical (shPoint m t)" "critical (shPoint m u)" for t u
    using l that unfolding lock_inv_def by (metis option.inject)
  moreover have "clientsBuilt (shSys m) \<le> 1" using o by (simp add: once_inv_def)
  moreover have "\<forall>t. shPoint m t \<noteq> Crashed" using l by (simp add: lock_inv_def)
  ultimately show ?thesis using c by blast
qed

text \<open>
  C9: The locks make the sequential model exact.  Under any schedule the shared state is the result of atomic
  operations, done one after the other: obtaining the client, the request, a look-up and an update of the cache;
  and the operations of each goroutine that has returned are, in order and with its result, those of a
  \<^verbatim>\<open>resolveJWKSURL\<close> that nobody interrupts.
\<close>

theorem concurrent_discovery_atomic:
  assumes "schedule env r n job w k tr m"
  shows "history env r (init_sys w) tr (shSys m) \<and>
    (\<forall>t res. shPoint m t = Returned res \<longrightarrow> resolution (job t) t res (own t tr)) \<and>
    (\<forall>t s res s'. resolveJWKSURL env r (job t) s = (res, s') \<longleftrightarrow>
       (\<exists>es. resolution (job t) t res es \<and> history env r s es s'))"
proof -
  have "resolution (job t) t res (own t tr)" if "shPoint m t = Returned res" for t res
    using schedule_history [OF assms] that by (metis progress.simps(14))
  with schedule_history [OF assms] resolution_sequential show ?thesis by blast
qed

text \<open>
  C10: Discovery never deadlocks and always ends: together \<open>n\<close> goroutines take at most \<open>10 * n\<close> steps, whatever
  the schedule, and as long as one of them has not returned some goroutine can take a step.
\<close>

theorem concurrent_discovery_terminates:
  assumes "schedule env r n job w k tr m"
  shows "k \<le> 10 * n \<and>
    ((\<forall>t<n. \<exists>res. shPoint m t = Returned res) \<or> (\<exists>t<n. go_step env r (job t) t (shPoint m t) m \<noteq> None))"
  using schedule_bound [OF assms] schedule_progress [OF assms] by (metis le_add1 le_trans)

subsection \<open>Witnesses\<close>

text \<open>Two goroutines, interleaved at every point where that is possible, both through the \<^verbatim>\<open>sync.Once\<close>.\<close>

abbreviation two_at_once :: "nat list" where
  "two_at_once \<equiv> [0, 1, 0, 0, 1, 0, 1, 0, 1, 0, 0, 0, 0, 0, 1, 1, 1, 1, 1]"

lemma example_schedule:
  obtains tr m where "schedule (example_env (example_config None None None)) example_reconciler 2 (\<lambda>_. example_config None None None) ()
    19 tr m" "shPoint m 0 = Returned (Inr ''https://idp/keys'')" "shPoint m 1 = Returned (Inr ''https://idp/keys'')"
    "discoveryCache (shSys m) = [''https://idp'' \<mapsto> ''https://idp/keys'']" "length tr = 6"
proof -
  let ?cr = "example_config None None None"
  have f: "fetched ?cr (Inr example_response) = Inr ''https://idp/keys''" by (simp add: fetched_def example_provider)
  have e: "enter example_reconciler ?cr t = ([], AtOnce)" for t
    by (simp add: enter_def AuthEnabled_def example_reconciler_def example_provider)
  have "\<exists>tr m. run_schedule (example_env ?cr) example_reconciler (\<lambda>_. ?cr) two_at_once (shared_init ()) = Some (tr, m) \<and>
     shPoint m 0 = Returned (Inr ''https://idp/keys'') \<and> shPoint m 1 = Returned (Inr ''https://idp/keys'') \<and>
     discoveryCache (shSys m) = [''https://idp'' \<mapsto> ''https://idp/keys''] \<and> length tr = 6"
    by (simp add: e f shared_init_def init_sys_def perform_def example_env_def [of ?cr, THEN arg_cong [of _ _ envHTTPDo]] cacheDiscovery_def)
  then obtain tr m where m: "run_schedule (example_env ?cr) example_reconciler (\<lambda>_. ?cr) two_at_once (shared_init ()) = Some (tr, m)"
    "shPoint m 0 = Returned (Inr ''https://idp/keys'')" "shPoint m 1 = Returned (Inr ''https://idp/keys'')"
    "discoveryCache (shSys m) = [''https://idp'' \<mapsto> ''https://idp/keys'']" "length tr = 6" by blast
  from run_schedule_schedule [OF schedule.idle m(1), of 2] m(2-) show thesis by (intro that [of tr m]) (simp_all add: eval_nat_numeral)
qed

theorem concurrent_discovery_safe_witness:
  "\<exists>tr m. schedule (example_env (example_config None None None)) example_reconciler 2 (\<lambda>_. example_config None None None) () 19 tr m \<and>
     shPoint m 0 = Returned (Inr ''https://idp/keys'') \<and> clientsBuilt (shSys m) \<le> 1"
proof (rule example_schedule)
  fix tr m
  assume "schedule (example_env (example_config None None None)) example_reconciler 2 (\<lambda>_. example_config None None None) () 19 tr m"
    "shPoint m 0 = Returned (Inr ''https://idp/keys'')"
  with concurrent_discovery_safe [OF this(1)] show ?thesis by blast
qed

theorem concurrent_discovery_atomic_witness:
  "\<exists>tr (m :: unit shared). resolution (example_config None None None) 0 (Inr ''https://idp/keys'') (own 0 tr) \<and>
     resolution (example_config None None None) 1 (Inr ''https://idp/keys'') (own 1 tr) \<and>
     history (example_env (example_config None None None)) example_reconciler (init_sys ()) tr (shSys m) \<and> length tr = 6"
proof (rule example_schedule)
  fix tr m
  assume a: "schedule (example_env (example_config None None None)) example_reconciler 2 (\<lambda>_. example_config None None None) () 19 tr m"
    "shPoint m 0 = Returned (Inr ''https://idp/keys'')" "shPoint m 1 = Returned (Inr ''https://idp/keys'')" "length tr = 6"
  note c = concurrent_discovery_atomic [OF a(1)]
  from c have h: "history (example_env (example_config None None None)) example_reconciler (init_sys ()) tr (shSys m)" by (rule conjunct1)
  from c [THEN conjunct2, THEN conjunct1, rule_format, OF a(2)] c [THEN conjunct2, THEN conjunct1, rule_format, OF a(3)] h a(4)
  show ?thesis by (intro exI conjI)
qed

theorem concurrent_discovery_terminates_witness:
  "\<exists>tr m. schedule (example_env (example_config None None None)) example_reconciler 2 (\<lambda>_. example_config None None None) () 19 tr m \<and>
     (19::nat) \<le> 10 * 2"
proof (rule example_schedule)
  fix tr m
  assume "schedule (example_env (example_config None None None)) example_reconciler 2 (\<lambda>_. example_config None None None) () 19 tr m"
  with concurrent_discovery_terminates [OF this] show ?thesis by blast
qed

end
