(* ===== verification/Deep_Copy.thy ===== *)
theory Deep_Copy
  imports Api_Types
begin

section \<open>Deep copies\<close>

text \<open>
  \<^verbatim>\<open>api/v1alpha1/zz_generated.deepcopy.go\<close> over an explicit heap.  The other theories treat the resource
  as an immutable value; in the program it is a graph of pointers and slices, which the client's cache
  hands out as a copy and which a reconcile then updates in place.  This theory models the pointer
  layout of the types and the copying code, and shows that a copy has the value of the original
  and shares no memory with it, which is what the immutable view rests on.

  Metadata and conditions are types of the library \<^verbatim>\<open>apimachinery\<close>: their copying is a parameter.
\<close>

subsection \<open>Memory\<close>

type_synonym addr = nat

text \<open>A slice: its backing array, the offset of its first element and its length; \<open>None\<close> is nil.\<close>

type_synonym slice = "(addr \<times> nat \<times> nat) option"

record gAuthSpec =
  gEnabled :: "addr option"
  gIssuer :: string
  gAudience :: string
  gJWKCertSecretRef :: "addr option"

record gAPISpec =
  gDatabase :: DatabaseSpec
  gAuth :: gAuthSpec
  gTLS :: "addr option"
  gProfile :: string

record gSpec =
  gBundle :: string
  gAPI :: gAPISpec

record gComponent =
  gcName :: string
  gcConditions :: slice

record gStatus =
  gObservedGeneration :: int
  gConditions :: slice
  gComponents :: slice

record 'm gConfig =
  gTypeMeta :: "string \<times> string"
  gObjectMeta :: 'm
  gSpec :: gSpec
  gStatus :: gStatus

record 'm gConfigList =
  gListTypeMeta :: "string \<times> string"
  gListMeta :: 'm
  gItems :: slice

text \<open>What an address can hold: a variable of one of the types, or an array.\<close>

datatype 'm cell =
    BoolCell bool
  | SecretCell SecretRef
  | DatabaseCell DatabaseSpec
  | TLSCell TLSSpec
  | AuthCell gAuthSpec
  | APICell gAPISpec
  | SpecCell gSpec
  | ComponentCell gComponent
  | StatusCell gStatus
  | ConfigCell "'m gConfig"
  | ListCell "'m gConfigList"
  | ConditionArray "Condition list"
  | ComponentArray "gComponent list"
  | ConfigArray "'m gConfig list"
  | LibraryCell string

definition bool_in :: "'m cell \<Rightarrow> bool option" where
  "bool_in c = (case c of BoolCell x \<Rightarrow> Some x | _ \<Rightarrow> None)"
definition secret_in :: "'m cell \<Rightarrow> SecretRef option" where
  "secret_in c = (case c of SecretCell x \<Rightarrow> Some x | _ \<Rightarrow> None)"
definition database_in :: "'m cell \<Rightarrow> DatabaseSpec option" where
  "database_in c = (case c of DatabaseCell x \<Rightarrow> Some x | _ \<Rightarrow> None)"
definition tls_in :: "'m cell \<Rightarrow> TLSSpec option" where
  "tls_in c = (case c of TLSCell x \<Rightarrow> Some x | _ \<Rightarrow> None)"
definition auth_in :: "'m cell \<Rightarrow> gAuthSpec option" where
  "auth_in c = (case c of AuthCell x \<Rightarrow> Some x | _ \<Rightarrow> None)"
definition api_in :: "'m cell \<Rightarrow> gAPISpec option" where
  "api_in c = (case c of APICell x \<Rightarrow> Some x | _ \<Rightarrow> None)"
definition spec_in :: "'m cell \<Rightarrow> gSpec option" where
  "spec_in c = (case c of SpecCell x \<Rightarrow> Some x | _ \<Rightarrow> None)"
definition component_in :: "'m cell \<Rightarrow> gComponent option" where
  "component_in c = (case c of ComponentCell x \<Rightarrow> Some x | _ \<Rightarrow> None)"
definition status_in :: "'m cell \<Rightarrow> gStatus option" where
  "status_in c = (case c of StatusCell x \<Rightarrow> Some x | _ \<Rightarrow> None)"
definition config_in :: "'m cell \<Rightarrow> 'm gConfig option" where
  "config_in c = (case c of ConfigCell x \<Rightarrow> Some x | _ \<Rightarrow> None)"
definition list_in :: "'m cell \<Rightarrow> 'm gConfigList option" where
  "list_in c = (case c of ListCell x \<Rightarrow> Some x | _ \<Rightarrow> None)"
definition conditions_in :: "'m cell \<Rightarrow> Condition list option" where
  "conditions_in c = (case c of ConditionArray x \<Rightarrow> Some x | _ \<Rightarrow> None)"
definition components_in :: "'m cell \<Rightarrow> gComponent list option" where
  "components_in c = (case c of ComponentArray x \<Rightarrow> Some x | _ \<Rightarrow> None)"
definition configs_in :: "'m cell \<Rightarrow> 'm gConfig list option" where
  "configs_in c = (case c of ConfigArray x \<Rightarrow> Some x | _ \<Rightarrow> None)"

lemmas in_defs = bool_in_def secret_in_def database_in_def tls_in_def auth_in_def api_in_def spec_in_def component_in_def
  status_in_def config_in_def list_in_def conditions_in_def components_in_def configs_in_def

text \<open>The addresses below the length of the heap are allocated; the next one is given out by \<^verbatim>\<open>new\<close> and \<^verbatim>\<open>make\<close>.\<close>

type_synonym 'm heap = "'m cell list"

definition load :: "'m heap \<Rightarrow> addr \<Rightarrow> 'm cell option" where
  "load h a = (if a < length h then Some (h ! a) else None)"

text \<open>Reading a variable of a known type; \<open>None\<close> is a fault.\<close>

definition read :: "('m cell \<Rightarrow> 'x option) \<Rightarrow> 'm heap \<Rightarrow> addr \<Rightarrow> 'x option" where
  "read sel h a = Option.bind (load h a) sel"

type_synonym ('x, 'm) copier = "'x \<Rightarrow> 'm heap \<Rightarrow> ('x \<times> 'm heap) option"

subsection \<open>The generated patterns\<close>

text \<open>\<^verbatim>\<open>if in.F != nil { *out = new(T); **out = **in }\<close>\<close>

definition copy_pointer :: "('m cell \<Rightarrow> 'x option) \<Rightarrow> ('x \<Rightarrow> 'm cell) \<Rightarrow> (addr option, 'm) copier" where
  "copy_pointer sel mk p h = (case p of None \<Rightarrow> Some (None, h)
     | Some a \<Rightarrow> (case read sel h a of None \<Rightarrow> None | Some x \<Rightarrow> Some (Some (length h), h @ [mk x])))"

text \<open>\<^verbatim>\<open>for i := range *in { (*in)[i].DeepCopyInto(&(*out)[i]) }\<close>, where the new array is at \<open>b\<close>.\<close>

fun copy_elements :: "('x, 'm) copier \<Rightarrow> ('x list \<Rightarrow> 'm cell) \<Rightarrow> addr \<Rightarrow> nat \<Rightarrow> 'x list \<Rightarrow> 'x list \<Rightarrow> 'm heap \<Rightarrow> ('x list \<times> 'm heap) option" where
  "copy_elements into mk b i [] out h = Some (out, h)"
| "copy_elements into mk b i (x # xs) out h = (case into x h of
      None \<Rightarrow> None
    | Some (y, h1) \<Rightarrow> copy_elements into mk b (Suc i) xs (out[i := y]) (h1[b := mk (out[i := y])]))"

text \<open>\<^verbatim>\<open>if in.F != nil { *out = make([]T, len(*in)); for ... }\<close>\<close>

definition copy_slice :: "('x, 'm) copier \<Rightarrow> ('m cell \<Rightarrow> 'x list option) \<Rightarrow> ('x list \<Rightarrow> 'm cell) \<Rightarrow> 'x \<Rightarrow> (slice, 'm) copier" where
  "copy_slice into sel mk zero p h = (case p of None \<Rightarrow> Some (None, h)
     | Some (a, off, n) \<Rightarrow> (case read sel h a of
           None \<Rightarrow> None
         | Some xs \<Rightarrow> if length xs < off + n then None
             else (case copy_elements into mk (length h) 0 (take n (drop off xs)) (replicate n zero) (h @ [mk (replicate n zero)]) of
                 None \<Rightarrow> None
               | Some (_, h') \<Rightarrow> Some (Some (length h, 0, n), h'))))"

text \<open>\<^verbatim>\<open>DeepCopy\<close>: \<^verbatim>\<open>if in == nil { return nil }; out := new(T); in.DeepCopyInto(out); return out\<close>.\<close>

definition copy_new :: "('x, 'm) copier \<Rightarrow> ('m cell \<Rightarrow> 'x option) \<Rightarrow> ('x \<Rightarrow> 'm cell) \<Rightarrow> 'x \<Rightarrow> (addr option, 'm) copier" where
  "copy_new into sel mk zero p h = (case p of None \<Rightarrow> Some (None, h)
     | Some a \<Rightarrow> (case read sel h a of
           None \<Rightarrow> None
         | Some x \<Rightarrow> (case into x (h @ [mk zero]) of
               None \<Rightarrow> None
             | Some (y, h') \<Rightarrow> Some (Some (length h), h'[length h := mk y]))))"

subsection \<open>The generated functions\<close>

text \<open>The library's functions: copying an \<^verbatim>\<open>ObjectMeta\<close>, a \<^verbatim>\<open>ListMeta\<close> and a \<^verbatim>\<open>Condition\<close>.  What the
  metadata means and which addresses it reaches is known to the library only.\<close>

record ('m, 'v) struct_ops =
  opZero :: 'm
  opInto :: "('m, 'm) copier"
  opValue :: "'m heap \<Rightarrow> 'm \<Rightarrow> 'v option"
  opReach :: "'m heap \<Rightarrow> 'm \<Rightarrow> addr set"

record ('m, 'v) apimachinery =
  libObjectMeta :: "('m, 'v) struct_ops"
  libListMeta :: "('m, 'v) struct_ops"
  libCondition :: "(Condition, 'm) copier"

definition SecretReference_DeepCopyInto :: "(SecretRef, 'm) copier" where
  "SecretReference_DeepCopyInto x h = Some (x, h)"

definition DatabaseSpec_DeepCopyInto :: "(DatabaseSpec, 'm) copier" where
  "DatabaseSpec_DeepCopyInto x h = Some (x\<lparr>dbSecretRef := dbSecretRef x\<rparr>, h)"

definition TLSSpec_DeepCopyInto :: "(TLSSpec, 'm) copier" where
  "TLSSpec_DeepCopyInto x h = Some (x\<lparr>tlsSecretRef := tlsSecretRef x\<rparr>, h)"

definition AuthSpec_DeepCopyInto :: "(gAuthSpec, 'm) copier" where
  "AuthSpec_DeepCopyInto x h = (case copy_pointer bool_in BoolCell (gEnabled x) h of
      None \<Rightarrow> None
    | Some (p, h1) \<Rightarrow> (case copy_pointer secret_in SecretCell (gJWKCertSecretRef x) h1 of
          None \<Rightarrow> None
        | Some (q, h2) \<Rightarrow> Some (x\<lparr>gEnabled := p, gJWKCertSecretRef := q\<rparr>, h2)))"

definition APISpec_DeepCopyInto :: "(gAPISpec, 'm) copier" where
  "APISpec_DeepCopyInto x h = (case AuthSpec_DeepCopyInto (gAuth x) h of
      None \<Rightarrow> None
    | Some (a, h1) \<Rightarrow> (case copy_pointer tls_in TLSCell (gTLS x) h1 of
          None \<Rightarrow> None
        | Some (p, h2) \<Rightarrow> Some (x\<lparr>gDatabase := gDatabase x, gAuth := a, gTLS := p\<rparr>, h2)))"

definition HyperFleetConfigSpec_DeepCopyInto :: "(gSpec, 'm) copier" where
  "HyperFleetConfigSpec_DeepCopyInto x h = (case APISpec_DeepCopyInto (gAPI x) h of
      None \<Rightarrow> None
    | Some (a, h1) \<Rightarrow> Some (x\<lparr>gAPI := a\<rparr>, h1))"

definition zeroCondition :: Condition where
  "zeroCondition = \<lparr>cType = [], cStatus = [], cReason = [], cMessage = [], cObservedGeneration = 0, cLastTransitionTime = None\<rparr>"

definition ComponentConditions_DeepCopyInto :: "('m, 'v) apimachinery \<Rightarrow> (gComponent, 'm) copier" where
  "ComponentConditions_DeepCopyInto lib x h =
     (case copy_slice (libCondition lib) conditions_in ConditionArray zeroCondition (gcConditions x) h of
        None \<Rightarrow> None
      | Some (p, h1) \<Rightarrow> Some (x\<lparr>gcConditions := p\<rparr>, h1))"

definition zeroComponent :: gComponent where
  "zeroComponent = \<lparr>gcName = [], gcConditions = None\<rparr>"

definition HyperFleetConfigStatus_DeepCopyInto :: "('m, 'v) apimachinery \<Rightarrow> (gStatus, 'm) copier" where
  "HyperFleetConfigStatus_DeepCopyInto lib x h =
     (case copy_slice (libCondition lib) conditions_in ConditionArray zeroCondition (gConditions x) h of
        None \<Rightarrow> None
      | Some (p, h1) \<Rightarrow> (case copy_slice (ComponentConditions_DeepCopyInto lib) components_in ComponentArray zeroComponent (gComponents x) h1 of
            None \<Rightarrow> None
          | Some (q, h2) \<Rightarrow> Some (x\<lparr>gConditions := p, gComponents := q\<rparr>, h2)))"

definition HyperFleetConfig_DeepCopyInto :: "('m, 'v) apimachinery \<Rightarrow> ('m gConfig, 'm) copier" where
  "HyperFleetConfig_DeepCopyInto lib x h = (case opInto (libObjectMeta lib) (gObjectMeta x) h of
      None \<Rightarrow> None
    | Some (m, h1) \<Rightarrow> (case HyperFleetConfigSpec_DeepCopyInto (gSpec x) h1 of
          None \<Rightarrow> None
        | Some (s, h2) \<Rightarrow> (case HyperFleetConfigStatus_DeepCopyInto lib (gStatus x) h2 of
              None \<Rightarrow> None
            | Some (t, h3) \<Rightarrow> Some (x\<lparr>gTypeMeta := gTypeMeta x, gObjectMeta := m, gSpec := s, gStatus := t\<rparr>, h3))))"

definition zeroAuth :: gAuthSpec where
  "zeroAuth = \<lparr>gEnabled = None, gIssuer = [], gAudience = [], gJWKCertSecretRef = None\<rparr>"

definition zeroAPI :: gAPISpec where
  "zeroAPI = \<lparr>gDatabase = \<lparr>dbSecretRef = \<lparr>srName = []\<rparr>\<rparr>, gAuth = zeroAuth, gTLS = None, gProfile = []\<rparr>"

definition zeroSpec :: gSpec where
  "zeroSpec = \<lparr>gBundle = [], gAPI = zeroAPI\<rparr>"

definition zeroStatus :: gStatus where
  "zeroStatus = \<lparr>gObservedGeneration = 0, gConditions = None, gComponents = None\<rparr>"

definition zeroConfig :: "('m, 'v) apimachinery \<Rightarrow> 'm gConfig" where
  "zeroConfig lib = \<lparr>gTypeMeta = ([], []), gObjectMeta = opZero (libObjectMeta lib), gSpec = zeroSpec, gStatus = zeroStatus\<rparr>"

definition zeroConfigList :: "('m, 'v) apimachinery \<Rightarrow> 'm gConfigList" where
  "zeroConfigList lib = \<lparr>gListTypeMeta = ([], []), gListMeta = opZero (libListMeta lib), gItems = None\<rparr>"

definition HyperFleetConfigList_DeepCopyInto :: "('m, 'v) apimachinery \<Rightarrow> ('m gConfigList, 'm) copier" where
  "HyperFleetConfigList_DeepCopyInto lib x h = (case opInto (libListMeta lib) (gListMeta x) h of
      None \<Rightarrow> None
    | Some (m, h1) \<Rightarrow> (case copy_slice (HyperFleetConfig_DeepCopyInto lib) configs_in ConfigArray (zeroConfig lib) (gItems x) h1 of
          None \<Rightarrow> None
        | Some (p, h2) \<Rightarrow> Some (x\<lparr>gListTypeMeta := gListTypeMeta x, gListMeta := m, gItems := p\<rparr>, h2)))"

definition SecretReference_DeepCopy :: "(addr option, 'm) copier" where
  "SecretReference_DeepCopy = copy_new SecretReference_DeepCopyInto secret_in SecretCell \<lparr>srName = []\<rparr>"
definition DatabaseSpec_DeepCopy :: "(addr option, 'm) copier" where
  "DatabaseSpec_DeepCopy = copy_new DatabaseSpec_DeepCopyInto database_in DatabaseCell \<lparr>dbSecretRef = \<lparr>srName = []\<rparr>\<rparr>"
definition TLSSpec_DeepCopy :: "(addr option, 'm) copier" where
  "TLSSpec_DeepCopy = copy_new TLSSpec_DeepCopyInto tls_in TLSCell \<lparr>tlsSecretRef = \<lparr>srName = []\<rparr>\<rparr>"
definition AuthSpec_DeepCopy :: "(addr option, 'm) copier" where
  "AuthSpec_DeepCopy = copy_new AuthSpec_DeepCopyInto auth_in AuthCell zeroAuth"
definition APISpec_DeepCopy :: "(addr option, 'm) copier" where
  "APISpec_DeepCopy = copy_new APISpec_DeepCopyInto api_in APICell zeroAPI"
definition HyperFleetConfigSpec_DeepCopy :: "(addr option, 'm) copier" where
  "HyperFleetConfigSpec_DeepCopy = copy_new HyperFleetConfigSpec_DeepCopyInto spec_in SpecCell zeroSpec"
definition ComponentConditions_DeepCopy :: "('m, 'v) apimachinery \<Rightarrow> (addr option, 'm) copier" where
  "ComponentConditions_DeepCopy lib = copy_new (ComponentConditions_DeepCopyInto lib) component_in ComponentCell zeroComponent"
definition HyperFleetConfigStatus_DeepCopy :: "('m, 'v) apimachinery \<Rightarrow> (addr option, 'm) copier" where
  "HyperFleetConfigStatus_DeepCopy lib = copy_new (HyperFleetConfigStatus_DeepCopyInto lib) status_in StatusCell zeroStatus"
definition HyperFleetConfig_DeepCopy :: "('m, 'v) apimachinery \<Rightarrow> (addr option, 'm) copier" where
  "HyperFleetConfig_DeepCopy lib = copy_new (HyperFleetConfig_DeepCopyInto lib) config_in ConfigCell (zeroConfig lib)"
definition HyperFleetConfigList_DeepCopy :: "('m, 'v) apimachinery \<Rightarrow> (addr option, 'm) copier" where
  "HyperFleetConfigList_DeepCopy lib = copy_new (HyperFleetConfigList_DeepCopyInto lib) list_in ListCell (zeroConfigList lib)"

text \<open>\<^verbatim>\<open>DeepCopyObject\<close> returns the nil interface for a nil receiver.\<close>

definition HyperFleetConfig_DeepCopyObject :: "('m, 'v) apimachinery \<Rightarrow> (addr option, 'm) copier" where
  "HyperFleetConfig_DeepCopyObject lib p h = (case HyperFleetConfig_DeepCopy lib p h of
      None \<Rightarrow> None
    | Some (Some c, h') \<Rightarrow> Some (Some c, h')
    | Some (None, h') \<Rightarrow> Some (None, h'))"

definition HyperFleetConfigList_DeepCopyObject :: "('m, 'v) apimachinery \<Rightarrow> (addr option, 'm) copier" where
  "HyperFleetConfigList_DeepCopyObject lib p h = (case HyperFleetConfigList_DeepCopy lib p h of
      None \<Rightarrow> None
    | Some (Some c, h') \<Rightarrow> Some (Some c, h')
    | Some (None, h') \<Rightarrow> Some (None, h'))"

subsection \<open>What it is to copy deeply\<close>

text \<open>
  The contract of a copying function: \<open>val\<close> is the immutable value of a variable in a heap, if every
  address it needs is there, and \<open>reach\<close> the addresses on which it depends.  The copy of a variable that
  has a value has the same value, the heap only grows, and the copy reaches new addresses only.
\<close>

locale copyable =
  fixes into :: "'x \<Rightarrow> 'm cell list \<Rightarrow> ('x \<times> 'm cell list) option"
    and val :: "'m cell list \<Rightarrow> 'x \<Rightarrow> 'v option"
    and reach :: "'m cell list \<Rightarrow> 'x \<Rightarrow> nat set"
  assumes copies: "val h x = Some v \<Longrightarrow> \<exists>y h'. into x h = Some (y, h') \<and> prefix h h' \<and> val h' y = Some v \<and>
      reach h' y \<subseteq> {length h..<length h'}"
    and local: "val h x = Some v \<Longrightarrow> (\<And>a. a \<in> reach h x \<Longrightarrow> load h' a = load h a) \<Longrightarrow> val h' x = Some v \<and> reach h' x = reach h x"
    and allocated: "val h x = Some v \<Longrightarrow> a \<in> reach h x \<Longrightarrow> a < length h"

lemma load_prefix: "prefix h h' \<Longrightarrow> a < length h \<Longrightarrow> load h' a = load h a"
  by (auto simp: load_def prefix_def nth_append)

lemma load_append [simp]: "load (h @ [c]) (length h) = Some c" "load (h @ [c]) a = (if a = length h then Some c else load h a)"
  by (auto simp: load_def nth_append)

lemma load_update: "load (h[b := c]) a = (if a = b \<and> b < length h then Some c else load h a)"
  by (auto simp: load_def)

lemma load_SomeD: "load h a = Some c \<Longrightarrow> a < length h \<and> h ! a = c"
  by (auto simp: load_def split: if_splits)

lemma read_Some_iff: "read sel h a = Some x \<longleftrightarrow> (\<exists>c. load h a = Some c \<and> sel c = Some x)"
  by (cases "load h a") (auto simp: read_def)

lemma those_iff: "those xs = Some ys \<longleftrightarrow> list_all2 (\<lambda>x y. x = Some y) xs ys"
proof (induction xs arbitrary: ys)
  case (Cons x xs)
  then show ?case by (cases x; cases ys) (auto split: option.splits)
qed auto

lemma those_map_iff: "those (map f xs) = Some ys \<longleftrightarrow> list_all2 (\<lambda>x y. f x = Some y) xs ys"
  by (simp add: those_iff list_all2_map1)

lemma list_all2_member: "list_all2 P xs ys \<Longrightarrow> x \<in> set xs \<Longrightarrow> \<exists>y. P x y"
  by (induction rule: list_all2_induct) auto

lemma prefix_loadI: "length h \<le> length h' \<Longrightarrow> (\<And>a. a < length h \<Longrightarrow> load h' a = load h a) \<Longrightarrow> prefix h h'"
proof -
  assume l: "length h \<le> length h'" and e: "\<And>a. a < length h \<Longrightarrow> load h' a = load h a"
  have "take (length h) h' = h"
    by (rule nth_equalityI) (use l e in \<open>auto simp: load_def split: if_splits\<close>)
  then show ?thesis by (metis take_is_prefix)
qed

text \<open>The values of a pointer to, and of a slice of, variables; a nil slice is an empty list.\<close>

definition pointer_val :: "('m cell \<Rightarrow> 'x option) \<Rightarrow> 'm heap \<Rightarrow> addr option \<Rightarrow> 'x option option" where
  "pointer_val sel h p = (case p of None \<Rightarrow> Some None | Some a \<Rightarrow> map_option Some (read sel h a))"

definition pointer_reach :: "'m heap \<Rightarrow> addr option \<Rightarrow> addr set" where
  "pointer_reach h p = set_option p"

definition slice_val :: "('m cell \<Rightarrow> 'x list option) \<Rightarrow> ('m heap \<Rightarrow> 'x \<Rightarrow> 'v option) \<Rightarrow> 'm heap \<Rightarrow> slice \<Rightarrow> 'v list option" where
  "slice_val sel val h p = (case p of None \<Rightarrow> Some []
     | Some (a, off, n) \<Rightarrow> (case read sel h a of
           None \<Rightarrow> None
         | Some xs \<Rightarrow> if length xs < off + n then None else those (map (val h) (take n (drop off xs)))))"

definition slice_reach :: "('m cell \<Rightarrow> 'x list option) \<Rightarrow> ('m heap \<Rightarrow> 'x \<Rightarrow> addr set) \<Rightarrow> 'm heap \<Rightarrow> slice \<Rightarrow> addr set" where
  "slice_reach sel reach h p = (case p of None \<Rightarrow> {}
     | Some (a, off, n) \<Rightarrow> insert a (case read sel h a of
           None \<Rightarrow> {}
         | Some xs \<Rightarrow> \<Union> (reach h ` set (take n (drop off xs)))))"

lemma slice_val_Some:
  assumes "slice_val sel val h (Some (a, off, n)) = Some vs"
  obtains xs where "read sel h a = Some xs" "off + n \<le> length xs" "list_all2 (\<lambda>x v. val h x = Some v) (take n (drop off xs)) vs"
  using assms by (auto simp: slice_val_def those_map_iff split: option.splits if_splits)

context copyable
begin

lemma grows: "val h x = Some v \<Longrightarrow> prefix h h' \<Longrightarrow> val h' x = Some v \<and> reach h' x = reach h x"
  by (rule local) (auto intro!: load_prefix dest: allocated)

lemma copied:
  assumes "val h x = Some v"
  obtains y h' where "into x h = Some (y, h')" "prefix h h'" "val h' y = Some v" "reach h' y \<subseteq> {length h..<length h'}"
  using copies [OF assms] by blast

text \<open>The copying loop over an array.\<close>

lemma copy_elements_ok:
  assumes "list_all2 (\<lambda>x v. val h x = Some v \<and> b \<notin> reach h x) xs vs" "load h b = Some (mk out)" "i + length xs \<le> length out"
  shows "\<exists>out' h'. copy_elements into mk b i xs out h = Some (out', h') \<and> length h \<le> length h' \<and>
    (\<forall>a. a < length h \<and> a \<noteq> b \<longrightarrow> load h' a = load h a) \<and> load h' b = Some (mk out') \<and> length out' = length out \<and>
    (\<forall>j. j < i \<or> i + length xs \<le> j \<longrightarrow> out' ! j = out ! j) \<and>
    (\<forall>j<length xs. val h' (out' ! (i + j)) = Some (vs ! j) \<and> reach h' (out' ! (i + j)) \<subseteq> {length h..<length h'})"
  using assms
proof (induction xs arbitrary: vs i out h)
  case (Cons x xs)
  from Cons.prems(1) obtain v vs' where vs: "vs = v # vs'" "val h x = Some v" "b \<notin> reach h x"
    "list_all2 (\<lambda>x v. val h x = Some v \<and> b \<notin> reach h x) xs vs'" by (auto simp: list_all2_Cons1)
  from copied [OF vs(2)] obtain y h1 where c: "into x h = Some (y, h1)" "prefix h h1" "val h1 y = Some v"
    "reach h1 y \<subseteq> {length h..<length h1}" .
  let ?out = "out[i := y]" let ?h2 = "h1[b := mk ?out]"
  from Cons.prems(2) have b: "b < length h" by (auto dest: load_SomeD)
  from c(2) have len: "length h \<le> length h1" by (rule prefix_length_le)
  have frame: "load ?h2 a = load h a" if "a < length h" "a \<noteq> b" for a
    using load_prefix [OF c(2) that(1)] that(2) by (simp add: load_update)
  have "list_all2 (\<lambda>x v. val ?h2 x = Some v \<and> b \<notin> reach ?h2 x) xs vs'"
    using vs(4)
  proof (rule list_all2_mono)
    fix x' v' assume x': "val h x' = Some v' \<and> b \<notin> reach h x'"
    then have "load ?h2 a = load h a" if "a \<in> reach h x'" for a
      using frame allocated [of h x' v' a] that by auto
    with x' local [of h x' v' ?h2] show "val ?h2 x' = Some v' \<and> b \<notin> reach ?h2 x'" by auto
  qed
  moreover have "load ?h2 b = Some (mk ?out)" using b len by (simp add: load_update)
  moreover have "Suc i + length xs \<le> length ?out" using Cons.prems(3) by simp
  ultimately obtain out' h' where r: "copy_elements into mk b (Suc i) xs ?out ?h2 = Some (out', h')" "length ?h2 \<le> length h'"
    "\<forall>a. a < length ?h2 \<and> a \<noteq> b \<longrightarrow> load h' a = load ?h2 a" "load h' b = Some (mk out')" "length out' = length ?out"
    "\<forall>j. j < Suc i \<or> Suc i + length xs \<le> j \<longrightarrow> out' ! j = ?out ! j"
    "\<forall>j<length xs. val h' (out' ! (Suc i + j)) = Some (vs' ! j) \<and> reach h' (out' ! (Suc i + j)) \<subseteq> {length ?h2..<length h'}"
    using Cons.IH [of ?h2 vs' ?out "Suc i"] by blast
  have "load h' a = load h1 a" if "a \<in> reach h1 y" for a
    using r(3) c(4) b that by (auto simp: load_update)
  from local [OF c(3) this] have y: "val h' y = Some v" "reach h' y \<subseteq> {length h..<length h'}" using c(4) r(2) by auto
  have i: "out' ! i = y" using r(6) Cons.prems(3) by simp
  have "val h' (out' ! (i + j)) = Some (vs ! j) \<and> reach h' (out' ! (i + j)) \<subseteq> {length h..<length h'}" if "j < length (x # xs)" for j
  proof (cases j)
    case 0
    with y i vs(1) show ?thesis by simp
  next
    case (Suc k)
    with that r(7) have "val h' (out' ! (Suc i + k)) = Some (vs' ! k)" "reach h' (out' ! (Suc i + k)) \<subseteq> {length ?h2..<length h'}" by simp_all
    with Suc vs(1) len show ?thesis by auto
  qed
  moreover have "load h' a = load h a" if "a < length h" "a \<noteq> b" for a
    using r(3) frame [OF that] that len by simp
  moreover have "out' ! j = out ! j" if "j < i \<or> i + length (x # xs) \<le> j" for j
    using r(6) that by auto
  ultimately show ?case using c(1) r(1,2,4,5) len by (intro exI [of _ out'] exI [of _ h']) simp
qed simp

lemma copies_slice:
  assumes "\<And>xs. sel (mk xs) = Some xs" "slice_val sel val h p = Some vs"
  shows "\<exists>q h'. copy_slice into sel mk zero p h = Some (q, h') \<and> prefix h h' \<and> slice_val sel val h' q = Some vs \<and>
    slice_reach sel reach h' q \<subseteq> {length h..<length h'}"
proof (cases p)
  case None
  with assms(2) show ?thesis by (simp add: copy_slice_def slice_val_def slice_reach_def)
next
  case (Some q)
  obtain a off n where q: "q = (a, off, n)" by (cases q)
  from assms(2) obtain xs where x: "read sel h a = Some xs" "off + n \<le> length xs"
    "list_all2 (\<lambda>x v. val h x = Some v) (take n (drop off xs)) vs" unfolding Some q by (rule slice_val_Some)
  let ?es = "take n (drop off xs)" and ?zs = "replicate n zero" and ?b = "length h"
  let ?h0 = "h @ [mk ?zs]"
  have n: "length ?es = n" "length vs = n" using x(2) list_all2_lengthD [OF x(3)] by auto
  have "list_all2 (\<lambda>x v. val ?h0 x = Some v \<and> ?b \<notin> reach ?h0 x) ?es vs"
    using x(3)
  proof (rule list_all2_mono)
    fix y v assume y: "val h y = Some v"
    have "prefix h ?h0" by simp
    from grows [OF y this] allocated [OF y] show "val ?h0 y = Some v \<and> ?b \<notin> reach ?h0 y" by auto
  qed
  moreover have "load ?h0 ?b = Some (mk ?zs)" by simp
  moreover have "0 + length ?es \<le> length ?zs" using n by simp
  ultimately obtain out h' where r: "copy_elements into mk ?b 0 ?es ?zs ?h0 = Some (out, h')" "length ?h0 \<le> length h'"
    "\<forall>a. a < length ?h0 \<and> a \<noteq> ?b \<longrightarrow> load h' a = load ?h0 a" "load h' ?b = Some (mk out)" "length out = length ?zs"
    "\<forall>j<length ?es. val h' (out ! (0 + j)) = Some (vs ! j) \<and> reach h' (out ! (0 + j)) \<subseteq> {length ?h0..<length h'}"
    using copy_elements_ok by blast
  have "prefix h h'" using r(2,3) by (intro prefix_loadI) auto
  moreover have rd: "read sel h' ?b = Some out" using r(4) assms(1) by (simp add: read_def)
  moreover have "list_all2 (\<lambda>x v. val h' x = Some v) out vs"
    using r(5,6) n by (auto simp: list_all2_conv_all_nth)
  moreover have "reach h' y \<subseteq> {length h..<length h'}" if y: "y \<in> set out" for y
  proof -
    from y obtain j where j: "j < length out" "out ! j = y" by (meson in_set_conv_nth)
    with r(5) n(1) have "j < length ?es" by (simp only: length_replicate)
    with r(6) j(2) have "reach h' y \<subseteq> {length ?h0..<length h'}" by (metis add_0)
    then show ?thesis by auto
  qed
  ultimately show ?thesis
    using r(1,2,5) x(1,2) n unfolding Some q
    by (auto simp: copy_slice_def slice_val_def slice_reach_def those_map_iff not_less)
qed

lemma slice_copyable:
  assumes "\<And>xs. sel (mk xs) = Some xs"
  shows "copyable (copy_slice into sel mk zero) (slice_val sel val) (slice_reach sel reach)"
proof
  fix h p vs
  assume "slice_val sel val h p = Some vs"
  with copies_slice [OF assms] show "\<exists>y h'. copy_slice into sel mk zero p h = Some (y, h') \<and> prefix h h' \<and>
      slice_val sel val h' y = Some vs \<and> slice_reach sel reach h' y \<subseteq> {length h..<length h'}" by blast
next
  fix h p vs h'
  assume v: "slice_val sel val h p = Some vs" and e: "\<And>a. a \<in> slice_reach sel reach h p \<Longrightarrow> load h' a = load h a"
  show "slice_val sel val h' p = Some vs \<and> slice_reach sel reach h' p = slice_reach sel reach h p"
  proof (cases p)
    case (Some q)
    obtain a off n where q: "q = (a, off, n)" by (cases q)
    from v obtain xs where x: "read sel h a = Some xs" "off + n \<le> length xs"
      "list_all2 (\<lambda>x v. val h x = Some v) (take n (drop off xs)) vs" unfolding Some q by (rule slice_val_Some)
    have r: "read sel h' a = Some xs" using e [of a] x(1) Some q by (simp add: slice_reach_def read_def)
    have l: "val h' x = Some v \<and> reach h' x = reach h x" if "x \<in> set (take n (drop off xs))" "val h x = Some v" for x v
      using that e Some q x(1) by (intro local) (auto simp: slice_reach_def)
    have "\<exists>v. val h x = Some v" if "x \<in> set (take n (drop off xs))" for x
      using list_all2_member [OF x(3) that] .
    with l have "reach h' x = reach h x" if "x \<in> set (take n (drop off xs))" for x using that by blast
    moreover have "list_all2 (\<lambda>x v. val h' x = Some v) (take n (drop off xs)) vs"
      unfolding list_all2_conv_all_nth
    proof (intro conjI allI impI)
      show "length (take n (drop off xs)) = length vs" by (rule list_all2_lengthD [OF x(3)])
    next
      fix j assume j: "j < length (take n (drop off xs))"
      with l [OF nth_mem] list_all2_nthD [OF x(3)] show "val h' (take n (drop off xs) ! j) = Some (vs ! j)" by blast
    qed
    ultimately show ?thesis using x r Some q by (simp add: slice_val_def slice_reach_def those_map_iff not_less)
  qed (use v in \<open>simp add: slice_val_def slice_reach_def\<close>)
next
  fix h p vs a
  assume v: "slice_val sel val h p = Some vs" and a: "a \<in> slice_reach sel reach h p"
  then obtain b off n where p: "p = Some (b, off, n)" by (auto simp: slice_reach_def split: option.splits)
  from v obtain xs where x: "read sel h b = Some xs"
    "list_all2 (\<lambda>x v. val h x = Some v) (take n (drop off xs)) vs" unfolding p by (rule slice_val_Some)
  from a p x(1) consider "a = b" | y where "y \<in> set (take n (drop off xs))" "a \<in> reach h y" by (auto simp: slice_reach_def)
  then show "a < length h"
  proof cases
    case 1
    with x(1) show ?thesis by (auto simp: read_Some_iff dest: load_SomeD)
  next
    case 2
    with list_all2_member [OF x(2)] obtain v where "val h y = Some v" by blast
    with 2 allocated show ?thesis by blast
  qed
qed

text \<open>\<^verbatim>\<open>DeepCopy\<close> of a pointer.\<close>

lemma copies_new:
  assumes "\<And>x. sel (mk x) = Some x" "read sel h a = Some x" "val h x = Some v"
  shows "\<exists>b y h'. copy_new into sel mk zero (Some a) h = Some (Some b, h') \<and> prefix h h' \<and> read sel h' b = Some y \<and>
    val h' y = Some v \<and> insert b (reach h' y) \<subseteq> {length h..<length h'}"
proof -
  let ?h0 = "h @ [mk zero]"
  have "val ?h0 x = Some v" using grows [OF assms(3), of ?h0] by simp
  from copied [OF this] obtain y h1 where c: "into x ?h0 = Some (y, h1)" "prefix ?h0 h1" "val h1 y = Some v"
    "reach h1 y \<subseteq> {length ?h0..<length h1}" .
  let ?h = "h1[length h := mk y]"
  have len: "length h < length h1" using prefix_length_le [OF c(2)] by simp
  have "load ?h e = load h1 e" if "e \<in> reach h1 y" for e using that c(4) by (auto simp: load_update)
  from local [OF c(3) this] have y: "val ?h y = Some v" "reach ?h y \<subseteq> {length h..<length ?h}" using c(4) by auto
  have "prefix h ?h"
  proof (rule prefix_loadI)
    fix e assume e: "e < length h"
    with load_prefix [OF c(2), of e] show "load ?h e = load h e" by (simp add: load_update)
  qed (use len in simp)
  moreover have "read sel ?h (length h) = Some y" using assms(1) len by (simp add: read_def load_update)
  ultimately show ?thesis using assms(2) c(1) y len by (intro exI [of _ "length h"] exI [of _ y] exI [of _ ?h]) (simp add: copy_new_def)
qed

end

lemma pointer_copyable:
  assumes "\<And>x. sel (mk x) = Some x"
  shows "copyable (copy_pointer sel mk) (pointer_val sel) pointer_reach"
proof
  fix h p v
  assume "pointer_val sel h p = Some v"
  then show "\<exists>y h'. copy_pointer sel mk p h = Some (y, h') \<and> prefix h h' \<and> pointer_val sel h' y = Some v \<and>
      pointer_reach h' y \<subseteq> {length h..<length h'}"
    using assms by (auto simp: copy_pointer_def pointer_val_def pointer_reach_def read_def split: option.splits)
next
  fix h p v h'
  assume "pointer_val sel h p = Some v" "\<And>a. a \<in> pointer_reach h p \<Longrightarrow> load h' a = load h a"
  then show "pointer_val sel h' p = Some v \<and> pointer_reach h' p = pointer_reach h p"
    by (auto simp: pointer_val_def pointer_reach_def read_def split: option.splits)
next
  fix h p v a
  assume "pointer_val sel h p = Some v" "a \<in> pointer_reach h p"
  then show "a < length h"
    by (auto simp: pointer_val_def pointer_reach_def read_Some_iff split: option.splits dest: load_SomeD)
qed

text \<open>Two variables one after the other, and a struct around what is copied.\<close>

definition pair_into :: "('x, 'm) copier \<Rightarrow> ('y, 'm) copier \<Rightarrow> ('x \<times> 'y, 'm) copier" where
  "pair_into f g p h = (case f (fst p) h of
      None \<Rightarrow> None
    | Some (x, h1) \<Rightarrow> (case g (snd p) h1 of None \<Rightarrow> None | Some (y, h2) \<Rightarrow> Some ((x, y), h2)))"

definition pair_val :: "('m heap \<Rightarrow> 'x \<Rightarrow> 'u option) \<Rightarrow> ('m heap \<Rightarrow> 'y \<Rightarrow> 'v option) \<Rightarrow> 'm heap \<Rightarrow> 'x \<times> 'y \<Rightarrow> ('u \<times> 'v) option" where
  "pair_val val1 val2 h p = (case val1 h (fst p) of None \<Rightarrow> None | Some u \<Rightarrow> map_option (Pair u) (val2 h (snd p)))"

lemma pair_copyable:
  assumes f: "copyable f val1 reach1" and g: "copyable g val2 reach2"
  shows "copyable (pair_into f g) (pair_val val1 val2) (\<lambda>h p. reach1 h (fst p) \<union> reach2 h (snd p))"
proof
  fix h p w
  assume "pair_val val1 val2 h p = Some w"
  then obtain u v where v: "val1 h (fst p) = Some u" "val2 h (snd p) = Some v" "w = (u, v)"
    by (auto simp: pair_val_def split: option.splits)
  from copyable.copied [OF f v(1)] obtain x h1 where x: "f (fst p) h = Some (x, h1)" "prefix h h1" "val1 h1 x = Some u"
    "reach1 h1 x \<subseteq> {length h..<length h1}" .
  from copyable.grows [OF g v(2) x(2)] have "val2 h1 (snd p) = Some v" by blast
  from copyable.copied [OF g this] obtain y h2 where y: "g (snd p) h1 = Some (y, h2)" "prefix h1 h2" "val2 h2 y = Some v"
    "reach2 h2 y \<subseteq> {length h1..<length h2}" .
  from copyable.grows [OF f x(3) y(2)] have "val1 h2 x = Some u" "reach1 h2 x = reach1 h1 x" by blast+
  moreover have "length h \<le> length h1" "length h1 \<le> length h2" using x(2) y(2) by (auto dest: prefix_length_le)
  moreover have "prefix h h2" using x(2) y(2) by (rule prefix_order.trans)
  ultimately show "\<exists>y h'. pair_into f g p h = Some (y, h') \<and> prefix h h' \<and> pair_val val1 val2 h' y = Some w \<and>
      reach1 h' (fst y) \<union> reach2 h' (snd y) \<subseteq> {length h..<length h'}"
    using v(3) x y by (intro exI [of _ "(x, y)"] exI [of _ h2]) (auto simp: pair_into_def pair_val_def)
next
  fix h p w h'
  assume w: "pair_val val1 val2 h p = Some w" and e: "\<And>a. a \<in> reach1 h (fst p) \<union> reach2 h (snd p) \<Longrightarrow> load h' a = load h a"
  from w obtain u v where v: "val1 h (fst p) = Some u" "val2 h (snd p) = Some v" "w = (u, v)"
    by (auto simp: pair_val_def split: option.splits)
  from copyable.local [OF f v(1), of h'] copyable.local [OF g v(2), of h'] e v(3)
  show "pair_val val1 val2 h' p = Some w \<and> reach1 h' (fst p) \<union> reach2 h' (snd p) = reach1 h (fst p) \<union> reach2 h (snd p)"
    by (simp add: pair_val_def)
next
  fix h p w a
  assume w: "pair_val val1 val2 h p = Some w" and a: "a \<in> reach1 h (fst p) \<union> reach2 h (snd p)"
  from w obtain u v where "val1 h (fst p) = Some u" "val2 h (snd p) = Some v"
    by (auto simp: pair_val_def split: option.splits)
  with a copyable.allocated [OF f] copyable.allocated [OF g] show "a < length h" by blast
qed

lemma struct_copyable:
  assumes f: "copyable f val reach"
    and into: "\<And>z h. into' z h = (case f (get z) h of None \<Rightarrow> None | Some (x, h') \<Rightarrow> Some (put z x, h'))"
    and "\<And>z x. get (put z x) = x" "\<And>z x. build (put z x) = build z"
    and val': "\<And>h z. val' h z = map_option (build z) (val h (get z))" and reach': "\<And>h z. reach' h z = reach h (get z)"
  shows "copyable into' val' reach'"
proof
  fix h z w
  assume "val' h z = Some w"
  then obtain v where v: "val h (get z) = Some v" "w = build z v" by (auto simp: val')
  from copyable.copied [OF f v(1)] obtain y h' where "f (get z) h = Some (y, h')" "prefix h h'" "val h' y = Some v"
    "reach h' y \<subseteq> {length h..<length h'}" .
  with v(2) assms(3,4) show "\<exists>y h'. into' z h = Some (y, h') \<and> prefix h h' \<and> val' h' y = Some w \<and> reach' h' y \<subseteq> {length h..<length h'}"
    by (intro exI [of _ "put z y"] exI [of _ h']) (simp add: into val' reach')
next
  fix h z w h'
  assume "val' h z = Some w" "\<And>a. a \<in> reach' h z \<Longrightarrow> load h' a = load h a"
  with copyable.local [OF f, of h "get z" _ h'] show "val' h' z = Some w \<and> reach' h' z = reach' h z" by (auto simp: val' reach')
next
  fix h z w a
  assume "val' h z = Some w" "a \<in> reach' h z"
  with copyable.allocated [OF f] show "a < length h" by (auto simp: val' reach')
qed

subsection \<open>The values of the types, and their copies\<close>

definition flat_val :: "'m heap \<Rightarrow> 'x \<Rightarrow> 'x option" where "flat_val h x = Some x"
definition flat_reach :: "'m heap \<Rightarrow> 'x \<Rightarrow> addr set" where "flat_reach h x = {}"

definition auth_val :: "'m heap \<Rightarrow> gAuthSpec \<Rightarrow> AuthSpec option" where
  "auth_val h x = map_option (\<lambda>(e, j). \<lparr>Enabled = e, Issuer = gIssuer x, Audience = gAudience x, JWKCertSecretRef = j\<rparr>)
     (pair_val (pointer_val bool_in) (pointer_val secret_in) h (gEnabled x, gJWKCertSecretRef x))"

definition auth_reach :: "'m heap \<Rightarrow> gAuthSpec \<Rightarrow> addr set" where
  "auth_reach h x = set_option (gEnabled x) \<union> set_option (gJWKCertSecretRef x)"

definition api_val :: "'m heap \<Rightarrow> gAPISpec \<Rightarrow> APISpec option" where
  "api_val h x = map_option (\<lambda>(a, t). \<lparr>Database = gDatabase x, Auth = a, TLS = t, Profile = gProfile x\<rparr>)
     (pair_val auth_val (pointer_val tls_in) h (gAuth x, gTLS x))"

definition api_reach :: "'m heap \<Rightarrow> gAPISpec \<Rightarrow> addr set" where
  "api_reach h x = auth_reach h (gAuth x) \<union> set_option (gTLS x)"

definition spec_val :: "'m heap \<Rightarrow> gSpec \<Rightarrow> HyperFleetConfigSpec option" where
  "spec_val h x = map_option (\<lambda>a. \<lparr>Bundle = gBundle x, API = a\<rparr>) (api_val h (gAPI x))"

definition spec_reach :: "'m heap \<Rightarrow> gSpec \<Rightarrow> addr set" where
  "spec_reach h x = api_reach h (gAPI x)"

definition component_val :: "'m heap \<Rightarrow> gComponent \<Rightarrow> ComponentConditions option" where
  "component_val h x = map_option (\<lambda>cs. \<lparr>ccName = gcName x, ccConditions = cs\<rparr>) (slice_val conditions_in flat_val h (gcConditions x))"

definition component_reach :: "'m heap \<Rightarrow> gComponent \<Rightarrow> addr set" where
  "component_reach h x = slice_reach conditions_in flat_reach h (gcConditions x)"

definition status_val :: "'m heap \<Rightarrow> gStatus \<Rightarrow> HyperFleetConfigStatus option" where
  "status_val h x = map_option (\<lambda>(cs, es). \<lparr>ObservedGeneration = gObservedGeneration x, Conditions = cs, Components = es\<rparr>)
     (pair_val (slice_val conditions_in flat_val) (slice_val components_in component_val) h (gConditions x, gComponents x))"

definition status_reach :: "'m heap \<Rightarrow> gStatus \<Rightarrow> addr set" where
  "status_reach h x = slice_reach conditions_in flat_reach h (gConditions x) \<union> slice_reach components_in component_reach h (gComponents x)"

definition config_val :: "('m, 'v) apimachinery \<Rightarrow> 'm heap \<Rightarrow> 'm gConfig \<Rightarrow>
    ((string \<times> string) \<times> 'v \<times> HyperFleetConfigSpec \<times> HyperFleetConfigStatus) option" where
  "config_val lib h x = map_option (Pair (gTypeMeta x))
     (pair_val (opValue (libObjectMeta lib)) (pair_val spec_val status_val) h (gObjectMeta x, gSpec x, gStatus x))"

definition config_reach :: "('m, 'v) apimachinery \<Rightarrow> 'm heap \<Rightarrow> 'm gConfig \<Rightarrow> addr set" where
  "config_reach lib h x = opReach (libObjectMeta lib) h (gObjectMeta x) \<union> (spec_reach h (gSpec x) \<union> status_reach h (gStatus x))"

definition list_val :: "('m, 'v) apimachinery \<Rightarrow> 'm heap \<Rightarrow> 'm gConfigList \<Rightarrow>
    ((string \<times> string) \<times> 'v \<times> ((string \<times> string) \<times> 'v \<times> HyperFleetConfigSpec \<times> HyperFleetConfigStatus) list) option" where
  "list_val lib h x = map_option (Pair (gListTypeMeta x))
     (pair_val (opValue (libListMeta lib)) (slice_val configs_in (config_val lib)) h (gListMeta x, gItems x))"

definition list_reach :: "('m, 'v) apimachinery \<Rightarrow> 'm heap \<Rightarrow> 'm gConfigList \<Rightarrow> addr set" where
  "list_reach lib h x = opReach (libListMeta lib) h (gListMeta x) \<union> slice_reach configs_in (config_reach lib) h (gItems x)"

text \<open>The documented behaviour of the library's functions: they are deep copies.\<close>

definition library_documented :: "('m, 'v) apimachinery \<Rightarrow> bool" where
  "library_documented lib \<longleftrightarrow>
     copyable (opInto (libObjectMeta lib)) (opValue (libObjectMeta lib)) (opReach (libObjectMeta lib)) \<and>
     copyable (opInto (libListMeta lib)) (opValue (libListMeta lib)) (opReach (libListMeta lib)) \<and>
     copyable (libCondition lib) flat_val flat_reach"

lemma flat_copyable: "(\<And>x h. into x h = Some (x, h)) \<Longrightarrow> copyable into flat_val flat_reach"
  by unfold_locales (simp_all add: flat_val_def flat_reach_def)

interpretation secret_copy: copyable SecretReference_DeepCopyInto flat_val flat_reach
  by (rule flat_copyable) (simp add: SecretReference_DeepCopyInto_def)

interpretation database_copy: copyable DatabaseSpec_DeepCopyInto flat_val flat_reach
  by (rule flat_copyable) (simp add: DatabaseSpec_DeepCopyInto_def)

interpretation tls_copy: copyable TLSSpec_DeepCopyInto flat_val flat_reach
  by (rule flat_copyable) (simp add: TLSSpec_DeepCopyInto_def)

interpretation auth_copy: copyable AuthSpec_DeepCopyInto auth_val auth_reach
proof (rule struct_copyable [where get = "\<lambda>x. (gEnabled x, gJWKCertSecretRef x)" and put = "\<lambda>x (p, q). x\<lparr>gEnabled := p, gJWKCertSecretRef := q\<rparr>"])
  show "copyable (pair_into (copy_pointer bool_in BoolCell) (copy_pointer secret_in SecretCell))
      (pair_val (pointer_val bool_in) (pointer_val secret_in)) (\<lambda>h p. pointer_reach h (fst p) \<union> pointer_reach h (snd p))"
    by (intro pair_copyable pointer_copyable) (simp_all add: in_defs)
qed (auto simp: AuthSpec_DeepCopyInto_def pair_into_def auth_val_def auth_reach_def pointer_reach_def split: option.splits)

interpretation api_copy: copyable APISpec_DeepCopyInto api_val api_reach
proof (rule struct_copyable [where get = "\<lambda>x. (gAuth x, gTLS x)" and put = "\<lambda>x (a, p). x\<lparr>gDatabase := gDatabase x, gAuth := a, gTLS := p\<rparr>"])
  show "copyable (pair_into AuthSpec_DeepCopyInto (copy_pointer tls_in TLSCell))
      (pair_val auth_val (pointer_val tls_in)) (\<lambda>h p. auth_reach h (fst p) \<union> pointer_reach h (snd p))"
    by (intro pair_copyable pointer_copyable auth_copy.copyable_axioms) (simp_all add: in_defs)
qed (auto simp: APISpec_DeepCopyInto_def pair_into_def api_val_def api_reach_def pointer_reach_def split: option.splits)

interpretation spec_copy: copyable HyperFleetConfigSpec_DeepCopyInto spec_val spec_reach
  by (rule struct_copyable [OF api_copy.copyable_axioms, where get = gAPI and put = "\<lambda>x a. x\<lparr>gAPI := a\<rparr>"])
    (auto simp: HyperFleetConfigSpec_DeepCopyInto_def spec_val_def spec_reach_def split: option.splits)

lemma component_copyable:
  "copyable (libCondition lib) flat_val flat_reach \<Longrightarrow> copyable (ComponentConditions_DeepCopyInto lib) component_val component_reach"
  by (rule struct_copyable [OF copyable.slice_copyable [where sel = conditions_in and mk = ConditionArray and zero = zeroCondition],
        where get = gcConditions and put = "\<lambda>x p. x\<lparr>gcConditions := p\<rparr>"])
    (auto simp: ComponentConditions_DeepCopyInto_def component_val_def component_reach_def conditions_in_def split: option.splits)

lemma status_copyable:
  assumes "copyable (libCondition lib) flat_val flat_reach"
  shows "copyable (HyperFleetConfigStatus_DeepCopyInto lib) status_val status_reach"
proof (rule struct_copyable [where get = "\<lambda>x. (gConditions x, gComponents x)" and put = "\<lambda>x (p, q). x\<lparr>gConditions := p, gComponents := q\<rparr>"])
  show "copyable (pair_into (copy_slice (libCondition lib) conditions_in ConditionArray zeroCondition)
        (copy_slice (ComponentConditions_DeepCopyInto lib) components_in ComponentArray zeroComponent))
      (pair_val (slice_val conditions_in flat_val) (slice_val components_in component_val))
      (\<lambda>h p. slice_reach conditions_in flat_reach h (fst p) \<union> slice_reach components_in component_reach h (snd p))"
    by (intro pair_copyable copyable.slice_copyable component_copyable assms) (simp_all add: in_defs)
qed (auto simp: HyperFleetConfigStatus_DeepCopyInto_def pair_into_def status_val_def status_reach_def split: option.splits)

lemma config_copyable:
  assumes "library_documented lib"
  shows "copyable (HyperFleetConfig_DeepCopyInto lib) (config_val lib) (config_reach lib)"
proof (rule struct_copyable [where get = "\<lambda>x. (gObjectMeta x, gSpec x, gStatus x)" and
      put = "\<lambda>x (m, s, t). x\<lparr>gTypeMeta := gTypeMeta x, gObjectMeta := m, gSpec := s, gStatus := t\<rparr>"])
  show "copyable (pair_into (opInto (libObjectMeta lib)) (pair_into HyperFleetConfigSpec_DeepCopyInto (HyperFleetConfigStatus_DeepCopyInto lib)))
      (pair_val (opValue (libObjectMeta lib)) (pair_val spec_val status_val))
      (\<lambda>h p. opReach (libObjectMeta lib) h (fst p) \<union> (spec_reach h (fst (snd p)) \<union> status_reach h (snd (snd p))))"
    using assms by (intro pair_copyable status_copyable spec_copy.copyable_axioms) (simp_all add: library_documented_def)
qed (auto simp: HyperFleetConfig_DeepCopyInto_def pair_into_def config_val_def config_reach_def split: option.splits)

lemma list_copyable:
  assumes "library_documented lib"
  shows "copyable (HyperFleetConfigList_DeepCopyInto lib) (list_val lib) (list_reach lib)"
proof (rule struct_copyable [where get = "\<lambda>x. (gListMeta x, gItems x)" and
      put = "\<lambda>x (m, p). x\<lparr>gListTypeMeta := gListTypeMeta x, gListMeta := m, gItems := p\<rparr>"])
  show "copyable (pair_into (opInto (libListMeta lib)) (copy_slice (HyperFleetConfig_DeepCopyInto lib) configs_in ConfigArray (zeroConfig lib)))
      (pair_val (opValue (libListMeta lib)) (slice_val configs_in (config_val lib)))
      (\<lambda>h p. opReach (libListMeta lib) h (fst p) \<union> slice_reach configs_in (config_reach lib) h (snd p))"
    using assms by (intro pair_copyable copyable.slice_copyable config_copyable) (simp_all add: library_documented_def configs_in_def)
qed (auto simp: HyperFleetConfigList_DeepCopyInto_def pair_into_def list_val_def list_reach_def split: option.splits)

subsection \<open>Copies are equal and apart\<close>

text \<open>Outside the given addresses the two heaps agree: only the variables at those addresses were written.\<close>

definition written_only :: "addr set \<Rightarrow> 'm heap \<Rightarrow> 'm heap \<Rightarrow> bool" where
  "written_only A h h' \<longleftrightarrow> (\<forall>c. c \<notin> A \<longrightarrow> load h' c = load h c)"

text \<open>A nil pointer is copied to nil.  Copying any other succeeds; the copy has the value of the original; and
  whatever is later written through one of the two, the other keeps its value.\<close>

definition copies_apart :: "(addr option, 'm) copier \<Rightarrow> ('m cell \<Rightarrow> 'x option) \<Rightarrow> ('m heap \<Rightarrow> 'x \<Rightarrow> 'v option) \<Rightarrow>
    ('m heap \<Rightarrow> 'x \<Rightarrow> addr set) \<Rightarrow> bool" where
  "copies_apart copy sel val reach \<longleftrightarrow> (\<forall>h. copy None h = Some (None, h)) \<and>
     (\<forall>h a x v. read sel h a = Some x \<and> val h x = Some v \<longrightarrow>
       (\<exists>b y h'. copy (Some a) h = Some (Some b, h') \<and> read sel h' b = Some y \<and> val h' y = Some v \<and>
          (\<forall>h''. written_only (insert b (reach h' y)) h' h'' \<longrightarrow> read sel h'' a = Some x \<and> val h'' x = Some v) \<and>
          (\<forall>h''. written_only (insert a (reach h x)) h' h'' \<longrightarrow> read sel h'' b = Some y \<and> val h'' y = Some v)))"

context copyable
begin

lemma kept:
  assumes "read sel h a = Some x" "val h x = Some v" "written_only A h h'" "A \<inter> insert a (reach h x) = {}"
  shows "read sel h' a = Some x \<and> val h' x = Some v"
proof -
  have "load h' c = load h c" if "c \<in> insert a (reach h x)" for c
    using assms(3,4) that unfolding written_only_def by blast
  with assms(1) local [OF assms(2), of h'] show ?thesis by (simp add: read_def)
qed

lemma new_apart:
  assumes "\<And>x. sel (mk x) = Some x"
  shows "copies_apart (copy_new into sel mk zero) sel val reach"
  unfolding copies_apart_def
proof (intro conjI allI impI)
  fix h a x v
  assume "read sel h a = Some x \<and> val h x = Some v"
  then have r: "read sel h a = Some x" and v: "val h x = Some v" by auto
  from copies_new [where sel = sel and mk = mk, OF assms r v] obtain b y h' where
    c: "copy_new into sel mk zero (Some a) h = Some (Some b, h')" "prefix h h'" "read sel h' b = Some y"
      "val h' y = Some v" "insert b (reach h' y) \<subseteq> {length h..<length h'}" by blast
  have a: "a < length h" using r by (auto simp: read_Some_iff dest: load_SomeD)
  have x: "read sel h' a = Some x" "val h' x = Some v" "reach h' x = reach h x"
    using grows [OF v c(2)] r load_prefix [OF c(2) a] by (auto simp: read_def)
  with a c(5) allocated [OF v] have d: "insert b (reach h' y) \<inter> insert a (reach h x) = {}" by fastforce
  show "\<exists>b y h'. copy_new into sel mk zero (Some a) h = Some (Some b, h') \<and> read sel h' b = Some y \<and> val h' y = Some v \<and>
      (\<forall>h''. written_only (insert b (reach h' y)) h' h'' \<longrightarrow> read sel h'' a = Some x \<and> val h'' x = Some v) \<and>
      (\<forall>h''. written_only (insert a (reach h x)) h' h'' \<longrightarrow> read sel h'' b = Some y \<and> val h'' y = Some v)"
  proof (intro exI conjI allI impI)
    fix h'' assume w: "written_only (insert b (reach h' y)) h' h''"
    from kept [OF x(1,2) w] d x(3) show "read sel h'' a = Some x" "val h'' x = Some v" by (simp_all add: Int_commute)
  next
    fix h'' assume w: "written_only (insert a (reach h x)) h' h''"
    from kept [OF c(3,4) w] d show "read sel h'' b = Some y" "val h'' y = Some v" by (simp_all add: Int_commute)
  qed (use c in auto)
qed (simp add: copy_new_def)

end

lemma DeepCopyObject_eq [simp]:
  "HyperFleetConfig_DeepCopyObject lib = HyperFleetConfig_DeepCopy lib"
  "HyperFleetConfigList_DeepCopyObject lib = HyperFleetConfigList_DeepCopy lib"
  by (auto simp: fun_eq_iff HyperFleetConfig_DeepCopyObject_def HyperFleetConfigList_DeepCopyObject_def split: option.splits)

text \<open>
  C20: The generated deep copies are what the client's cache relies on, and what lets the rest of this library
  treat the resource as a value: for every type of the API, copying succeeds whenever the original is
  well-formed in memory, the copy has the same value, and whatever is later written through the copy, as a
  reconcile does when it aggregates the status in place, leaves the original unchanged, and conversely.
\<close>

theorem deep_copies_apart:
  fixes lib :: "('m, 'v) apimachinery"
  assumes "library_documented lib"
  shows "copies_apart (HyperFleetConfig_DeepCopyObject lib) config_in (config_val lib) (config_reach lib) \<and>
    copies_apart (HyperFleetConfigList_DeepCopyObject lib) list_in (list_val lib) (list_reach lib) \<and>
    copies_apart (HyperFleetConfigSpec_DeepCopy :: (addr option, 'm) copier) spec_in spec_val spec_reach \<and>
    copies_apart (HyperFleetConfigStatus_DeepCopy lib) status_in status_val status_reach \<and>
    copies_apart (ComponentConditions_DeepCopy lib) component_in component_val component_reach \<and>
    copies_apart (APISpec_DeepCopy :: (addr option, 'm) copier) api_in api_val api_reach \<and>
    copies_apart (AuthSpec_DeepCopy :: (addr option, 'm) copier) auth_in auth_val auth_reach \<and>
    copies_apart (DatabaseSpec_DeepCopy :: (addr option, 'm) copier) database_in flat_val flat_reach \<and>
    copies_apart (TLSSpec_DeepCopy :: (addr option, 'm) copier) tls_in flat_val flat_reach \<and>
    copies_apart (SecretReference_DeepCopy :: (addr option, 'm) copier) secret_in flat_val flat_reach"
proof -
  from assms have c: "copyable (libCondition lib) flat_val flat_reach" by (simp add: library_documented_def)
  show ?thesis
    unfolding DeepCopyObject_eq HyperFleetConfig_DeepCopy_def HyperFleetConfigList_DeepCopy_def HyperFleetConfigSpec_DeepCopy_def
      HyperFleetConfigStatus_DeepCopy_def ComponentConditions_DeepCopy_def APISpec_DeepCopy_def AuthSpec_DeepCopy_def
      DatabaseSpec_DeepCopy_def TLSSpec_DeepCopy_def SecretReference_DeepCopy_def
    by (intro conjI copyable.new_apart [OF config_copyable [OF assms]] copyable.new_apart [OF list_copyable [OF assms]]
        copyable.new_apart [OF status_copyable [OF c]] copyable.new_apart [OF component_copyable [OF c]]
        spec_copy.new_apart api_copy.new_apart auth_copy.new_apart database_copy.new_apart tls_copy.new_apart secret_copy.new_apart)
      (simp_all add: in_defs)
qed

subsection \<open>A library and a heap\<close>

text \<open>Metadata with a name and a pointer to labels.\<close>

definition library_in :: "'m cell \<Rightarrow> string option" where
  "library_in c = (case c of LibraryCell x \<Rightarrow> Some x | _ \<Rightarrow> None)"

definition example_ops :: "(string \<times> addr option, string \<times> string option) struct_ops" where
  "example_ops = \<lparr>opZero = ([], None), opInto = pair_into (\<lambda>x h. Some (x, h)) (copy_pointer library_in LibraryCell),
     opValue = pair_val flat_val (pointer_val library_in), opReach = (\<lambda>h p. flat_reach h (fst p) \<union> pointer_reach h (snd p))\<rparr>"

definition example_library :: "(string \<times> addr option, string \<times> string option) apimachinery" where
  "example_library = \<lparr>libObjectMeta = example_ops, libListMeta = example_ops, libCondition = (\<lambda>c h. Some (c, h))\<rparr>"

lemma example_library_documented: "library_documented example_library"
proof -
  have "copyable (pair_into (\<lambda>x h. Some (x, h)) (copy_pointer library_in LibraryCell)) (pair_val flat_val (pointer_val library_in))
      (\<lambda>h p. flat_reach h (fst p) \<union> pointer_reach h (snd p))"
    by (intro pair_copyable pointer_copyable flat_copyable) (simp_all add: library_in_def)
  moreover have "copyable (\<lambda>c h. Some (c, h)) flat_val flat_reach" by (rule flat_copyable) simp
  ultimately show ?thesis by (simp add: library_documented_def example_library_def example_ops_def)
qed

definition example_g :: "(string \<times> addr option) gConfig" where
  "example_g = \<lparr>gTypeMeta = (''HyperFleetConfig'', ''v1alpha1''), gObjectMeta = (''cluster'', Some 1),
     gSpec = \<lparr>gBundle = ''cloud-capi'', gAPI = \<lparr>gDatabase = \<lparr>dbSecretRef = \<lparr>srName = ''pg''\<rparr>\<rparr>,
       gAuth = \<lparr>gEnabled = Some 2, gIssuer = ''https://idp'', gAudience = ''hf'', gJWKCertSecretRef = None\<rparr>, gTLS = None, gProfile = ''small''\<rparr>\<rparr>,
     gStatus = \<lparr>gObservedGeneration = 1, gConditions = Some (3, 1, 1), gComponents = Some (4, 0, 1)\<rparr>\<rparr>"

definition example_heap :: "(string \<times> addr option) heap" where
  "example_heap = [ConfigCell example_g, LibraryCell ''labels'', BoolCell True, ConditionArray [zeroCondition, zeroCondition],
     ComponentArray [\<lparr>gcName = ''api'', gcConditions = Some (3, 0, 2)\<rparr>]]"

theorem deep_copies_apart_witness:
  "\<exists>b y h' v. HyperFleetConfig_DeepCopyObject example_library (Some 0) example_heap = Some (Some b, h') \<and>
     read config_in h' b = Some y \<and> config_val example_library h' y = Some v \<and> config_val example_library example_heap example_g = Some v"
proof -
  have r: "read config_in example_heap 0 = Some example_g" by (simp add: read_def load_def example_heap_def config_in_def)
  have v: "\<exists>v. config_val example_library example_heap example_g = Some v"
    by (simp add: config_val_def pair_val_def example_library_def example_ops_def example_g_def example_heap_def flat_val_def
        pointer_val_def read_def load_def library_in_def in_defs spec_val_def api_val_def auth_val_def status_val_def slice_val_def component_val_def)
  from deep_copies_apart [OF example_library_documented, THEN conjunct1] r v show ?thesis unfolding copies_apart_def by blast
qed

end
