(* ===== verification/Test_Utils.thy ===== *)
theory Test_Utils
  imports Startup Go_URL
begin

section \<open>Helpers of the end-to-end tests\<close>

text \<open>
  \<^verbatim>\<open>test/utils/utils.go\<close>: running commands in the project directory, installing and detecting what the
  tests need in a cluster, loading an image into it, and editing a source file.  The operating system
  is a parameter: an operation on it is a function of the state \<open>'w\<close> of the host, about which nothing is
  known, and the calls made are kept as a trace, as are the lines written to the test log.
\<close>

subsection \<open>The host\<close>

record 'w os =
  osGetwd :: "'w \<Rightarrow> (string \<times> error option) \<times> 'w"
  osChdir :: "string \<Rightarrow> 'w \<Rightarrow> error option \<times> 'w"
  osExec :: "string list \<Rightarrow> string \<Rightarrow> 'w \<Rightarrow> (string \<times> error option) \<times> 'w"
  osReadFile :: "string \<Rightarrow> 'w \<Rightarrow> string result \<times> 'w"
  osWriteFile :: "string \<Rightarrow> string \<Rightarrow> 'w \<Rightarrow> error option \<times> 'w"
  osMkdirTemp :: "string \<Rightarrow> 'w \<Rightarrow> string result \<times> 'w"
  osRemoveAll :: "string \<Rightarrow> 'w \<Rightarrow> error option \<times> 'w"
  osLookupEnv :: "string \<Rightarrow> string option"

text \<open>A command runs with its arguments in a directory; its environment is that of the process with
  \<^verbatim>\<open>GO111MODULE=on\<close>.\<close>

datatype os_call =
    Getwd
  | Chdir string
  | Exec "string list" string
  | ReadFile string
  | WriteFile string string
  | MkdirTemp string
  | RemoveAll string

record 'w host =
  hostWorld :: 'w
  hostCalls :: "os_call list"
  hostLog :: "error list"

definition os_do :: "os_call \<Rightarrow> ('w \<Rightarrow> 'a \<times> 'w) \<Rightarrow> 'w host \<Rightarrow> 'a \<times> 'w host" where
  "os_do c f h = (case f (hostWorld h) of (a, w) \<Rightarrow> (a, h\<lparr>hostWorld := w, hostCalls := hostCalls h @ [c]\<rparr>))"

definition log_line :: "error \<Rightarrow> 'w host \<Rightarrow> 'w host" where
  "log_line l h = h\<lparr>hostLog := hostLog h @ [l]\<rparr>"

definition warnError :: "error \<Rightarrow> 'w host \<Rightarrow> 'w host" where
  "warnError e h = log_line (Wrapf ''warning: %v'' [] e) h"

subsection \<open>Running a command\<close>

text \<open>\<^verbatim>\<open>strings.ReplaceAll\<close> by the empty text: the occurrences are removed from left to right.\<close>

function remove_all :: "string \<Rightarrow> string \<Rightarrow> string" where
  "remove_all old s = (case s of
       [] \<Rightarrow> []
     | c # cs \<Rightarrow> if old \<noteq> [] \<and> prefix old s then remove_all old (drop (length old) s) else c # remove_all old cs)"
  by pat_completeness auto
termination
  by (relation "measure (length \<circ> snd)") auto

declare remove_all.simps [simp del]

definition GetProjectDir :: "'w os \<Rightarrow> 'w host \<Rightarrow> (string \<times> error option) \<times> 'w host" where
  "GetProjectDir os h = (case os_do Getwd (osGetwd os) h of
       ((wd, Some e), h) \<Rightarrow> ((wd, Some (Wrapf ''failed to get current working directory: %w'' [] e)), h)
     | ((wd, None), h) \<Rightarrow> ((remove_all ''/test/e2e'' wd, None), h))"

definition Run :: "'w os \<Rightarrow> string list \<Rightarrow> 'w host \<Rightarrow> (string \<times> error option) \<times> 'w host" where
  "Run os args h =
     (case GetProjectDir os h of ((dir, _), h) \<Rightarrow>
        (case os_do (Chdir dir) (osChdir os dir) h of (ce, h) \<Rightarrow>
           let h = (case ce of Some e \<Rightarrow> log_line (Wrapf ''chdir dir: %q'' [] e) h | None \<Rightarrow> h);
               command = strings_Join args '' '';
               h = log_line (Errorf ''running: %q'' [command]) h
           in (case os_do (Exec args dir) (osExec os args dir) h of
                 ((output, Some e), h) \<Rightarrow> ((output, Some (Wrapf ''%q failed with error %q: %w'' [command, output] e)), h)
               | ((output, None), h) \<Rightarrow> ((output, None), h))))"

text \<open>A command whose failure is only logged.\<close>

definition run_or_warn :: "'w os \<Rightarrow> string list \<Rightarrow> 'w host \<Rightarrow> 'w host" where
  "run_or_warn os args h = (case Run os args h of
       ((_, Some e), h) \<Rightarrow> warnError e h
     | ((_, None), h) \<Rightarrow> h)"

subsection \<open>Installing and detecting\<close>

definition prometheusOperatorVersion :: string where "prometheusOperatorVersion = ''v0.77.1''"
definition certmanagerVersion :: string where "certmanagerVersion = ''v1.16.3''"

definition prometheus_url :: string where
  "prometheus_url = ''https://github.com/prometheus-operator/prometheus-operator/releases/download/'' @
     prometheusOperatorVersion @ ''/bundle.yaml''"

definition certmanager_url :: string where
  "certmanager_url = ''https://github.com/cert-manager/cert-manager/releases/download/'' @
     certmanagerVersion @ ''/cert-manager.yaml''"

definition InstallPrometheusOperator :: "'w os \<Rightarrow> 'w host \<Rightarrow> error option \<times> 'w host" where
  "InstallPrometheusOperator os h =
     (case Run os [''kubectl'', ''create'', ''-f'', prometheus_url] h of ((_, err), h) \<Rightarrow> (err, h))"

definition UninstallPrometheusOperator :: "'w os \<Rightarrow> 'w host \<Rightarrow> 'w host" where
  "UninstallPrometheusOperator os h = run_or_warn os [''kubectl'', ''delete'', ''-f'', prometheus_url] h"

definition UninstallCertManager :: "'w os \<Rightarrow> 'w host \<Rightarrow> 'w host" where
  "UninstallCertManager os h = run_or_warn os [''kubectl'', ''delete'', ''-f'', certmanager_url] h"

definition InstallCertManager :: "'w os \<Rightarrow> 'w host \<Rightarrow> error option \<times> 'w host" where
  "InstallCertManager os h =
     (case Run os [''kubectl'', ''apply'', ''-f'', certmanager_url] h of
        ((_, Some e), h) \<Rightarrow> (Some e, h)
      | ((_, None), h) \<Rightarrow>
          (case Run os [''kubectl'', ''wait'', ''deployment.apps/cert-manager-webhook'', ''--for'', ''condition=Available'',
              ''--namespace'', ''cert-manager'', ''--timeout'', ''5m''] h of ((_, err), h) \<Rightarrow> (err, h)))"

definition GetNonEmptyLines :: "string \<Rightarrow> string list" where
  "GetNonEmptyLines output = filter (\<lambda>element. element \<noteq> []) (split_byte (CHR 0x0A) output [])"

text \<open>The two nested loops over names and lines.\<close>

definition any_line_contains :: "string list \<Rightarrow> string \<Rightarrow> bool" where
  "any_line_contains crds output = list_ex (\<lambda>crd. list_ex (\<lambda>line. Contains line crd) (GetNonEmptyLines output)) crds"

definition prometheusCRDs :: "string list" where
  "prometheusCRDs = [''prometheuses.monitoring.coreos.com'', ''prometheusrules.monitoring.coreos.com'',
     ''prometheusagents.monitoring.coreos.com'']"

definition certManagerCRDs :: "string list" where
  "certManagerCRDs = [''certificates.cert-manager.io'', ''issuers.cert-manager.io'', ''clusterissuers.cert-manager.io'',
     ''certificaterequests.cert-manager.io'', ''orders.acme.cert-manager.io'', ''challenges.acme.cert-manager.io'']"

definition IsPrometheusCRDsInstalled :: "'w os \<Rightarrow> 'w host \<Rightarrow> bool \<times> 'w host" where
  "IsPrometheusCRDsInstalled os h =
     (case Run os [''kubectl'', ''get'', ''crds'', ''-o'', ''custom-columns=NAME:.metadata.name''] h of
        ((_, Some _), h) \<Rightarrow> (False, h)
      | ((output, None), h) \<Rightarrow> (any_line_contains prometheusCRDs output, h))"

definition IsCertManagerCRDsInstalled :: "'w os \<Rightarrow> 'w host \<Rightarrow> bool \<times> 'w host" where
  "IsCertManagerCRDsInstalled os h =
     (case Run os [''kubectl'', ''get'', ''crds''] h of
        ((_, Some _), h) \<Rightarrow> (False, h)
      | ((output, None), h) \<Rightarrow> (any_line_contains certManagerCRDs output, h))"

subsection \<open>Loading an image\<close>

text \<open>What is done with the archive directory, which is removed afterwards on every path.\<close>

definition load_archive :: "'w os \<Rightarrow> string \<Rightarrow> string \<Rightarrow> string \<Rightarrow> 'w host \<Rightarrow> error option \<times> 'w host" where
  "load_archive os name cluster archiveDir h =
     (let archivePath = filepath_Join [archiveDir, ''operator.tar''] in
      case Run os [''podman'', ''save'', ''--format'', ''docker-archive'', ''-o'', archivePath, name] h of
        ((_, Some e), h) \<Rightarrow> (Some (Wrapf ''save Podman image %q: %w'' [name] e), h)
      | ((_, None), h) \<Rightarrow>
          (case Run os [''kind'', ''load'', ''image-archive'', archivePath, ''--name'', cluster] h of
             ((_, Some e), h) \<Rightarrow> (Some (Wrapf ''load Podman image archive into Kind: %w'' [] e), h)
           | ((_, None), h) \<Rightarrow> (None, h)))"

definition LoadImageToKindClusterWithName :: "'w os \<Rightarrow> string \<Rightarrow> 'w host \<Rightarrow> error option \<times> 'w host" where
  "LoadImageToKindClusterWithName os name h =
     (let cluster = (case osLookupEnv os ''KIND_CLUSTER'' of Some v \<Rightarrow> v | None \<Rightarrow> ''kind'') in
      if osLookupEnv os ''KIND_EXPERIMENTAL_PROVIDER'' = Some ''podman'' then
        (case os_do (MkdirTemp ''hyperfleet-kind-image-*'') (osMkdirTemp os ''hyperfleet-kind-image-*'') h of
           (Inl e, h) \<Rightarrow> (Some (Wrapf ''create temporary image archive directory: %w'' [] e), h)
         | (Inr archiveDir, h) \<Rightarrow>
             (case load_archive os name cluster archiveDir h of (err, h) \<Rightarrow>
                (case os_do (RemoveAll archiveDir) (osRemoveAll os archiveDir) h of
                   (Some e, h) \<Rightarrow> (err, warnError (Wrapf ''remove temporary image archive directory: %w'' [] e) h)
                 | (None, h) \<Rightarrow> (err, h))))
      else (case Run os [''kind'', ''load'', ''docker-image'', name, ''--name'', cluster] h of ((_, err), h) \<Rightarrow> (err, h)))"

subsection \<open>Uncommenting code\<close>

definition TrimPrefix :: "string \<Rightarrow> string \<Rightarrow> string" where
  "TrimPrefix s p = (if prefix p s then drop (length p) s else s)"

text \<open>
  The lines that a \<^verbatim>\<open>bufio.Scanner\<close> finds in a text: the text after the last newline is a line if it is not
  empty, a carriage return at the end of a line is dropped, and a line that does not fit into the
  64 KiB of the buffer, with its newline, ends the scan.
\<close>

definition maxLine :: nat where "maxLine = 65535"

definition raw_lines :: "string \<Rightarrow> string list" where
  "raw_lines s = (let ls = split_byte (CHR 0x0A) s [] in if last ls = [] then butlast ls else ls)"

definition scan_lines :: "string \<Rightarrow> string list" where
  "scan_lines s = map (\<lambda>l. TrimSuffix l [CHR 0x0D]) (takeWhile (\<lambda>l. length l \<le> maxLine) (raw_lines s))"

definition UncommentCode :: "'w os \<Rightarrow> string \<Rightarrow> string \<Rightarrow> string \<Rightarrow> 'w host \<Rightarrow> error option \<times> 'w host" where
  "UncommentCode os filename target pre h =
     (case os_do (ReadFile filename) (osReadFile os filename) h of
        (Inl e, h) \<Rightarrow> (Some (Wrapf ''failed to read file %q: %w'' [filename] e), h)
      | (Inr content, h) \<Rightarrow>
          (case strings_Index content target of
             None \<Rightarrow> (Some (Errorf ''unable to find the code %q to be uncomment'' [target]), h)
           | Some idx \<Rightarrow>
               if scan_lines target = [] then (None, h)
               else let out = take idx content @
                        strings_Join (map (\<lambda>l. TrimPrefix l pre) (scan_lines target)) [CHR 0x0A] @
                        drop (idx + length target) content
                    in (case os_do (WriteFile filename out) (osWriteFile os filename out) h of
                          (Some e, h) \<Rightarrow> (Some (Wrapf ''failed to write file %q: %w'' [filename] e), h)
                        | (None, h) \<Rightarrow> (None, h))))"

subsection \<open>Detection looks for the names in the whole output\<close>

lemma sublist_split_byte:
  "sublist sub (acc @ s) \<Longrightarrow> sep \<notin> set sub \<Longrightarrow> sub \<noteq> [] \<Longrightarrow> \<exists>l \<in> set (split_byte sep s acc). sublist sub l"
proof (induction sep s acc rule: split_byte.induct)
  case (2 sep c cs acc)
  show ?case
  proof (cases "c = sep")
    case True
    from 2(3) have "sublist sub acc \<or> sublist sub (c # cs) \<or> (\<exists>u v. sub = u @ v \<and> suffix u acc \<and> prefix v (c # cs))"
      by (simp add: sublist_append)
    then show ?thesis
    proof (elim disjE exE conjE)
      assume "sublist sub (c # cs)"
      with 2(4,5) True have "sublist sub cs" by (auto simp: sublist_Cons_right prefix_Cons)
      with 2(1) [OF True] 2(4,5) True show ?thesis by auto
    next
      fix u v
      assume uv: "sub = u @ v" "suffix u acc" "prefix v (c # cs)"
      with 2(4) True have "v = []" by (auto simp: prefix_Cons)
      with uv have "sublist sub acc" by (simp add: suffix_imp_sublist)
      with True show ?thesis by simp
    qed (use True in simp)
  next
    case False
    with 2 show ?thesis by simp
  qed
qed simp

lemma split_byte_sublist: "l \<in> set (split_byte sep s acc) \<Longrightarrow> sublist l (acc @ s)"
proof (induction sep s acc rule: split_byte.induct)
  case (2 sep c cs acc)
  show ?case
  proof (cases "c = sep")
    case True
    with 2 have "l = acc \<or> sublist l cs" by auto
    then show ?thesis by (auto simp: sublist_append sublist_Cons_right)
  qed (use 2 in simp)
qed simp

lemma any_line_contains_iff:
  assumes "list_all (\<lambda>crd. crd \<noteq> [] \<and> CHR 0x0A \<notin> set crd) crds"
  shows "any_line_contains crds output \<longleftrightarrow> list_ex (\<lambda>crd. Contains output crd) crds"
proof -
  have "list_ex (\<lambda>line. Contains line crd) (GetNonEmptyLines output) \<longleftrightarrow> Contains output crd" if "crd \<in> set crds" for crd
  proof -
    from assms that have c: "crd \<noteq> []" "CHR 0x0A \<notin> set crd" by (auto simp: list_all_iff)
    show ?thesis
    proof
      assume "list_ex (\<lambda>line. Contains line crd) (GetNonEmptyLines output)"
      then obtain l where "l \<in> set (split_byte (CHR 0x0A) output [])" "sublist crd l"
        by (auto simp: list_ex_iff GetNonEmptyLines_def Contains_def)
      with split_byte_sublist show "Contains output crd" unfolding Contains_def by (metis append_Nil sublist_order.order_trans)
    next
      assume "Contains output crd"
      then obtain l where "l \<in> set (split_byte (CHR 0x0A) output [])" "sublist crd l"
        using sublist_split_byte [of crd "[]" "output" "CHR 0x0A"] c by (auto simp: Contains_def)
      with c(1) show "list_ex (\<lambda>line. Contains line crd) (GetNonEmptyLines output)"
        by (auto simp: list_ex_iff GetNonEmptyLines_def Contains_def)
    qed
  qed
  then show ?thesis by (auto simp: any_line_contains_def list_ex_iff)
qed

subsection \<open>The archive directory is removed on every path\<close>

lemma Run_calls: "Run os args h = (x, h') \<Longrightarrow> \<exists>cs. hostCalls h' = hostCalls h @ cs"
  by (auto simp: Run_def GetProjectDir_def os_do_def log_line_def Let_def split: prod.splits option.splits)

lemma load_archive_calls: "load_archive os name cluster d h = (err, h') \<Longrightarrow> \<exists>cs. hostCalls h' = hostCalls h @ cs"
  unfolding load_archive_def Let_def
  by (auto split: prod.splits option.splits dest!: Run_calls)

lemma archive_removed:
  assumes "osLookupEnv os ''KIND_EXPERIMENTAL_PROVIDER'' = Some ''podman''"
    and "fst (osMkdirTemp os ''hyperfleet-kind-image-*'' (hostWorld h)) = Inr d"
    and "LoadImageToKindClusterWithName os name h = (err, h')"
  shows "\<exists>cs. hostCalls h' = hostCalls h @ MkdirTemp ''hyperfleet-kind-image-*'' # cs @ [RemoveAll d]"
proof -
  obtain w where w: "osMkdirTemp os ''hyperfleet-kind-image-*'' (hostWorld h) = (Inr d, w)"
    using assms(2) by (cases "osMkdirTemp os ''hyperfleet-kind-image-*'' (hostWorld h)") simp
  let ?h1 = "h\<lparr>hostWorld := w, hostCalls := hostCalls h @ [MkdirTemp ''hyperfleet-kind-image-*'']\<rparr>"
  let ?cluster = "case osLookupEnv os ''KIND_CLUSTER'' of Some v \<Rightarrow> v | None \<Rightarrow> ''kind''"
  obtain e1 h2 where l: "load_archive os name ?cluster d ?h1 = (e1, h2)" by fastforce
  obtain x w2 where r: "osRemoveAll os d (hostWorld h2) = (x, w2)" by fastforce
  from load_archive_calls [OF l] obtain cs where cs: "hostCalls h2 = hostCalls ?h1 @ cs" by blast
  from assms(1,3) w l r have "hostCalls h' = hostCalls h2 @ [RemoveAll d]"
    by (auto simp: LoadImageToKindClusterWithName_def os_do_def warnError_def log_line_def split: option.splits)
  with cs show ?thesis by simp
qed

subsection \<open>Uncommenting undoes commenting\<close>

text \<open>A block of lines, commented line by line.\<close>

definition commented :: "string \<Rightarrow> string list \<Rightarrow> string" where
  "commented pre ls = strings_Join (map (\<lambda>l. pre @ l) ls) [CHR 0x0A]"

definition plain_line :: "string \<Rightarrow> bool" where
  "plain_line l \<longleftrightarrow> CHR 0x0A \<notin> set l \<and> (l = [] \<or> last l \<noteq> CHR 0x0D) \<and> length l \<le> maxLine"

lemma scan_commented:
  assumes "ls \<noteq> []" "pre \<noteq> []" "list_all (\<lambda>l. plain_line (pre @ l)) ls"
  shows "scan_lines (commented pre ls) = map (\<lambda>l. pre @ l) ls"
proof -
  let ?ls = "map (\<lambda>l. pre @ l) ls"
  have "split_byte (CHR 0x0A) (commented pre ls) [] = ?ls"
    unfolding commented_def by (rule split_byte_join) (use assms(1,3) in \<open>auto simp: list_all_iff plain_line_def\<close>)
  moreover have "last ?ls \<noteq> []" using assms(1,2) by (simp add: last_map)
  ultimately have r: "raw_lines (commented pre ls) = ?ls" by (simp add: raw_lines_def Let_def)
  have "takeWhile (\<lambda>l. length l \<le> maxLine) ?ls = ?ls"
    by (rule takeWhile_eq_all_conv [THEN iffD2]) (use assms(3) in \<open>auto simp: list_all_iff plain_line_def\<close>)
  moreover have "map (\<lambda>l. TrimSuffix l [CHR 0x0D]) ?ls = ?ls"
    by (rule map_idI) (use assms(3) in \<open>auto simp: list_all_iff plain_line_def TrimSuffix_char\<close>)
  ultimately show ?thesis unfolding scan_lines_def r by (simp only:)
qed

text \<open>
  C40: Uncommenting undoes commenting: if the target is a block of lines that each begin with the prefix, and the file
  has it at its first occurrence, then exactly this file is written, with the same text around the block and
  the block without the prefixes, and nothing else is touched.
\<close>

theorem uncomment_commented:
  assumes "ls \<noteq> []" "pre \<noteq> []" "list_all (\<lambda>l. plain_line (pre @ l)) ls"
    and "osReadFile os filename (hostWorld h) = (Inr (before @ commented pre ls @ after), w)"
    and "strings_Index (before @ commented pre ls @ after) (commented pre ls) = Some (length before)"
    and "osWriteFile os filename (before @ strings_Join ls [CHR 0x0A] @ after) w = (None, w')"
  shows "UncommentCode os filename (commented pre ls) pre h = (None, h\<lparr>hostWorld := w',
    hostCalls := hostCalls h @ [ReadFile filename, WriteFile filename (before @ strings_Join ls [CHR 0x0A] @ after)]\<rparr>)"
proof -
  have "map (\<lambda>l. TrimPrefix (pre @ l) pre) ls = ls" by (simp add: TrimPrefix_def)
  with assms scan_commented [OF assms(1-3)] show ?thesis
    by (simp add: UncommentCode_def os_do_def Let_def comp_def)
qed

text \<open>
  Other blocks come back changed, although the comment promises that the prefix is removed: the newline at the end of a
  target is lost, so that the line behind it moves up, and nothing is done for an empty target.
\<close>

lemma uncomment_loses_newline:
  assumes "osReadFile os f (hostWorld h) = (Inr [CHR ''#'', CHR ''a'', CHR 0x0A, CHR ''b''], w)"
    and "osWriteFile os f ''ab'' w = (None, w')"
  shows "UncommentCode os f [CHR ''#'', CHR ''a'', CHR 0x0A] ''#'' h =
    (None, h\<lparr>hostWorld := w', hostCalls := hostCalls h @ [ReadFile f, WriteFile f ''ab'']\<rparr>)"
  using assms by (simp add: UncommentCode_def os_do_def scan_lines_def raw_lines_def maxLine_def TrimSuffix_char TrimPrefix_def)

lemma uncomment_nothing:
  assumes "osReadFile os f (hostWorld h) = (Inr content, w)"
  shows "UncommentCode os f [] pre h = (None, h\<lparr>hostWorld := w, hostCalls := hostCalls h @ [ReadFile f]\<rparr>)"
  using assms by (simp add: UncommentCode_def os_do_def scan_lines_def raw_lines_def Let_def)

text \<open>A host with one file.\<close>

definition file_os :: "string os" where
  "file_os = \<lparr>osGetwd = (\<lambda>w. ((''/src/test/e2e'', None), w)), osChdir = (\<lambda>_ w. (None, w)), osExec = (\<lambda>_ _ w. (([], None), w)),
     osReadFile = (\<lambda>_ w. (Inr w, w)), osWriteFile = (\<lambda>_ text _. (None, text)), osMkdirTemp = (\<lambda>_ w. (Inr ''/tmp/d'', w)),
     osRemoveAll = (\<lambda>_ w. (None, w)), osLookupEnv = (\<lambda>_. None)\<rparr>"

theorem uncomment_commented_witness:
  "\<exists>h'. UncommentCode file_os ''f'' (commented ''# '' [''a'', [], ''b'']) ''# ''
       \<lparr>hostWorld = ''x'' @ commented ''# '' [''a'', [], ''b''] @ ''y'', hostCalls = [], hostLog = []\<rparr> = (None, h') \<and>
     hostWorld h' = ''x'' @ strings_Join [''a'', [], ''b''] [CHR 0x0A] @ ''y''"
proof -
  let ?h = "\<lparr>hostWorld = ''x'' @ commented ''# '' [''a'', [], ''b''] @ ''y'', hostCalls = [], hostLog = []\<rparr>"
  have "list_all (\<lambda>l. plain_line (''# '' @ l)) [''a'', [], ''b'']" by (simp add: plain_line_def maxLine_def)
  moreover have "strings_Index (''x'' @ commented ''# '' [''a'', [], ''b''] @ ''y'') (commented ''# '' [''a'', [], ''b'']) = Some (length ''x'')"
    by (simp add: commented_def)
  ultimately show ?thesis
    using uncomment_commented [of "[''a'', [], ''b'']" "''# ''" file_os "''f''" ?h "''x''" "''y''"] by (simp add: file_os_def)
qed

end
