(* ===== verification/Spec2Isabelle.thy ===== *)
theory Spec2Isabelle
  imports Call_Bounds Admission Convergence Json_Injective Related_Images Discovery_Concurrency Deep_Copy Test_Utils
begin

text \<open>
  The hyperfleet-operator is a Kubernetes operator in Go.  One cluster-scoped resource, the
  \<^verbatim>\<open>HyperFleetConfig\<close> named \<^verbatim>\<open>cluster\<close>, names a bundle; the operator resolves the bundle to components
  (the HyperFleet API and one Sentinel per entity type), renders the Kubernetes objects of each,
  applies them server side in its own namespace, and publishes their health in the resource's
  status.  This development models the Go code under \<^verbatim>\<open>src/\<close> and proves what makes it correct.

  How the parts interact.  \<^verbatim>\<open>main\<close> turns flags and environment into a manager, a reconciler and a few
  runnables, and stops at the first failure.  A reconcile reads the resource, reads the Secrets that
  the components declare, discovers the key-set URL of the identity provider when the API needs
  one, and then, component by component, renders, stamps two hashes, looks at the live Deployment,
  applies, counts rollouts and reports readiness and conditions; a deferred step folds the
  reports and the error into the status.

  The theories, in the order of their imports:

  \<^item> \<open>Prelude\<close>: Go strings as byte lists, errors as values, sums as results, the functions of
    \<^verbatim>\<open>strings\<close>, \<^verbatim>\<open>slices\<close> and \<^verbatim>\<open>strconv\<close> that the program uses.
  \<^item> \<open>Go_Net\<close>: address parsing and printing of \<^verbatim>\<open>net\<close> and \<^verbatim>\<open>net/netip\<close>.  \<open>Go_URL\<close>: \<^verbatim>\<open>net/url.Parse\<close>, and what the
    text of an accepted \<^verbatim>\<open>https\<close> URL looks like.  \<open>Discovery_Policy\<close>:
    the dial hook of \<^verbatim>\<open>internal/controller/hyperfleetconfig_rollout.go\<close> with its table of special-purpose
    ranges; the hook refuses exactly the internal addresses, and its scan is a longest-prefix match.
  \<^item> \<open>Kube_Types\<close>, \<open>Api_Types\<close>: the Kubernetes objects as far as the program fills them, and
    \<^verbatim>\<open>api/v1alpha1/hyperfleetconfig_types.go\<close> with the JSON form of the spec.
  \<^item> \<open>Sha256\<close>, \<open>Config_Hash\<close>, \<open>Json_Text\<close>, \<open>Json_Injective\<close>: SHA-256 (executable), the preimage of the
    rollout hash and its stamp, the JSON text of \<^verbatim>\<open>encoding/json\<close>; both hashed texts are unambiguous.
    Injectivity of SHA-256 is false and is nowhere assumed.
  \<^item> \<open>Go_JSON\<close>, \<open>Json_Roundtrip\<close>: \<^verbatim>\<open>json.Unmarshal\<close> into the struct of a discovery document (lexer, parser with its
    nesting limit, case-folded keys), and the proof that it undoes the encoder of \<open>Json_Text\<close>.
  \<^item> \<open>Component_Contract\<close>: the contract of \<^verbatim>\<open>bundle.Component\<close> as the locale \<open>component\<close>, which \<open>Config_Hash\<close>
    extends by what the hash covers.  \<open>Component_API\<close> (\<^verbatim>\<open>internal/component/api\<close>),
    \<open>Component_Sentinel\<close> (\<^verbatim>\<open>internal/component/sentinel\<close>) and \<open>Bundle\<close> (\<^verbatim>\<open>internal/bundle\<close>) interpret it
    for the code's components: keys, namespaces, volumes, Secrets and conditions fit together.
  \<^item> \<open>Status_Rollup\<close>: \<^verbatim>\<open>internal/controller/hyperfleetconfig_status.go\<close>.
  \<^item> \<open>Effects\<close>, \<open>Jwks_Discovery\<close>, \<open>Operand_Apply\<close>, \<open>Controller\<close>: the outside world as the record \<open>env\<close>
    of operations on an unknown state, the calls made as a trace, the metrics as counters
    (\<^verbatim>\<open>internal/metrics\<close>), discovery with its cache, \<^verbatim>\<open>internal/apply\<close> and
    \<^verbatim>\<open>internal/controller/observability.go\<close>, and \<^verbatim>\<open>Reconcile\<close> with its phases.
  \<^item> \<open>Discovery_Concurrency\<close>: any number of goroutines in discovery, under any schedule, with the \<^verbatim>\<open>sync.Once\<close>
    and the \<^verbatim>\<open>sync.Mutex\<close> of the reconciler: no crash, no deadlock, termination, and the proof that the
    sequential definitions of \<open>Jwks_Discovery\<close> are the atomic operations that they perform.
  \<^item> \<open>Recovery\<close>: the contract \<open>healthy_world\<close> of a world that answers, in which a reconcile succeeds.
  \<^item> \<open>Controller_Properties\<close>, \<open>Reconcile_Status\<close>, \<open>Rollout_Counting\<close>, \<open>Convergence\<close>: one reconcile as a whole: the order
    of its calls, success and failure, what it leaves in the status, what the rollout counter counts
    against a cluster that is read through an informer's cache, which may lag behind, and that one
    success corrects any drift of the applied objects.
  \<^item> \<open>Service_Monitor\<close> (\<^verbatim>\<open>internal/servicemonitor\<close>), \<open>Related_Images\<close> (\<^verbatim>\<open>validators/related-images\<close>),
    \<open>Startup\<close> (\<^verbatim>\<open>cmd/main.go\<close>, \<^verbatim>\<open>internal/version\<close>): the other executables' logic and the start.
  \<^item> \<open>Process_Lifetime\<close>: the states that the running process reaches, as an inductive relation, with
    invariants by rule induction.  \<open>Call_Bounds\<close>: how many calls a reconcile, and the process, make at most.
  \<^item> \<open>Admission\<close>: the validation markers of the resource types, that what a reconcile publishes keeps
    them, and that a change of the spec leaves the set of applied objects alone.
  \<^item> \<open>Deep_Copy\<close>: \<^verbatim>\<open>api/v1alpha1/zz_generated.deepcopy.go\<close> over an explicit heap of variables and arrays,
    as the locale \<open>copyable\<close>: a copy has the value of its original and shares no memory with it, which
    justifies that the other theories treat the resource as an immutable value.
  \<^item> \<open>Test_Utils\<close>: \<^verbatim>\<open>test/utils/utils.go\<close>, the helpers of the end-to-end tests, over a record of operations on
    an unknown host.

  Bounds.  The body of a discovery response is read up to 1 MiB, as in the code; integers of the
  Kubernetes types are unbounded, because the program only compares them and none of its
  arithmetic can overflow; bytes of addresses and words of SHA-256 are machine words.  Every
  function terminates by structural recursion or a length measure, so no fuel is used.  A
  schedule of goroutines is an inductive relation over steps, with a bound on its length.

  Assumptions.  Third-party code is a parameter; a property that relies on its documented behaviour
  names the assumption: \<open>owner_documented\<close> (the owner-reference helper changes owner references
  only), \<open>refresh_documented\<close> (a read by key returns that key), \<open>ssc_documented\<close>
  (\<^verbatim>\<open>meta.SetStatusCondition\<close>), \<open>object_store\<close> (the API server stores what is applied),
  \<open>cached_cluster\<close> (so it does, and a read through the cache is answered from a version that the informer has
  got to, which need not be the last), \<open>secrets_fixed\<close> (Secrets do not change during one reconcile), \<open>healthy_world\<close> and
  \<open>discoverable\<close> (the world answers), \<open>library_documented\<close> (the library's own deep copies are deep).  Each has a concrete
  instance in a witness.

  Not modelled: logging; the text of error messages beyond format and arguments; the YAML codec and the
  library that reads and writes Kubernetes objects; HTTP and TLS; flag parsing; histogram buckets; the
  registration of types in a scheme; the Go memory model below the level of \<^verbatim>\<open>sync\<close>; the interleaving
  of whole reconciles, since the controller runs one at a time; the test cases.
\<close>

section \<open>Properties that span components\<close>

lemma apply_only_component:
  assumes "owner_documented env" "reconcile_component env cr entries c s = (res, s')" "comp_Render (envYAML env) c cr = Inr obs"
  shows "counted ''apply'' (isl res) s s'"
proof -
  obtain obs1 h where st: "stampConfigHash obs (comp_Rollout c) (entries_index entries (comp_Name c)) = (obs1, h)" by fastforce
  obtain ev obs2 s1 where de: "detectRollouts env (comp_Name c) obs1 s = ((ev, obs2), s1)" by (metis surj_pair)
  obtain obs3 err s2 where ap: "apply_Objects env cr obs2 s1 = ((obs3, err), s2)" by (metis surj_pair)
  have m: "metrics s2 = metrics s" using apply_Objects_spec [OF assms(1) ap] detectRollouts_spec [OF de] by simp
  show ?thesis
  proof (cases err)
    case (Some e)
    with assms(2,3) st de ap have "isl res" "s' = with_metrics (IncReconcileError ''apply'') s2"
      by (auto simp: reconcile_component_def)
    with m show ?thesis by simp
  next
    case None
    with assms(2,3) st de ap have "\<not> isl res" "s' = recordReadiness env (comp_Name c) obs3 (with_metrics (commitRollouts ev) s2)"
      by (auto simp: reconcile_component_def)
    with m recordReadiness_spec [of "with_metrics (commitRollouts ev) s2" env "comp_Name c" obs3]
    show ?thesis by (simp add: counted_def)
  qed
qed

lemma apply_only_components:
  assumes "owner_documented env"
  shows "reconcile_components env cr entries cs hashes ccs s = ((err, hashes', ccs'), s') \<Longrightarrow>
    map (\<lambda>c. comp_Render (envYAML env) c cr) cs = map Inr obss \<Longrightarrow> counted ''apply'' (err \<noteq> None) s s'"
proof (induction cs arbitrary: hashes ccs s obss)
  case (Cons c cs)
  from Cons.prems(2) obtain obs obss' where o: "comp_Render (envYAML env) c cr = Inr obs"
    "map (\<lambda>c. comp_Render (envYAML env) c cr) cs = map Inr obss'" by (cases obss) auto
  obtain res s1 where c: "reconcile_component env cr entries c s = (res, s1)" by fastforce
  note C = apply_only_component [OF assms c o(1)]
  show ?case
  proof (cases res)
    case (Inl e)
    with Cons.prems(1) c C show ?thesis by auto
  next
    case (Inr hc)
    obtain h cc where "hc = (h, cc)" by fastforce
    with Cons.prems(1) c Inr have "reconcile_components env cr entries cs (hashes @ [h]) (ccs @ [cc]) s1 = ((err, hashes', ccs'), s')" by simp
    from Cons.IH [OF this o(2)] C Inr show ?thesis by (simp add: counted_def)
  qed
qed (simp add: counted_def)

lemma started_configured:
  assumes "main run fl getenv = (code, att)" "StartManager \<in> set att" "SetupController r \<in> set att"
  shows "configured r"
proof (rule main_started [OF assms(1,2)])
  fix b
  assume b: "getenv sentinel_RelatedImageEnv \<noteq> []" "envToBrokerInfo getenv = Inr b"
    "att = earlier_steps fl getenv b @ [StartManager]"
  from assms(3) b(3) have r: "r = reconciler_of getenv b"
    by (auto simp: earlier_steps_def monitor_steps_def split: option.splits if_splits)
  then show ?thesis
    using b(1) envToBrokerInfo_cases [OF b(2)] by (simp add: configured_def reconciler_of_def)
qed

lemma configured_body:
  assumes "owner_documented env" "\<And>j. \<not> isl (envYAML env j)" "cache_ok s"
    and conf: "configured r" and "Bundle (Spec cr) = BundleCloudCAPI"
    and "reconcile_body env r cr s = (oc, s')"
  shows "\<exists>stage \<in> {''secrets'', ''discovery'', ''apply''}. counted stage (ocError oc \<noteq> None) s s'"
  using assms(6)
proof (cases rule: reconcile_body_cases)
  case (resolve e)
  moreover have "\<exists>cs. Resolve BundleCloudCAPI (bundle_config r) = Inr cs"
    using conf by (auto simp: configured_def Resolve_iff bundle_config_def)
  ultimately show ?thesis using assms(5) by simp
next
  case (secrets cs0 e entries missing)
  with collect_secrets_spec [OF secrets(2)] show ?thesis by (auto simp: failed_def)
next
  case (discovery cs0 e entries missing s1 s2)
  with collect_secrets_spec [OF discovery(2)] resolveJWKSURL_metrics [OF discovery(3)]
  show ?thesis by (auto simp: failed_def counted_def IncReconcileError_def)
next
  case (comps cs0 entries missing s1 s2 url err hashes ccs s3)
  note c = collect_secrets_spec [OF comps(2)]
  with assms(3) have c1: "cache_ok s1" using cache_ok_same by blast
  from c have m1: "mReconcileErrors (metrics s1) = mReconcileErrors (metrics s)" unfolding counted_def by presburger
  note v = resolveJWKSURL_verified [OF c1 comps(3)]
  have url: "AuthEnabled cr \<Longrightarrow> JWKCertSecretRef (Auth (API (Spec cr))) = None \<Longrightarrow> url \<noteq> []"
    using v by (simp add: needs_discovery_def)
  have br: "usable_broker br" if "bcBrokerInfo (bundle_config r) = Some br" for br
    using that conf by (auto simp: configured_def bundle_config_def)
  have img: "bcSentinelImage (bundle_config r) \<noteq> []" using conf by (simp add: configured_def bundle_config_def)
  let ?cs = "SetResolvedJWKSURL (SetAPIBaseURL cs0 (APIBaseURL cr (OperatorNamespace r))) url"
  have "\<exists>obss. map (\<lambda>c. comp_Render (envYAML env) c cr) ?cs = map Inr obss \<and>
    distinct (concat (map (map obj_key) obss)) \<and>
    list_all (list_all (\<lambda>ob. obj_kind ob \<in> set NamespacedOperandTypes)) obss"
    by (rule bundle_rendered [OF comps(1) assms(2) img]) (erule br, erule url)
  then obtain obss where
    "map (\<lambda>c. comp_Render (envYAML env) c cr) (SetResolvedJWKSURL (SetAPIBaseURL cs0 (APIBaseURL cr (OperatorNamespace r))) url) = map Inr obss" by blast
  from apply_only_components [OF assms(1) comps(4) this] have "counted ''apply'' (err \<noteq> None) s2 s3" .
  then have "counted ''apply'' (ocError oc \<noteq> None) s s'"
    using m1 resolveJWKSURL_metrics [OF comps(3)] comps(5,6) by (simp add: counted_def)
  then show ?thesis by blast
qed

text \<open>
  C25: A process that has started its manager never fails a reconcile of a supported bundle in its own
  logic: in any reachable state, for any resource with the cloud bundle, and with a YAML
  marshaller that does not fail, neither the bundle stage nor the render stage counts an error, so
  only the API server and the identity provider can make a reconcile fail.
\<close>

theorem started_operator_renders:
  assumes "main run fl getenv = (code, att)" "StartManager \<in> set att" "SetupController r \<in> set att"
    and "owner_documented env" "refresh_documented env" "\<And>j. \<not> isl (envYAML env j)" "reachable env r s"
    and "fst (envGetCR env req (world s)) = Inr cr" "Bundle (Spec cr) = BundleCloudCAPI"
    and "Reconcile env r req s = (err, s')"
  shows "mReconcileErrors (metrics s') ''bundle'' = mReconcileErrors (metrics s) ''bundle'' \<and>
    mReconcileErrors (metrics s') ''render'' = mReconcileErrors (metrics s) ''render''"
proof (rule Reconcile_found [OF assms(4) _ assms(8,10)])
  note i = process_invD [OF reachable_inv [OF assms(4,5,7)]]
  show "client_ok s" by (rule i(1))
  fix s1 oc s2 new
  assume c: "reconcile_body env r cr s1 = (oc, s2)" "same_but_calls s s1" "metrics s1 = metrics s"
    "mReconcileErrors (metrics s') = mReconcileErrors (metrics s2)"
  from i(2) c(2) have "cache_ok s1" using cache_ok_same by blast
  from configured_body [OF assms(4,6) this started_configured [OF assms(1-3)] assms(9) c(1)] obtain stage where
    "stage \<in> {''secrets'', ''discovery'', ''apply''}" "counted stage (ocError oc \<noteq> None) s1 s2" by blast
  with c(3,4) show ?thesis by (auto simp: counted_def)
qed

lemma example_reconciler_eq: "reconciler_of example_getenv example_broker = example_reconciler"
  by (simp add: reconciler_of_def example_reconciler_def operator_namespace_def example_getenv_def broker_consts
      sentinel_RelatedImageEnv_def api_RelatedImageEnv_def)

theorem started_operator_renders_witness:
  "\<exists>att s s'. main (\<lambda>_. None) default_flags example_getenv = (0, att) \<and> SetupController example_reconciler \<in> set att \<and>
     reachable example_world example_reconciler s \<and> Reconcile example_world example_reconciler ''cluster'' s = (None, s') \<and>
     mReconcileErrors (metrics s') ''render'' = 0"
proof -
  let ?s = "(init_sys ())\<lparr>metrics := metrics_Init ''c'' ''g'' zero_metrics\<rparr> :: unit sys"
  obtain s' where r: "Reconcile example_world example_reconciler ''cluster'' ?s = (None, s')"
    using example_reconcile by blast
  let ?att = "earlier_steps default_flags example_getenv example_broker @ [StartManager]"
  have a: "StartManager \<in> set ?att" "SetupController example_reconciler \<in> set ?att"
    by (simp_all add: earlier_steps_def example_reconciler_eq)
  have y: "\<not> isl (envYAML example_world j)" for j by simp
  have "fst (envGetCR example_world ''cluster'' (world ?s)) = Inr example_cr" by simp
  from started_operator_renders [OF example_main a example_owner example_refresh y reachable.start this _ r]
  have "mReconcileErrors (metrics s') ''render'' = 0" by (simp add: metrics_Init_def zero_metrics_def)
  with example_main a(2) r show ?thesis
    by (intro exI [of _ ?att] exI [of _ ?s] exI [of _ s']) (simp add: reachable.start)
qed

text \<open>
  C13: An outage never outlives its cause.  Whatever has happened to a process that started its manager, failed
  reconciles and stale caches included: as soon as the world answers again, in any state that it can
  have reached, the very next reconcile of a resource with the cloud bundle succeeds, counts no error and
  leaves the world healthy, so that later ones do as well.
\<close>

theorem outage_ends:
  assumes "main run fl getenv = (code, att)" "StartManager \<in> set att" "SetupController r \<in> set att"
    and "owner_documented env" "reachable env r s"
    and "healthy_world env cr ok" "ok (world s)" "discoverable env ok cr s" "Bundle (Spec cr) = BundleCloudCAPI"
  shows "\<exists>s'. Reconcile env r req s = (None, s') \<and> ok (world s') \<and> reachable env r s' \<and>
    mReconcileErrors (metrics s') = mReconcileErrors (metrics s)"
proof -
  have "configured r" by (rule started_configured [OF assms(1-3)])
  from healthy_world.reconcile_ok [OF assms(6-8) this assms(9)] obtain s' where
    r: "Reconcile env r req s = (None, s')" "ok (world s')" by blast
  moreover have "mReconcileErrors (metrics s') = mReconcileErrors (metrics s)"
    using Reconcile_counted [OF assms(4) r(1)] by (auto simp: counted_def)
  moreover have "reachable env r s'" using assms(5) process_step.reconciled [OF r(1)] by (rule reachable.step)
  ultimately show ?thesis by blast
qed

text \<open>A world that is down for as many reads of the resource as its state says.\<close>

definition outage_env :: "HyperFleetConfig \<Rightarrow> nat env" where
  "outage_env cr =
     \<lparr>envGetCR = (\<lambda>_ w. if w = 0 then (Inr cr, 0) else (Inl (External ''unavailable''), w - 1)),
      envGetSecret = (\<lambda>_ _ w. (Inr ''7'', w)), envGetDeployment = (\<lambda>_ _ w. (Inl NotFound, w)),
      envApply = (\<lambda>_ w. (None, w)), envRefresh = (\<lambda>ob w. (Inr ob, w)), envStatusUpdate = (\<lambda>_ w. (None, w)),
      envHTTPDo = (\<lambda>_ _ w. (Inr example_response, w)),
      envSetControllerReference = envSetControllerReference (example_env cr), envToUnstructured = envToUnstructured (example_env cr),
      envMarshalTemplate = envMarshalTemplate (example_env cr), envYAML = envYAML (example_env cr),
      envSetStatusCondition = (\<lambda>_. example_ssc 5)\<rparr>"

interpretation outage: healthy_world "outage_env cr" cr "\<lambda>w. w = 0" for cr
  by unfold_locales (auto simp: outage_env_def intro: exI [of _ "Status cr"])

theorem outage_ends_witness:
  "\<exists>att err s s'. main (\<lambda>_. None) default_flags example_getenv = (0, att) \<and> SetupController example_reconciler \<in> set att \<and>
     Reconcile (outage_env example_cr) example_reconciler ''cluster'' ((init_sys 1)\<lparr>metrics := metrics_Init ''c'' ''g'' zero_metrics\<rparr>) = (Some err, s) \<and>
     Reconcile (outage_env example_cr) example_reconciler ''cluster'' s = (None, s')"
proof -
  let ?env = "outage_env example_cr" and ?s0 = "(init_sys (1 :: nat))\<lparr>metrics := metrics_Init ''c'' ''g'' zero_metrics\<rparr>"
  let ?att = "earlier_steps default_flags example_getenv example_broker @ [StartManager]"
  obtain err s where f: "Reconcile ?env example_reconciler ''cluster'' ?s0 = (Some err, s)" "world s = 0"
    by (simp add: Reconcile_def perform_def outage_env_def init_sys_def)
  have a: "StartManager \<in> set ?att" "SetupController example_reconciler \<in> set ?att"
    by (simp_all add: earlier_steps_def example_reconciler_eq)
  have o: "owner_documented ?env" using example_owner [of example_cr] by (simp add: owner_documented_def outage_env_def)
  have "reachable ?env example_reconciler s"
    using reachable.start process_step.reconciled [OF f(1)] by (rule reachable.step)
  moreover have "discoverable ?env (\<lambda>w. w = 0) example_cr s"
    by (simp add: discoverable_def Let_def outage_env_def example_provider)
  moreover have "Bundle (Spec example_cr) = BundleCloudCAPI" by simp
  ultimately obtain s' where "Reconcile ?env example_reconciler ''cluster'' s = (None, s')"
    using outage_ends [OF example_main a o _ outage.healthy_world_axioms f(2)] by blast
  with example_main a(2) f(1) show ?thesis by blast
qed

end
